(* ===== verification/Kuo_Prelude.thy ===== *)
theory Kuo_Prelude
  imports Main "HOL-Library.Char_ord" "HOL-Library.List_Lexorder" "HOL-Library.Multiset"
begin

section \<open>Prelude: results, effects, strings and machine integers\<close>

text \<open>
  Shared vocabulary of the development. A Rust function that returns
  \<^verbatim>\<open>anyhow::Result<T>\<close> and may also panic (index out of range, \<^verbatim>\<open>expect\<close>) is a
  function into \<open>('e, 'a) res\<close>; an \<^verbatim>\<open>async\<close> function that additionally calls out to
  AWS or Kubernetes with a mutating request is a function into \<open>('e, 'a, 'f) io\<close>, which
  pairs the result with the list of mutating requests in the order they were sent.

  Rust strings are HOL strings (lists of bytes). The operations of \<^verbatim>\<open>str\<close> the
  sources use (\<^verbatim>\<open>split\<close>, \<^verbatim>\<open>splitn\<close>, \<^verbatim>\<open>split_once\<close>, \<^verbatim>\<open>find\<close>,
  \<^verbatim>\<open>trim\<close>, \<^verbatim>\<open>parse\<close>, \<^verbatim>\<open>format!\<close> of integers) are defined here once; white
  space and letter case are those of ASCII. Unsigned machine integers are \<open>nat\<close>
  values with the bound of their width written out where an operation can reach it;
  signed 64-bit values are \<open>int\<close>.
\<close>


subsection \<open>Results and effects\<close>

datatype ('e, 'a) res = Ok 'a | Err 'e | Panic

type_synonym ('e, 'a, 'f) io = "('e, 'a) res \<times> 'f list"

fun rbind :: "('e, 'a) res \<Rightarrow> ('a \<Rightarrow> ('e, 'b) res) \<Rightarrow> ('e, 'b) res" where
  "rbind (Ok x) k = k x"
| "rbind (Err e) k = Err e"
| "rbind Panic k = Panic"

definition ret :: "'a \<Rightarrow> ('e, 'a, 'f) io" where
  "ret x = (Ok x, [])"

definition lift :: "('e, 'a) res \<Rightarrow> ('e, 'a, 'f) io" where
  "lift r = (r, [])"

definition emit :: "'f \<Rightarrow> ('e, unit, 'f) io" where
  "emit f = (Ok (), [f])"

definition iobind :: "('e, 'a, 'f) io \<Rightarrow> ('a \<Rightarrow> ('e, 'b, 'f) io) \<Rightarrow> ('e, 'b, 'f) io" where
  "iobind m k =
     (case fst m of
        Ok x \<Rightarrow> (fst (k x), snd m @ snd (k x))
      | Err e \<Rightarrow> (Err e, snd m)
      | Panic \<Rightarrow> (Panic, snd m))"

fun ok_or :: "'a option \<Rightarrow> 'e \<Rightarrow> ('e, 'a) res" where
  "ok_or None e = Err e"
| "ok_or (Some x) e = Ok x"

text \<open>\<^verbatim>\<open>Result::map_err\<close> on an external call's answer.\<close>

fun map_err :: "('d \<Rightarrow> 'e) \<Rightarrow> 'd + 'a \<Rightarrow> ('e, 'a) res" where
  "map_err f (Inl d) = Err (f d)"
| "map_err f (Inr x) = Ok x"

text \<open>A vector index: a panic out of range, as \<^verbatim>\<open>v[i]\<close> is.\<close>

definition index :: "'a list \<Rightarrow> nat \<Rightarrow> ('e, 'a) res" where
  "index xs i = (if i < length xs then Ok (xs ! i) else Panic)"

lemma fst_ret [simp]: "fst (ret x) = Ok x" and snd_ret [simp]: "snd (ret x) = []"
  by (simp_all add: ret_def)

lemma fst_lift [simp]: "fst (lift r) = r" and snd_lift [simp]: "snd (lift r) = []"
  by (simp_all add: lift_def)

lemma fst_emit [simp]: "fst (emit f) = Ok ()" and snd_emit [simp]: "snd (emit f) = [f]"
  by (simp_all add: emit_def)

lemma fst_iobind [simp]: "fst (iobind m k) = rbind (fst m) (\<lambda>x. fst (k x))"
  by (cases "fst m") (simp_all add: iobind_def)

lemma snd_iobind:
  "snd (iobind m k) = snd m @ (case fst m of Ok x \<Rightarrow> snd (k x) | _ \<Rightarrow> [])"
  by (cases "fst m") (simp_all add: iobind_def)

lemma iobind_ret [simp]: "iobind (ret x) k = k x"
  by (simp add: iobind_def ret_def)

lemma iobind_lift_Ok [simp]: "iobind (lift (Ok x)) k = k x"
  by (simp add: iobind_def lift_def)

lemma rbind_eq_Ok [simp]: "rbind r k = Ok y \<longleftrightarrow> (\<exists>x. r = Ok x \<and> k x = Ok y)"
  by (cases r) simp_all

lemma rbind_eq_Err: "rbind r k = Err e \<longleftrightarrow> r = Err e \<or> (\<exists>x. r = Ok x \<and> k x = Err e)"
  by (cases r) simp_all

lemma rbind_eq_Panic: "rbind r k = Panic \<longleftrightarrow> r = Panic \<or> (\<exists>x. r = Ok x \<and> k x = Panic)"
  by (cases r) simp_all

lemma ok_or_eq [simp]:
  "ok_or x e = Ok y \<longleftrightarrow> x = Some y"
  "ok_or x e \<noteq> Panic"
  "ok_or x e = Err e' \<longleftrightarrow> x = None \<and> e' = e"
  by (cases x; auto)+

lemma map_err_eq [simp]:
  "map_err f r = Ok y \<longleftrightarrow> r = Inr y"
  "map_err f r \<noteq> Panic"
  by (cases r; auto)+

lemma index_eq [simp]:
  "index xs i = Ok x \<longleftrightarrow> i < length xs \<and> x = xs ! i"
  "index xs i \<noteq> Err e"
  "index xs i = Panic \<longleftrightarrow> length xs \<le> i"
  by (auto simp: index_def)

subsection \<open>Iterator adaptors\<close>

text \<open>\<^verbatim>\<open>Iterator::position\<close>: the index of the first element that satisfies the predicate.\<close>

fun position :: "('a \<Rightarrow> bool) \<Rightarrow> 'a list \<Rightarrow> nat option" where
  "position P [] = None"
| "position P (x # xs) = (if P x then Some 0 else map_option Suc (position P xs))"

text \<open>\<^verbatim>\<open>Iterator::filter_map\<close>.\<close>

fun filter_map :: "('a \<Rightarrow> 'b option) \<Rightarrow> 'a list \<Rightarrow> 'b list" where
  "filter_map f [] = []"
| "filter_map f (x # xs) = (case f x of None \<Rightarrow> filter_map f xs | Some y \<Rightarrow> y # filter_map f xs)"

text \<open>\<^verbatim>\<open>slice::join\<close> on strings.\<close>

fun join :: "string \<Rightarrow> string list \<Rightarrow> string" where
  "join sep [] = []"
| "join sep [x] = x"
| "join sep (x # y # ys) = x @ sep @ join sep (y # ys)"

text \<open>A field of a JSON merge patch that is left out when it is empty: the stored value stays.\<close>

definition keep_none :: "'a option \<Rightarrow> 'a option \<Rightarrow> 'a option" where
  "keep_none old new = (case new of None \<Rightarrow> old | Some x \<Rightarrow> Some x)"

definition keep_empty :: "'a list \<Rightarrow> 'a list \<Rightarrow> 'a list" where
  "keep_empty old new = (if new = [] then old else new)"

lemma position_None [simp]: "position P xs = None \<longleftrightarrow> (\<forall>x\<in>set xs. \<not> P x)"
  by (induction xs) auto

lemma position_SomeD:
  assumes "position P xs = Some i"
  shows "i < length xs" and "P (xs ! i)" and "\<And>j. j < i \<Longrightarrow> \<not> P (xs ! j)"
proof -
  have "i < length xs \<and> P (xs ! i) \<and> (\<forall>j<i. \<not> P (xs ! j))"
    using assms
  proof (induction xs arbitrary: i)
    case (Cons x xs)
    then show ?case
      by (cases i) (auto simp: nth_Cons' split: if_splits)
  qed simp
  then show "i < length xs" and "P (xs ! i)" and "\<And>j. j < i \<Longrightarrow> \<not> P (xs ! j)"
    by auto
qed

lemma filter_map_append [simp]: "filter_map f (xs @ ys) = filter_map f xs @ filter_map f ys"
  by (induction xs) (auto split: option.splits)

lemma set_filter_map: "set (filter_map f xs) = {y. \<exists>x\<in>set xs. f x = Some y}"
  by (induction xs) (auto split: option.splits)

lemma filter_list_update_count:
  assumes "i < length xs"
  shows "length (filter P (xs[i := x])) + (if P (xs ! i) then 1 else 0)
       = length (filter P xs) + (if P x then 1 else 0)"
  using assms
proof (induction xs arbitrary: i)
  case (Cons y ys)
  then show ?case by (cases i) auto
qed simp

subsection \<open>Strings\<close>

definition digit_char :: "nat \<Rightarrow> char" where
  "digit_char d = char_of (48 + d)"

definition is_ascii_digit :: "char \<Rightarrow> bool" where
  "is_ascii_digit c \<longleftrightarrow> 48 \<le> (of_char c :: nat) \<and> (of_char c :: nat) \<le> 57"

definition is_ascii_ws :: "char \<Rightarrow> bool" where
  "is_ascii_ws c \<longleftrightarrow> of_char c \<in> {9, 10, 11, 12, 13, 32 :: nat}"

definition to_ascii_lower :: "char \<Rightarrow> char" where
  "to_ascii_lower c =
     (if 65 \<le> (of_char c :: nat) \<and> (of_char c :: nat) \<le> 90 then char_of (of_char c + 32 :: nat) else c)"

definition to_lowercase :: "string \<Rightarrow> string" where
  "to_lowercase s = map to_ascii_lower s"

definition eq_ignore_ascii_case :: "string \<Rightarrow> string \<Rightarrow> bool" where
  "eq_ignore_ascii_case s t \<longleftrightarrow> to_lowercase s = to_lowercase t"

definition trim :: "string \<Rightarrow> string" where
  "trim s = rev (dropWhile is_ascii_ws (rev (dropWhile is_ascii_ws s)))"

fun starts_with :: "string \<Rightarrow> string \<Rightarrow> bool" where
  "starts_with [] s = True"
| "starts_with (p # ps) [] = False"
| "starts_with (p # ps) (c # cs) = (p = c \<and> starts_with ps cs)"

definition ends_with :: "string \<Rightarrow> string \<Rightarrow> bool" where
  "ends_with p s = starts_with (rev p) (rev s)"

text \<open>\<^verbatim>\<open>str::find\<close> with a string pattern: the byte offset of the first occurrence.\<close>

fun str_find :: "string \<Rightarrow> string \<Rightarrow> nat option" where
  "str_find p [] = (if p = [] then Some 0 else None)"
| "str_find p (c # cs) = (if starts_with p (c # cs) then Some 0 else map_option Suc (str_find p cs))"

definition contains :: "string \<Rightarrow> string \<Rightarrow> bool" where
  "contains p s \<longleftrightarrow> str_find p s \<noteq> None"

definition split_once :: "string \<Rightarrow> string \<Rightarrow> (string \<times> string) option" where
  "split_once p s = map_option (\<lambda>i. (take i s, drop (i + length p) s)) (str_find p s)"

text \<open>\<^verbatim>\<open>str::split\<close> with a character: always at least one piece.\<close>

fun split_on :: "char \<Rightarrow> string \<Rightarrow> string list" where
  "split_on c [] = [[]]"
| "split_on c (x # xs) =
     (if x = c then [] # split_on c xs
      else (case split_on c xs of [] \<Rightarrow> [[x]] | w # ws \<Rightarrow> (x # w) # ws))"

text \<open>\<^verbatim>\<open>str::splitn(n, c)\<close>: at most \<open>n\<close> pieces, the last one unsplit.\<close>

fun splitn :: "nat \<Rightarrow> char \<Rightarrow> string \<Rightarrow> string list" where
  "splitn 0 c s = []"
| "splitn (Suc 0) c s = [s]"
| "splitn (Suc (Suc n)) c s =
     (if c \<in> set s
      then takeWhile (\<lambda>x. x \<noteq> c) s # splitn (Suc n) c (tl (dropWhile (\<lambda>x. x \<noteq> c) s))
      else [s])"

fun strip_prefix_char :: "char \<Rightarrow> string \<Rightarrow> string option" where
  "strip_prefix_char c [] = None"
| "strip_prefix_char c (x # xs) = (if x = c then Some xs else None)"

definition strip_suffix_char :: "char \<Rightarrow> string \<Rightarrow> string option" where
  "strip_suffix_char c s = map_option rev (strip_prefix_char c (rev s))"

subsection \<open>Integers: decimal text, widths, truncating division\<close>

fun show_nat :: "nat \<Rightarrow> string" where
  "show_nat n = (if n < 10 then [digit_char n] else show_nat (n div 10) @ [digit_char (n mod 10)])"

declare show_nat.simps [simp del]

definition show_int :: "int \<Rightarrow> string" where
  "show_int i = (if i < 0 then ''-'' @ show_nat (nat (- i)) else show_nat (nat i))"

fun digits_value :: "nat \<Rightarrow> string \<Rightarrow> nat" where
  "digits_value acc [] = acc"
| "digits_value acc (c # cs) = digits_value (10 * acc + (of_char c - 48)) cs"

text \<open>
  \<^verbatim>\<open>str::parse\<close> at an unsigned type whose largest value is \<open>m\<close>: one optional
  leading plus sign, then at least one digit, and an error on overflow.
\<close>

definition parse_uint :: "nat \<Rightarrow> string \<Rightarrow> nat option" where
  "parse_uint m s =
     (let ds = (case strip_prefix_char CHR ''+'' s of Some t \<Rightarrow> t | None \<Rightarrow> s)
      in if ds = [] \<or> \<not> list_all is_ascii_digit ds then None
         else let n = digits_value 0 ds in if n \<le> m then Some n else None)"

definition u32_max :: nat where "u32_max = 4294967295"
definition u64_max :: nat where "u64_max = 18446744073709551615"
definition i64_max :: int where "i64_max = 9223372036854775807"

definition saturating_add_u32 :: "nat \<Rightarrow> nat \<Rightarrow> nat" where
  "saturating_add_u32 a b = min (a + b) u32_max"

definition saturating_mul_u64 :: "nat \<Rightarrow> nat \<Rightarrow> nat" where
  "saturating_mul_u64 a b = min (a * b) u64_max"

text \<open>\<^verbatim>\<open>x as u32\<close> and the wrapping arithmetic of the release profile.\<close>

definition as_u32 :: "nat \<Rightarrow> nat" where
  "as_u32 n = n mod 4294967296"

text \<open>\<^verbatim>\<open>x as i64\<close> for a \<^verbatim>\<open>u64\<close>: the two's complement reading.\<close>

definition as_i64 :: "nat \<Rightarrow> int" where
  "as_i64 n = (int n + 9223372036854775808) mod 18446744073709551616 - 9223372036854775808"

text \<open>\<^verbatim>\<open>i64\<close> addition of the release profile, and \<^verbatim>\<open>i64::try_from(x).unwrap_or(i64::MAX)\<close> of a \<^verbatim>\<open>u64\<close>.\<close>

definition wrapping_add_i64 :: "int \<Rightarrow> int \<Rightarrow> int" where
  "wrapping_add_i64 a b = (a + b + 9223372036854775808) mod 18446744073709551616 - 9223372036854775808"

definition i64_try_from_or_max :: "nat \<Rightarrow> int" where
  "i64_try_from_or_max n = (if int n \<le> i64_max then int n else i64_max)"

definition trunc_div :: "int \<Rightarrow> int \<Rightarrow> int" where
  "trunc_div a b = sgn a * sgn b * (\<bar>a\<bar> div \<bar>b\<bar>)"

subsection \<open>Facts about strings and decimal text\<close>

lemma split_on_not_Nil [simp]: "split_on c s \<noteq> []"
  by (cases s) (auto split: list.splits)

lemma split_on_no_sep: "c \<notin> set s \<Longrightarrow> split_on c s = [s]"
  by (induction s) auto

lemma split_on_append: "c \<notin> set s \<Longrightarrow> split_on c (s @ c # t) = s # split_on c t"
  by (induction s) auto

lemma split_on_glue:
  "c \<notin> set a \<Longrightarrow> split_on c s = w # ws \<Longrightarrow> split_on c (a @ s) = (a @ w) # ws"
  by (induction a) auto

lemma split_on_hd_prefix: "split_on c s = w # ws \<Longrightarrow> \<exists>t. s = w @ t"
proof (induction s arbitrary: w ws)
  case (Cons x xs)
  then show ?case
    by (cases "split_on c xs") (auto split: if_splits)
qed simp

lemma splitn_no_sep: "c \<notin> set s \<Longrightarrow> splitn (Suc n) c s = [s]"
  by (cases n) auto

lemma splitn_append:
  assumes "c \<notin> set s"
  shows "splitn (Suc (Suc n)) c (s @ c # t) = s # splitn (Suc n) c t"
proof -
  from assms have "\<And>x. x \<in> set s \<Longrightarrow> x \<noteq> c" by auto
  then have "takeWhile (\<lambda>x. x \<noteq> c) (s @ c # t) = s" "dropWhile (\<lambda>x. x \<noteq> c) (s @ c # t) = c # t"
    by (simp_all add: takeWhile_append2 dropWhile_append2)
  then show ?thesis by simp
qed

text \<open>Trimming leaves text alone up to a non-blank character; behind it a prefix survives.\<close>

lemma trim_prefix:
  assumes "a \<noteq> []" and "\<not> is_ascii_ws (hd a)" and "\<not> is_ascii_ws (last a)"
  shows "\<exists>s' t. trim (a @ s) = a @ s' \<and> s = s' @ t"
proof -
  obtain x xs where a: "a = x # xs" using assms(1) by (cases a) auto
  with assms(2) have 1: "dropWhile is_ascii_ws (a @ s) = a @ s" by simp
  from assms(1,3) have 2: "dropWhile is_ascii_ws (rev a) = rev a"
    by (cases "rev a") (auto simp: last_rev hd_rev)
  have 3: "dropWhile is_ascii_ws (rev s @ rev a) = dropWhile is_ascii_ws (rev s) @ rev a"
    using 2 by (metis dropWhile_append dropWhile_eq_Nil_conv append_Nil)
  have "s = rev (dropWhile is_ascii_ws (rev s)) @ rev (takeWhile is_ascii_ws (rev s))"
    by (metis rev_append rev_rev_ident takeWhile_dropWhile_id)
  with 1 3 show ?thesis by (auto simp: trim_def)
qed

lemma starts_with_append [simp]: "starts_with p (p @ s)"
  by (induction p) auto

lemma starts_with_iff: "starts_with p s \<longleftrightarrow> (\<exists>t. s = p @ t)"
  by (induction p s rule: starts_with.induct) auto

lemma ends_with_iff: "ends_with p s \<longleftrightarrow> (\<exists>t. s = t @ p)"
proof
  assume "ends_with p s"
  then obtain t where "rev s = rev p @ t" by (auto simp: ends_with_def starts_with_iff)
  then have "s = rev t @ p" by (metis rev_append rev_rev_ident)
  then show "\<exists>t. s = t @ p" ..
qed (auto simp: ends_with_def)

lemma str_find_SomeD: "str_find p s = Some i \<Longrightarrow> i \<le> length s \<and> starts_with p (drop i s)"
proof (induction s arbitrary: i)
  case (Cons c cs)
  show ?case
  proof (cases "starts_with p (c # cs)")
    case True
    with Cons.prems show ?thesis by simp
  next
    case False
    with Cons.prems obtain j where "str_find p cs = Some j" "i = Suc j" by auto
    with Cons.IH show ?thesis by simp
  qed
qed (auto split: if_splits)

lemma str_find_append:
  assumes "p = c # ps" and "c \<notin> set s"
  shows "str_find p (s @ p @ t) = Some (length s)"
  using assms(2)
proof (induction s)
  case Nil
  show ?case by (simp add: assms(1))
next
  case (Cons x xs)
  then have "\<not> starts_with p (x # xs @ p @ t)" by (simp add: assms(1))
  with Cons show ?case by simp
qed

lemma str_find_None_char: "p = c # ps \<Longrightarrow> c \<notin> set s \<Longrightarrow> str_find p s = None"
  by (induction s) auto

lemma split_once_append:
  assumes "p = c # ps" and "c \<notin> set s"
  shows "split_once p (s @ p @ t) = Some (s, t)"
  using str_find_append [OF assms] by (simp add: split_once_def)

lemma split_once_None_char: "p = c # ps \<Longrightarrow> c \<notin> set s \<Longrightarrow> split_once p s = None"
  by (simp add: split_once_def str_find_None_char)

lemma of_char_digit_char [simp]: "d < 10 \<Longrightarrow> of_char (digit_char d) = (48 + d :: nat)"
  by (simp add: digit_char_def)

lemma is_ascii_digit_digit_char [simp]: "d < 10 \<Longrightarrow> is_ascii_digit (digit_char d)"
  by (simp add: is_ascii_digit_def)

lemma digits_value_append [simp]: "digits_value acc (s @ t) = digits_value (digits_value acc s) t"
  by (induction s arbitrary: acc) auto

lemma show_nat_not_Nil [simp]: "show_nat n \<noteq> []"
  by (subst show_nat.simps) simp

lemma show_nat_digits: "list_all is_ascii_digit (show_nat n)"
proof (induction n rule: show_nat.induct)
  case (1 n)
  then show ?case by (subst show_nat.simps) auto
qed

lemma digits_value_show_nat [simp]: "digits_value 0 (show_nat n) = n"
proof (induction n rule: show_nat.induct)
  case (1 n)
  show ?case
  proof (cases "n < 10")
    case True
    then show ?thesis by (subst show_nat.simps) simp
  next
    case False
    with 1 have "digits_value 0 (show_nat (n div 10)) = n div 10" by simp
    with False show ?thesis by (subst show_nat.simps) simp
  qed
qed

lemma digit_not_in_show_nat: "\<not> is_ascii_digit c \<Longrightarrow> c \<notin> set (show_nat n)"
  using show_nat_digits [of n] by (auto simp: list_all_iff)

lemma not_digit_consts [simp]:
  "\<not> is_ascii_digit CHR ''+''" "\<not> is_ascii_digit CHR ''.''" "\<not> is_ascii_digit CHR ''-''"
  "\<not> is_ascii_digit CHR ''v''" "\<not> is_ascii_digit CHR ''%''"
  by (simp_all add: is_ascii_digit_def)

lemma show_nat_no_sep [simp]:
  "CHR ''+'' \<notin> set (show_nat n)" "CHR ''.'' \<notin> set (show_nat n)" "CHR ''-'' \<notin> set (show_nat n)"
  "CHR ''v'' \<notin> set (show_nat n)" "CHR ''%'' \<notin> set (show_nat n)"
  by (simp_all add: digit_not_in_show_nat)

lemma show_nat_hd_last [simp]:
  "is_ascii_digit (hd (show_nat n))" "is_ascii_digit (last (show_nat n))"
  using show_nat_digits [of n] by (auto simp: list_all_iff)

lemma digit_not_ws: "is_ascii_digit c \<Longrightarrow> \<not> is_ascii_ws c"
  by (auto simp: is_ascii_digit_def is_ascii_ws_def)

lemma takeWhile_show_nat:
  assumes "r = [] \<or> \<not> is_ascii_digit (hd r)"
  shows "takeWhile is_ascii_digit (show_nat n @ r) = show_nat n"
  using assms show_nat_digits [of n]
  by (cases r) (auto simp: list_all_iff takeWhile_append2)

lemma strip_prefix_char_notin [simp]: "c \<notin> set s \<Longrightarrow> strip_prefix_char c s = None"
  by (cases s) auto

text \<open>Decimal text round trip: what \<^verbatim>\<open>format!\<close> prints, \<^verbatim>\<open>parse\<close> reads back.\<close>

lemma parse_uint_show_nat [simp]: "n \<le> m \<Longrightarrow> parse_uint m (show_nat n) = Some n"
  by (simp add: parse_uint_def show_nat_digits)

lemma parse_uint_le: "parse_uint m s = Some n \<Longrightarrow> n \<le> m"
  by (auto simp: parse_uint_def Let_def split: if_splits)

lemma show_nat_inject [simp]: "show_nat a = show_nat b \<longleftrightarrow> a = b"
  by (metis digits_value_show_nat)

lemma as_u32_small [simp]: "n \<le> u32_max \<Longrightarrow> as_u32 n = n"
  by (simp add: as_u32_def u32_max_def)

lemma wrapping_add_i64_small: "0 \<le> a \<Longrightarrow> 0 \<le> b \<Longrightarrow> a + b \<le> i64_max \<Longrightarrow> wrapping_add_i64 a b = a + b"
  by (simp add: wrapping_add_i64_def i64_max_def)

lemma as_i64_small: "int n \<le> i64_max \<Longrightarrow> as_i64 n = int n"
  by (simp add: as_i64_def i64_max_def)

lemma digit_char_literals:
  "digit_char 0 = CHR ''0''" "digit_char 1 = CHR ''1''" "digit_char 2 = CHR ''2''"
  "digit_char 3 = CHR ''3''" "digit_char 4 = CHR ''4''" "digit_char 5 = CHR ''5''"
  "digit_char 6 = CHR ''6''" "digit_char 7 = CHR ''7''" "digit_char 8 = CHR ''8''"
  "digit_char 9 = CHR ''9''" "digit_char (Suc 0) = CHR ''1''"
  by (simp_all add: digit_char_def char_of_def bit_0)

text \<open>Evaluation of closed string computations by the simplifier.\<close>

lemmas str_eval = show_nat.simps digit_char_literals parse_uint_def is_ascii_digit_def is_ascii_ws_def
  u32_max_def u64_max_def show_int_def trim_def split_once_def contains_def ends_with_def
  strip_suffix_char_def to_lowercase_def to_ascii_lower_def eq_ignore_ascii_case_def

end
