(* ===== verification/Kuo_Error.thy ===== *)
theory Kuo_Error
  imports Kuo_Prelude
begin

section \<open>Errors of the operator (error.rs)\<close>

text \<open>
  The operator's error enum, its classification of AWS SDK errors by message text, and the
  transient/permanent split the controller's retry policy rests on. An SDK error is the
  pair of its \<^verbatim>\<open>Display\<close> and \<^verbatim>\<open>Debug\<close> renderings, all the code looks at. An
  \<^verbatim>\<open>anyhow::Error\<close> is either a \<^verbatim>\<open>KuoError\<close> the controller can downcast to, or
  a plain message it cannot.
\<close>

record sdk_error =
  sdk_display :: string
  sdk_debug :: string

datatype kuo_error =
    AwsSdk string string
  | AwsCredentials string string
  | AwsRegion string string
  | ClusterNotFound string
  | InvalidVersion string
  | UpgradeNotPossible string
  | KubernetesApi string
  | KubernetesForbidden string

datatype error = Kuo kuo_error | Anyhow string

fun kuo_error_to_string :: "kuo_error \<Rightarrow> string" where
  "kuo_error_to_string (AwsSdk c m) = ''['' @ c @ ''] '' @ m"
| "kuo_error_to_string (AwsCredentials c m) = ''['' @ c @ ''] AWS credentials error: '' @ m"
| "kuo_error_to_string (AwsRegion c m) = ''['' @ c @ ''] AWS region not configured: '' @ m"
| "kuo_error_to_string (ClusterNotFound m) = ''Cluster not found: '' @ m"
| "kuo_error_to_string (InvalidVersion m) = ''Invalid version format: '' @ m"
| "kuo_error_to_string (UpgradeNotPossible m) = ''Upgrade not possible: '' @ m"
| "kuo_error_to_string (KubernetesApi m) = ''Kubernetes API error: '' @ m"
| "kuo_error_to_string (KubernetesForbidden m) = ''Kubernetes permission denied: '' @ m"

fun error_to_string :: "error \<Rightarrow> string" where
  "error_to_string (Kuo e) = kuo_error_to_string e"
| "error_to_string (Anyhow m) = m"

definition message_marker :: string where
  "message_marker = ''message: Some('' @ [CHR 0x22]"

definition extract_error_details :: "string \<Rightarrow> string \<Rightarrow> string" where
  "extract_error_details debug_str display_str =
     (let fallback =
            (if \<not> contains ''service error'' (to_lowercase display_str) then display_str
             else ''AWS API request failed'')
      in case str_find message_marker debug_str of
           Some pos \<Rightarrow>
             (let rest = drop (pos + length message_marker) debug_str
              in case str_find [CHR 0x22] rest of
                   Some end_pos \<Rightarrow> take end_pos rest
                 | None \<Rightarrow> fallback)
         | None \<Rightarrow> fallback)"

definition credential_markers :: "string list" where
  "credential_markers =
     [''no credentials'', ''credentials not found'', ''invalid credentials'', ''expired token'',
      ''expiredtoken'', ''the security token included in the request is invalid'',
      ''the security token included in the request is expired'', ''unrecognized client'',
      ''invalidclienttokenid'', ''signaturedoesnotmatch'', ''access denied'', ''not authorized'',
      ''accessdenied'']"

definition region_markers :: "string list" where
  "region_markers = [''no region'', ''region not found'', ''missing region'']"

definition kuo_aws :: "string \<Rightarrow> sdk_error \<Rightarrow> kuo_error" where
  "kuo_aws component err =
     (let combined_lower = to_lowercase (sdk_display err @ '' '' @ sdk_debug err);
          details = extract_error_details (sdk_debug err) (sdk_display err)
      in if list_ex (\<lambda>p. contains p combined_lower) credential_markers
         then AwsCredentials component details
         else if list_ex (\<lambda>p. contains p combined_lower) region_markers
         then AwsRegion component details
         else AwsSdk component details)"

fun is_transient :: "kuo_error \<Rightarrow> bool" where
  "is_transient (AwsSdk c m) = True"
| "is_transient (KubernetesApi m) = True"
| "is_transient _ = False"

text \<open>The controller's downcast: only a transient \<^verbatim>\<open>KuoError\<close> is retried.\<close>

fun error_is_transient :: "error \<Rightarrow> bool" where
  "error_is_transient (Kuo e) = is_transient e"
| "error_is_transient (Anyhow m) = False"

definition aws_err :: "string \<Rightarrow> sdk_error \<Rightarrow> error" where
  "aws_err component e = Kuo (kuo_aws component e)"

lemma aws_err_transient_iff:
  "error_is_transient (aws_err c e) \<longleftrightarrow>
     \<not> list_ex (\<lambda>p. contains p (to_lowercase (sdk_display e @ '' '' @ sdk_debug e)))
        (credential_markers @ region_markers)"
  by (simp add: aws_err_def kuo_aws_def Let_def)

end
