(* ===== verification/Kuo_Types.thy ===== *)
theory Kuo_Types
  imports Kuo_Prelude
begin

section \<open>The EKSUpgrade resource (crd/types.rs, crd/spec.rs, crd/status.rs)\<close>

text \<open>
  The custom resource's spec and status, field for field. Timestamps are integers that count
  nanoseconds from the epoch, \<^verbatim>\<open>u32\<close>/\<^verbatim>\<open>u64\<close>/\<^verbatim>\<open>usize\<close> counters are \<open>nat\<close>,
  \<^verbatim>\<open>i64\<close> is \<open>int\<close>. Field names carry a short prefix per record because HOL record
  selectors are global.
\<close>

type_synonym timestamp = int

text \<open>\<^verbatim>\<open>chrono::Duration::num_seconds\<close> and \<^verbatim>\<open>num_minutes\<close>: truncation towards zero.\<close>

definition num_seconds :: "int \<Rightarrow> int" where
  "num_seconds d = trunc_div d 1000000000"

definition num_minutes :: "int \<Rightarrow> int" where
  "num_minutes d = trunc_div (num_seconds d) 60"

subsection \<open>Phases and component states\<close>

datatype UpgradePhase =
    Pending
  | Planning
  | PreflightChecking
  | UpgradingControlPlane
  | UpgradingAddons
  | UpgradingNodeGroups
  | UpgradingKarpenterNodePools
  | RollingBackNodeGroups
  | RollingBackAddons
  | RollingBackControlPlane
  | Completed
  | Failed

datatype ComponentStatus = CPending | CInProgress | CCompleted | CFailed | CSkipped

datatype UpgradeMode = Forward | Rollback

datatype KarpenterStrategy = Replace

fun strategy_to_string :: "KarpenterStrategy \<Rightarrow> string" where
  "strategy_to_string Replace = ''Replace''"

subsection \<open>Spec\<close>

record NotificationConfig =
  nc_on_upgrade :: bool
  nc_on_dry_run :: bool

record KarpenterNodePoolsConfig =
  kc_enabled :: bool
  kc_node_pools :: "string list"
  kc_strategy :: KarpenterStrategy
  kc_max_unavailable :: string
  kc_node_drain_timeout_minutes :: nat
  kc_controller_stable_timeout_minutes :: nat

record TimeoutConfig =
  tc_control_plane_minutes :: nat
  tc_nodegroup_minutes :: nat

record EKSUpgradeSpec =
  sp_cluster_name :: string
  sp_target_version :: string
  sp_region :: string
  sp_upgrade_mode :: UpgradeMode
  sp_assume_role_arn :: "string option"
  sp_addon_versions :: "(string \<rightharpoonup> string) option"
  sp_dry_run :: bool
  sp_timeouts :: "TimeoutConfig option"
  sp_notification :: "NotificationConfig option"
  sp_karpenter_node_pools :: "KarpenterNodePoolsConfig option"

definition NODE_POOLS_ALL :: string where
  "NODE_POOLS_ALL = ''ALL''"

definition selects_all :: "KarpenterNodePoolsConfig \<Rightarrow> bool" where
  "selects_all cfg \<longleftrightarrow>
     kc_node_pools cfg = [] \<or>
     list_ex (\<lambda>n. eq_ignore_ascii_case n NODE_POOLS_ALL) (kc_node_pools cfg)"

definition resolve_max_unavailable :: "KarpenterNodePoolsConfig \<Rightarrow> nat \<Rightarrow> nat" where
  "resolve_max_unavailable cfg total_nodes =
     (let raw = trim (kc_max_unavailable cfg);
          parsed = (case strip_suffix_char CHR ''%'' raw of
                      None \<Rightarrow> parse_uint u64_max raw
                    | Some pct \<Rightarrow>
                        map_option (\<lambda>p. saturating_mul_u64 total_nodes p div 100)
                          (parse_uint u64_max (trim pct)))
      in max (case parsed of Some n \<Rightarrow> n | None \<Rightarrow> 1) 1)"

subsection \<open>Per-phase status\<close>

record PlanningStatus =
  pl_source_version :: "string option"
  pl_upgrade_path :: "string list"

record PreflightCheckStatus =
  pc_name :: string
  pc_status :: string
  pc_message :: string
  pc_resources :: "string list"

record PreflightStatus =
  pf_checks :: "PreflightCheckStatus list"

record ControlPlaneStatus =
  cp_current_step :: nat
  cp_total_steps :: nat
  cp_target :: "string option"
  cp_update_id :: "string option"
  cp_started_at :: "timestamp option"
  cp_completed_at :: "timestamp option"

record AddonStatus =
  as_name :: string
  as_current_version :: string
  as_target_version :: string
  as_status :: ComponentStatus
  as_started_at :: "timestamp option"
  as_completed_at :: "timestamp option"

record NodegroupStatus =
  ng_name :: string
  ng_current_version :: string
  ng_target_version :: string
  ng_status :: ComponentStatus
  ng_update_id :: "string option"
  ng_started_at :: "timestamp option"
  ng_completed_at :: "timestamp option"

record CurrentBatchEntry =
  be_node_claim :: string
  be_node_name :: "string option"
  be_provider_id :: "string option"
  be_state :: string
  be_started_at :: "timestamp option"
  be_controllers :: "string list"

record NodeClaimReplacement =
  rp_old_node_claim :: string
  rp_new_node_claim :: "string option"
  rp_node_name :: "string option"

record KarpenterPoolStatus =
  kp_name :: string
  kp_status :: ComponentStatus
  kp_total_nodes :: nat
  kp_replaced_nodes :: nat
  kp_completed_node_claims :: "string list"
  kp_replacements :: "NodeClaimReplacement list"
  kp_current_batch :: "CurrentBatchEntry list"

record KarpenterNodePoolsStatus =
  ks_strategy :: string
  ks_active_pool :: "string option"
  ks_total_nodes :: nat
  ks_replaced_nodes :: nat
  ks_pools :: "KarpenterPoolStatus list"

record PhaseStatuses =
  ph_planning :: "PlanningStatus option"
  ph_preflight :: "PreflightStatus option"
  ph_control_plane :: "ControlPlaneStatus option"
  ph_addons :: "AddonStatus list"
  ph_nodegroups :: "NodegroupStatus list"
  ph_karpenter_node_pools :: "KarpenterNodePoolsStatus option"

subsection \<open>Lifecycle and top-level status\<close>

record VersionLifecycleInfo =
  vl_version :: string
  vl_version_status :: string
  vl_end_of_standard_support_date :: "timestamp option"
  vl_end_of_extended_support_date :: "timestamp option"

record LifecycleStatus =
  lc_last_checked_time :: timestamp
  lc_current_version :: "VersionLifecycleInfo option"
  lc_target_version :: "VersionLifecycleInfo option"
  lc_error :: "string option"

record UpgradeCondition =
  uc_type :: string
  uc_status :: string
  uc_reason :: string
  uc_message :: "string option"
  uc_last_transition_time :: timestamp

record AwsIdentity =
  ai_account_id :: string
  ai_arn :: string

record TransitionRecord =
  tr_mode :: UpgradeMode
  tr_to_version :: string
  tr_completed_at :: timestamp

record EKSUpgradeStatus =
  st_phase :: "UpgradePhase option"
  st_current_version :: "string option"
  st_progress :: "string option"
  st_phases :: PhaseStatuses
  st_conditions :: "UpgradeCondition list"
  st_started_at :: "timestamp option"
  st_observed_generation :: int
  st_message :: "string option"
  st_completed_at :: "timestamp option"
  st_identity :: "AwsIdentity option"
  st_lifecycle :: "LifecycleStatus option"
  st_last_transition :: "TransitionRecord option"

text \<open>\<^verbatim>\<open>#[derive(Default)]\<close> of the status records.\<close>

definition default_phases :: PhaseStatuses where
  "default_phases = \<lparr>ph_planning = None, ph_preflight = None, ph_control_plane = None,
     ph_addons = [], ph_nodegroups = [], ph_karpenter_node_pools = None\<rparr>"

definition default_status :: EKSUpgradeStatus where
  "default_status = \<lparr>st_phase = None, st_current_version = None, st_progress = None,
     st_phases = default_phases, st_conditions = [], st_started_at = None,
     st_observed_generation = 0, st_message = None, st_completed_at = None,
     st_identity = None, st_lifecycle = None, st_last_transition = None\<rparr>"

text \<open>Nested record updates, written once.\<close>

definition upd_phases :: "(PhaseStatuses \<Rightarrow> PhaseStatuses) \<Rightarrow> EKSUpgradeStatus \<Rightarrow> EKSUpgradeStatus" where
  "upd_phases f s = s\<lparr>st_phases := f (st_phases s)\<rparr>"

lemma upd_phases_sel [simp]:
  "st_phases (upd_phases f s) = f (st_phases s)"
  "st_phase (upd_phases f s) = st_phase s"
  "st_current_version (upd_phases f s) = st_current_version s"
  "st_progress (upd_phases f s) = st_progress s"
  "st_conditions (upd_phases f s) = st_conditions s"
  "st_started_at (upd_phases f s) = st_started_at s"
  "st_observed_generation (upd_phases f s) = st_observed_generation s"
  "st_message (upd_phases f s) = st_message s"
  "st_completed_at (upd_phases f s) = st_completed_at s"
  "st_identity (upd_phases f s) = st_identity s"
  "st_lifecycle (upd_phases f s) = st_lifecycle s"
  "st_last_transition (upd_phases f s) = st_last_transition s"
  by (simp_all add: upd_phases_def)

subsection \<open>Batch size\<close>

lemma resolve_max_unavailable_pos [simp]: "1 \<le> resolve_max_unavailable cfg n"
  by (simp add: resolve_max_unavailable_def Let_def)

lemma resolve_max_unavailable_pct:
  assumes "strip_suffix_char CHR ''%'' (trim (kc_max_unavailable cfg)) = Some pct"
    and "parse_uint u64_max (trim pct) = Some p" and "p \<le> 100" and "0 < n" and "n \<le> u32_max"
  shows "resolve_max_unavailable cfg n \<le> n"
proof -
  have le: "n * p \<le> n * 100" using assms(3) by (rule mult_le_mono2)
  then have "n * p \<le> u64_max"
    using assms(5) unfolding u32_max_def u64_max_def by linarith
  then have "saturating_mul_u64 n p = n * p" by (simp add: saturating_mul_u64_def)
  moreover from le have "n * p div 100 \<le> n" by linarith
  ultimately show ?thesis
    using assms(1,2,4) by (simp add: resolve_max_unavailable_def)
qed

end
