(* ===== verification/Kuo_Aws.thy ===== *)
theory Kuo_Aws
  imports Kuo_Error Kuo_Types
begin

section \<open>The EKS client wrapper (eks/client.rs, eks/types.rs)\<close>

text \<open>
  The AWS SDK is code outside the repository: each request the operator sends is a function of
  the record \<open>eks_sdk\<close>, from the request's parameters to either an SDK error or the parts of
  the response the operator reads. One value of the record stands for AWS during one reconcile;
  different reconciles may see different ones. The wrappers below are the repository's own.
  Requests that change something in AWS or Kubernetes are recorded as an \<open>effect\<close> when they
  are sent, whether or not they are then answered with an error.
\<close>

record sdk_cluster =
  sc_name :: "string option"
  sc_version :: "string option"
  sc_endpoint :: "string option"
  sc_ca_data :: "string option"
  sc_deletion_protection :: "bool option"

record sdk_addon =
  sa_addon_name :: "string option"
  sa_addon_version :: "string option"
  sa_status :: "string option"

record sdk_nodegroup =
  sn_nodegroup_name :: "string option"
  sn_version :: "string option"

record sdk_addon_version =
  sav_addon_version :: "string option"
  sav_compat_defaults :: "bool list"

record sdk_insight_summary =
  sis_id :: "string option"
  sis_status :: "string option"

record sdk_insight =
  si_category :: "string option"
  si_description :: "string option"
  si_status :: "string option"
  si_recommendation :: "string option"
  si_resources :: "(string option \<times> string option) list"

record sdk_cluster_version =
  scv_cluster_version :: "string option"
  scv_status :: "string option"
  scv_end_of_standard_support :: "(int \<times> nat) option"
  scv_end_of_extended_support :: "(int \<times> nat) option"

record eks_sdk =
  sdk_describe_cluster :: "string \<Rightarrow> sdk_error + sdk_cluster option"
  sdk_update_cluster_version :: "string \<Rightarrow> string \<Rightarrow> sdk_error + string option"
  sdk_describe_update :: "string \<Rightarrow> string option \<Rightarrow> string \<Rightarrow> sdk_error + string option"
  sdk_describe_cluster_versions :: "string list \<Rightarrow> sdk_error + sdk_cluster_version list"
  sdk_list_addons :: "string \<Rightarrow> sdk_error + string list"
  sdk_describe_addon :: "string \<Rightarrow> string \<Rightarrow> sdk_error + sdk_addon option"
  sdk_describe_addon_versions :: "string \<Rightarrow> string \<Rightarrow> sdk_error + sdk_addon_version list list"
  sdk_update_addon :: "string \<Rightarrow> string \<Rightarrow> string \<Rightarrow> sdk_error + string option"
  sdk_list_nodegroups :: "string \<Rightarrow> sdk_error + string list"
  sdk_describe_nodegroup :: "string \<Rightarrow> string \<Rightarrow> sdk_error + sdk_nodegroup option"
  sdk_update_nodegroup_version :: "string \<Rightarrow> string \<Rightarrow> string \<Rightarrow> sdk_error + string option"
  sdk_list_insights :: "string \<Rightarrow> string \<Rightarrow> sdk_error + sdk_insight_summary list"
  sdk_describe_insight :: "string \<Rightarrow> string \<Rightarrow> sdk_error + sdk_insight option"
  chrono_from_timestamp :: "int \<Rightarrow> nat \<Rightarrow> timestamp option"

datatype effect =
    UpdateClusterVersion string string
  | UpdateAddon string string string
  | UpdateNodegroupVersion string string string
  | DeleteNodeClaim string

type_synonym 'a kuo_io = "(error, 'a, effect) io"
type_synonym 'a kuo_res = "(error, 'a) res"

definition unwrap_or_default :: "string option \<Rightarrow> string" where
  "unwrap_or_default s = (case s of Some t \<Rightarrow> t | None \<Rightarrow> [])"

definition unwrap_or :: "'a \<Rightarrow> 'a option \<Rightarrow> 'a" where
  "unwrap_or d x = (case x of Some y \<Rightarrow> y | None \<Rightarrow> d)"

subsection \<open>Cluster operations\<close>

record ClusterInfo =
  ci_name :: string
  ci_version :: string
  ci_region :: string
  ci_endpoint :: "string option"
  ci_ca_data :: "string option"
  ci_deletion_protection :: "bool option"

record VersionLifecycle =
  vc_version :: string
  vc_status :: string
  vc_end_of_standard_support :: "timestamp option"
  vc_end_of_extended_support :: "timestamp option"

record EksClient =
  ec_client :: eks_sdk
  ec_region :: string

definition client_module :: string where
  "client_module = ''kuo::eks::client''"

definition describe_cluster :: "EksClient \<Rightarrow> string \<Rightarrow> ClusterInfo option kuo_res" where
  "describe_cluster ec cluster_name =
     rbind (map_err (aws_err client_module) (sdk_describe_cluster (ec_client ec) cluster_name)) (\<lambda>response.
     case response of
       Some cluster \<Rightarrow>
         Ok (Some \<lparr>ci_name = unwrap_or_default (sc_name cluster),
                   ci_version = unwrap_or_default (sc_version cluster),
                   ci_region = ec_region ec,
                   ci_endpoint = sc_endpoint cluster,
                   ci_ca_data = sc_ca_data cluster,
                   ci_deletion_protection = sc_deletion_protection cluster\<rparr>)
     | None \<Rightarrow> Ok None)"

definition update_cluster_version :: "EksClient \<Rightarrow> string \<Rightarrow> string \<Rightarrow> string kuo_io" where
  "update_cluster_version ec cluster_name target_version =
     iobind (emit (UpdateClusterVersion cluster_name target_version)) (\<lambda>_.
     iobind (lift (map_err (aws_err client_module)
               (sdk_update_cluster_version (ec_client ec) cluster_name target_version))) (\<lambda>update.
     ret (unwrap_or_default update)))"

definition check_update_status :: "EksClient \<Rightarrow> string \<Rightarrow> string \<Rightarrow> string kuo_res" where
  "check_update_status ec cluster_name update_id =
     rbind (map_err (aws_err client_module)
              (sdk_describe_update (ec_client ec) cluster_name None update_id)) (\<lambda>status.
     Ok (unwrap_or ''Unknown'' status))"

definition smithy_datetime_to_chrono :: "eks_sdk \<Rightarrow> int \<times> nat \<Rightarrow> timestamp option" where
  "smithy_datetime_to_chrono sdk dt = chrono_from_timestamp sdk (fst dt) (snd dt)"

definition describe_cluster_versions :: "EksClient \<Rightarrow> string list \<Rightarrow> VersionLifecycle list kuo_res" where
  "describe_cluster_versions ec versions =
     rbind (map_err (aws_err client_module) (sdk_describe_cluster_versions (ec_client ec) versions)) (\<lambda>response.
     Ok (map (\<lambda>cv.
       \<lparr>vc_version = unwrap_or_default (scv_cluster_version cv),
        vc_status = unwrap_or_default (scv_status cv),
        vc_end_of_standard_support =
          Option.bind (scv_end_of_standard_support cv) (smithy_datetime_to_chrono (ec_client ec)),
        vc_end_of_extended_support =
          Option.bind (scv_end_of_extended_support cv) (smithy_datetime_to_chrono (ec_client ec))\<rparr>) response))"

subsection \<open>Plan results\<close>

record 'u PlanResult =
  pr_upgrades :: "'u list"
  pr_skipped :: nat

definition new_plan_result :: "'u PlanResult" where
  "new_plan_result = \<lparr>pr_upgrades = [], pr_skipped = 0\<rparr>"

definition add_upgrade :: "'u PlanResult \<Rightarrow> 'u \<Rightarrow> 'u PlanResult" where
  "add_upgrade r u = r\<lparr>pr_upgrades := pr_upgrades r @ [u]\<rparr>"

definition add_skipped :: "'u PlanResult \<Rightarrow> 'u PlanResult" where
  "add_skipped r = r\<lparr>pr_skipped := pr_skipped r + 1\<rparr>"

lemma plan_result_simps [simp]:
  "pr_upgrades new_plan_result = []" "pr_skipped new_plan_result = 0"
  "pr_upgrades (add_upgrade r u) = pr_upgrades r @ [u]" "pr_skipped (add_upgrade r u) = pr_skipped r"
  "pr_upgrades (add_skipped r) = pr_upgrades r" "pr_skipped (add_skipped r) = Suc (pr_skipped r)"
  by (simp_all add: new_plan_result_def add_upgrade_def add_skipped_def)

subsection \<open>Frame facts\<close>

text \<open>An AWS endpoint that answers every request with the same error; examples override it.\<close>

definition no_answer_sdk :: eks_sdk where
  "no_answer_sdk = (let e = \<lparr>sdk_display = ''dispatch failure'', sdk_debug = ''timeout''\<rparr> in
     \<lparr>sdk_describe_cluster = (\<lambda>_. Inl e), sdk_update_cluster_version = (\<lambda>_ _. Inl e),
      sdk_describe_update = (\<lambda>_ _ _. Inl e), sdk_describe_cluster_versions = (\<lambda>_. Inl e),
      sdk_list_addons = (\<lambda>_. Inl e), sdk_describe_addon = (\<lambda>_ _. Inl e),
      sdk_describe_addon_versions = (\<lambda>_ _. Inl e), sdk_update_addon = (\<lambda>_ _ _. Inl e),
      sdk_list_nodegroups = (\<lambda>_. Inl e), sdk_describe_nodegroup = (\<lambda>_ _. Inl e),
      sdk_update_nodegroup_version = (\<lambda>_ _ _. Inl e), sdk_list_insights = (\<lambda>_ _. Inl e),
      sdk_describe_insight = (\<lambda>_ _. Inl e), chrono_from_timestamp = (\<lambda>s n. Some (s * 1000000000 + int n))\<rparr>)"


lemma describe_cluster_no_panic [simp]: "describe_cluster ec c \<noteq> Panic"
  by (auto simp: describe_cluster_def rbind_eq_Panic split: option.splits)

lemma check_update_status_no_panic [simp]: "check_update_status ec c u \<noteq> Panic"
  by (auto simp: check_update_status_def rbind_eq_Panic)

lemma describe_cluster_versions_no_panic [simp]: "describe_cluster_versions ec vs \<noteq> Panic"
  by (auto simp: describe_cluster_versions_def rbind_eq_Panic)

lemma update_cluster_version_result [simp]: "fst (update_cluster_version ec c v) \<noteq> Panic"
  by (auto simp: update_cluster_version_def rbind_eq_Panic)

lemma update_cluster_version_effects [simp]:
  "snd (update_cluster_version ec c v) = [UpdateClusterVersion c v]"
  by (auto simp: update_cluster_version_def snd_iobind split: res.splits)

end
