(* ===== verification/Kuo_Interfaces.thy ===== *)
theory Kuo_Interfaces
  imports Kuo_Prelude
begin

section \<open>Interfaces shared by several components\<close>

text \<open>
  Two contracts that more than one part of the operator relies on, each stated once as a locale
  and interpreted in the theory of the component that provides it.

  \<^item> \<open>comparator_on\<close>: what \<^verbatim>\<open>slice::sort_by\<close> needs of its comparison function on
    the elements it sorts; interpreted on the add-on version comparison in \<open>Kuo_Addon\<close>.
  \<^item> \<open>work_queue\<close>: a list of components worked off one at a time, the first unfinished one
    being the active one; interpreted on add-ons, node groups and Karpenter pools by the phase
    handlers' theories.
\<close>

subsection \<open>Sorting with a comparison function\<close>

datatype ordering = Less | Equal | Greater

fun invert :: "ordering \<Rightarrow> ordering" where
  "invert Less = Greater"
| "invert Equal = Equal"
| "invert Greater = Less"

definition ord_cmp :: "'a::linorder \<Rightarrow> 'a \<Rightarrow> ordering" where
  "ord_cmp x y = (if x < y then Less else if x = y then Equal else Greater)"

lemma ord_cmp_simps [simp]:
  "ord_cmp x x = Equal"
  "ord_cmp x y = Greater \<longleftrightarrow> y < x"
  "ord_cmp x y = Less \<longleftrightarrow> x < y"
  "ord_cmp x y = Equal \<longleftrightarrow> x = y"
  "invert (ord_cmp x y) = ord_cmp y x"
  by (auto simp: ord_cmp_def)

text \<open>
  \<^verbatim>\<open>slice::sort_by\<close> is a stable sort; for a total preorder its result is determined, and
  insertion from the right computes it.
\<close>

fun insert_by :: "('a \<Rightarrow> 'a \<Rightarrow> ordering) \<Rightarrow> 'a \<Rightarrow> 'a list \<Rightarrow> 'a list" where
  "insert_by cmp x [] = [x]"
| "insert_by cmp x (y # ys) = (if cmp x y = Greater then y # insert_by cmp x ys else x # y # ys)"

definition sort_by :: "('a \<Rightarrow> 'a \<Rightarrow> ordering) \<Rightarrow> 'a list \<Rightarrow> 'a list" where
  "sort_by cmp xs = foldr (insert_by cmp) xs []"

lemma mset_insert_by [simp]: "mset (insert_by cmp x ys) = add_mset x (mset ys)"
  by (induction ys) auto

lemma set_insert_by [simp]: "set (insert_by cmp x ys) = insert x (set ys)"
  by (induction ys) auto

lemma mset_sort_by [simp]: "mset (sort_by cmp xs) = mset xs"
  by (induction xs) (auto simp: sort_by_def)

lemma set_sort_by [simp]: "set (sort_by cmp xs) = set xs"
  by (metis mset_sort_by set_mset_mset)

lemma sort_by_eq_Nil [simp]: "sort_by cmp xs = [] \<longleftrightarrow> xs = []"
  by (metis mset_sort_by mset_zero_iff)

locale comparator_on =
  fixes D :: "'a \<Rightarrow> bool" and cmp :: "'a \<Rightarrow> 'a \<Rightarrow> ordering"
  assumes cmp_flip: "D x \<Longrightarrow> D y \<Longrightarrow> cmp y x = invert (cmp x y)"
    and cmp_trans: "D x \<Longrightarrow> D y \<Longrightarrow> D z \<Longrightarrow> cmp x y \<noteq> Greater \<Longrightarrow> cmp y z \<noteq> Greater \<Longrightarrow> cmp x z \<noteq> Greater"
begin

lemma insert_by_sorted:
  assumes "D x" and "\<And>y. y \<in> set ys \<Longrightarrow> D y" and "sorted_wrt (\<lambda>a b. cmp a b \<noteq> Greater) ys"
  shows "sorted_wrt (\<lambda>a b. cmp a b \<noteq> Greater) (insert_by cmp x ys)"
  using assms
proof (induction ys)
  case (Cons y ys)
  show ?case
  proof (cases "cmp x y = Greater")
    case True
    then have "cmp y x \<noteq> Greater" using cmp_flip [of x y] Cons.prems by simp
    with Cons True show ?thesis by auto
  next
    case False
    have "cmp x z \<noteq> Greater" if "z \<in> set ys" for z
      using cmp_trans [of x y z] that False Cons.prems by auto
    with False Cons.prems show ?thesis by auto
  qed
qed simp

lemma sort_by_sorted:
  "(\<And>x. x \<in> set xs \<Longrightarrow> D x) \<Longrightarrow> sorted_wrt (\<lambda>a b. cmp a b \<noteq> Greater) (sort_by cmp xs)"
proof (induction xs)
  case (Cons x xs)
  then have "sorted_wrt (\<lambda>a b. cmp a b \<noteq> Greater) (sort_by cmp xs)" by simp
  then have "sorted_wrt (\<lambda>a b. cmp a b \<noteq> Greater) (insert_by cmp x (sort_by cmp xs))"
    using Cons.prems by (intro insert_by_sorted) auto
  then show ?case by (simp add: sort_by_def)
qed (simp add: sort_by_def)

lemma sort_by_first_least:
  assumes "\<And>x. x \<in> set xs \<Longrightarrow> D x" and "sort_by cmp xs = y # ys" and "x \<in> set xs"
  shows "cmp y x \<noteq> Greater"
proof -
  have "x = y \<or> x \<in> set ys" using assms(2,3) by (metis set_ConsD set_sort_by)
  moreover have "D y" using assms(1,2) by (metis list.set_intros(1) set_sort_by)
  moreover have "sorted_wrt (\<lambda>a b. cmp a b \<noteq> Greater) (y # ys)"
    using sort_by_sorted [of xs] assms(1,2) by simp
  ultimately show ?thesis
    using cmp_flip [of y y] by (cases "cmp y y") auto
qed

end

subsection \<open>Components worked off one at a time\<close>

text \<open>
  \<open>finished\<close> is the test a phase handler uses to skip an entry, \<open>active\<close> the index it
  computes; the law is that the active entry is the first unfinished one. \<open>remaining\<close> counts
  the unfinished entries: finishing the active entry lowers it by one, and the phase is over
  exactly when it reaches zero.
\<close>

locale work_queue =
  fixes finished :: "'c \<Rightarrow> bool" and active :: "'c list \<Rightarrow> nat option"
  assumes active_first: "active cs = position (\<lambda>c. \<not> finished c) cs"
begin

definition remaining :: "'c list \<Rightarrow> nat" where
  "remaining cs = length (filter (\<lambda>c. \<not> finished c) cs)"

lemma active_None: "active cs = None \<longleftrightarrow> (\<forall>c \<in> set cs. finished c)"
  by (simp add: active_first)

lemma active_Some:
  assumes "active cs = Some i"
  shows "i < length cs" and "\<not> finished (cs ! i)" and "\<And>j. j < i \<Longrightarrow> finished (cs ! j)"
  using position_SomeD [of "\<lambda>c. \<not> finished c" cs i] assms by (auto simp: active_first)

lemma remaining_zero: "remaining cs = 0 \<longleftrightarrow> active cs = None"
  by (auto simp: remaining_def active_None filter_empty_conv)

lemma remaining_finish:
  assumes "active cs = Some i" and "finished c"
  shows "Suc (remaining (cs[i := c])) = remaining cs"
  using filter_list_update_count [OF active_Some(1) [OF assms(1)], of "\<lambda>c. \<not> finished c" c]
    active_Some(2) [OF assms(1)] assms(2) by (simp add: remaining_def)

lemma remaining_keep:
  assumes "active cs = Some i" and "\<not> finished c"
  shows "remaining (cs[i := c]) = remaining cs"
  using filter_list_update_count [OF active_Some(1) [OF assms(1)], of "\<lambda>c. \<not> finished c" c]
    active_Some(2) [OF assms(1)] assms(2) by (simp add: remaining_def)

lemma active_keep:
  assumes "active cs = Some i" and "\<not> finished c"
  shows "active (cs[i := c]) = Some i"
proof -
  have "position (\<lambda>c. \<not> finished c) (cs[i := c]) = Some i"
    using active_Some [OF assms(1)] assms(2)
  proof (induction cs arbitrary: i)
    case (Cons x xs)
    show ?case
    proof (cases i)
      case (Suc j)
      have "finished x" using Cons.prems(3) [of 0] Suc by simp
      moreover have "finished (xs ! k)" if "k < j" for k
        using Cons.prems(3) [of "Suc k"] that Suc by simp
      then have "position (\<lambda>c. \<not> finished c) (xs[j := c]) = Some j"
        using Cons.prems Suc by (intro Cons.IH) auto
      ultimately show ?thesis using Suc by simp
    qed (use Cons.prems in simp)
  qed simp
  then show ?thesis by (simp add: active_first)
qed

end

end
