(* ===== verification/Kuo_Addon.thy ===== *)
theory Kuo_Addon
  imports Kuo_Aws Kuo_Interfaces "HOL-Library.Product_Lexorder"
begin

section \<open>Add-on versions and planning (eks/addon.rs)\<close>

text \<open>
  Parsing and comparing EKS add-on versions, choosing a compatible version, and planning
  add-on changes for an upgrade and for a rollback.
\<close>

definition addon_module :: string where
  "addon_module = ''kuo::eks::addon''"

definition parse_addon_version :: "string \<Rightarrow> (nat \<times> nat \<times> nat \<times> nat) option" where
  "parse_addon_version version =
     (let s = unwrap_or version (strip_prefix_char CHR ''v'' version);
          split = (case split_once ''-eksbuild.'' s of
                     Some (sem, eksbuild) \<Rightarrow>
                       (case parse_uint u64_max eksbuild of
                          None \<Rightarrow> None
                        | Some build_num \<Rightarrow> Some (sem, build_num))
                   | None \<Rightarrow> Some (s, 0))
      in case split of
           None \<Rightarrow> None
         | Some (semver_part, build) \<Rightarrow>
             (let parts = split_on CHR ''.'' semver_part
              in if length parts \<noteq> 3 then None
                 else Option.bind (parse_uint u64_max (parts ! 0)) (\<lambda>major.
                      Option.bind (parse_uint u64_max (parts ! 1)) (\<lambda>minor.
                      Option.bind (parse_uint u64_max (parts ! 2)) (\<lambda>patch.
                      Some (major, minor, patch, build))))))"

definition compare_addon_versions :: "string \<Rightarrow> string \<Rightarrow> ordering" where
  "compare_addon_versions a b =
     (case (parse_addon_version a, parse_addon_version b) of
        (Some va, Some vb) \<Rightarrow> ord_cmp va vb
      | _ \<Rightarrow> ord_cmp a b)"

record AddonInfo =
  ad_name :: string
  ad_current_version :: string

record AddonVersionInfo =
  av_version :: string
  av_default_version :: bool

type_synonym AddonUpgrade = "AddonInfo \<times> string"

definition describe_addon :: "eks_sdk \<Rightarrow> string \<Rightarrow> string \<Rightarrow> AddonInfo option kuo_res" where
  "describe_addon sdk cluster_name addon_name =
     rbind (map_err (aws_err addon_module) (sdk_describe_addon sdk cluster_name addon_name)) (\<lambda>response.
     Ok (map_option (\<lambda>a. \<lparr>ad_name = unwrap_or_default (sa_addon_name a),
                          ad_current_version = unwrap_or_default (sa_addon_version a)\<rparr>) response))"

text \<open>\<^verbatim>\<open>r.ok().flatten()\<close>: an add-on whose description fails is left out.\<close>

fun ok_flatten :: "'a option kuo_res \<Rightarrow> 'a option" where
  "ok_flatten (Ok x) = x"
| "ok_flatten _ = None"

definition list_addons :: "eks_sdk \<Rightarrow> string \<Rightarrow> AddonInfo list kuo_res" where
  "list_addons sdk cluster_name =
     rbind (map_err (aws_err addon_module) (sdk_list_addons sdk cluster_name)) (\<lambda>names.
     Ok (filter_map (\<lambda>n. ok_flatten (describe_addon sdk cluster_name n)) names))"

definition get_compatible_versions :: "eks_sdk \<Rightarrow> string \<Rightarrow> string \<Rightarrow> AddonVersionInfo list kuo_res" where
  "get_compatible_versions sdk addon_name k8s_version =
     rbind (map_err (aws_err addon_module) (sdk_describe_addon_versions sdk addon_name k8s_version)) (\<lambda>addons.
     let versions = map (\<lambda>vi. \<lparr>av_version = unwrap_or_default (sav_addon_version vi),
                               av_default_version = list_ex (\<lambda>d. d) (sav_compat_defaults vi)\<rparr>) (concat addons)
     in Ok (sort_by (\<lambda>a b. compare_addon_versions (av_version b) (av_version a)) versions))"

definition pick_latest_compatible :: "AddonVersionInfo list \<Rightarrow> string option" where
  "pick_latest_compatible versions =
     (case find av_default_version versions of
        Some d \<Rightarrow> Some (av_version d)
      | None \<Rightarrow> (case versions of [] \<Rightarrow> None | v # _ \<Rightarrow> Some (av_version v)))"

definition get_latest_compatible_version :: "eks_sdk \<Rightarrow> string \<Rightarrow> string \<Rightarrow> string option kuo_res" where
  "get_latest_compatible_version sdk addon_name k8s_version =
     rbind (get_compatible_versions sdk addon_name k8s_version) (\<lambda>versions.
     Ok (pick_latest_compatible versions))"

definition update_addon :: "eks_sdk \<Rightarrow> string \<Rightarrow> string \<Rightarrow> string \<Rightarrow> string kuo_io" where
  "update_addon sdk cluster_name addon_name target_version =
     iobind (emit (UpdateAddon cluster_name addon_name target_version)) (\<lambda>_.
     iobind (lift (map_err (aws_err addon_module)
               (sdk_update_addon sdk cluster_name addon_name target_version))) (\<lambda>update.
     ret (unwrap_or_default update)))"

fun plan_addon_upgrades_loop ::
    "eks_sdk \<Rightarrow> string \<Rightarrow> (string \<rightharpoonup> string) \<Rightarrow> AddonInfo list \<Rightarrow> AddonUpgrade PlanResult \<Rightarrow>
     AddonUpgrade PlanResult kuo_res" where
  "plan_addon_upgrades_loop sdk target_k8s specified [] result = Ok result"
| "plan_addon_upgrades_loop sdk target_k8s specified (addon # rest) result =
     rbind (case specified (ad_name addon) of
              Some v \<Rightarrow> Ok (Some v)
            | None \<Rightarrow> get_latest_compatible_version sdk (ad_name addon) target_k8s) (\<lambda>target.
     plan_addon_upgrades_loop sdk target_k8s specified rest
       (case target of
          None \<Rightarrow> add_skipped result
        | Some target_version \<Rightarrow>
            if target_version = ad_current_version addon then add_skipped result
            else add_upgrade result (addon, target_version)))"

definition plan_addon_upgrades ::
    "eks_sdk \<Rightarrow> string \<Rightarrow> string \<Rightarrow> (string \<rightharpoonup> string) \<Rightarrow> AddonUpgrade PlanResult kuo_res" where
  "plan_addon_upgrades sdk cluster_name target_k8s specified =
     rbind (list_addons sdk cluster_name) (\<lambda>current_addons.
     plan_addon_upgrades_loop sdk target_k8s specified current_addons new_plan_result)"

definition resolve_rollback_target :: "string \<Rightarrow> string option \<Rightarrow> string option \<Rightarrow> string option" where
  "resolve_rollback_target current_version specified auto_resolved =
     (case specified of
        Some pinned \<Rightarrow> (if pinned \<noteq> current_version then Some pinned else None)
      | None \<Rightarrow>
          Option.bind auto_resolved (\<lambda>resolved.
            if compare_addon_versions resolved current_version = Less then Some resolved else None))"

fun plan_addon_rollbacks_loop ::
    "eks_sdk \<Rightarrow> string \<Rightarrow> (string \<rightharpoonup> string) \<Rightarrow> AddonInfo list \<Rightarrow> AddonUpgrade PlanResult \<Rightarrow>
     AddonUpgrade PlanResult kuo_res" where
  "plan_addon_rollbacks_loop sdk target_k8s specified [] result = Ok result"
| "plan_addon_rollbacks_loop sdk target_k8s specified (addon # rest) result =
     rbind (case specified (ad_name addon) of
              Some _ \<Rightarrow> Ok None
            | None \<Rightarrow> get_latest_compatible_version sdk (ad_name addon) target_k8s) (\<lambda>auto_resolved.
     plan_addon_rollbacks_loop sdk target_k8s specified rest
       (case resolve_rollback_target (ad_current_version addon) (specified (ad_name addon)) auto_resolved of
          Some target_version \<Rightarrow> add_upgrade result (addon, target_version)
        | None \<Rightarrow> add_skipped result))"

definition plan_addon_rollbacks ::
    "eks_sdk \<Rightarrow> string \<Rightarrow> string \<Rightarrow> (string \<rightharpoonup> string) \<Rightarrow> AddonUpgrade PlanResult kuo_res" where
  "plan_addon_rollbacks sdk cluster_name target_k8s specified =
     rbind (list_addons sdk cluster_name) (\<lambda>current_addons.
     plan_addon_rollbacks_loop sdk target_k8s specified current_addons new_plan_result)"

definition poll_addon_status :: "eks_sdk \<Rightarrow> string \<Rightarrow> string \<Rightarrow> string kuo_res" where
  "poll_addon_status sdk cluster_name addon_name =
     rbind (map_err (aws_err addon_module) (sdk_describe_addon sdk cluster_name addon_name)) (\<lambda>response.
     Ok (unwrap_or ''Unknown'' (Option.bind response sa_status)))"

subsection \<open>Version text and its order\<close>

definition format_addon_version :: "nat \<Rightarrow> nat \<Rightarrow> nat \<Rightarrow> nat \<Rightarrow> string" where
  "format_addon_version major minor patch build =
     ''v'' @ (show_nat major @ ''.'' @ show_nat minor @ ''.'' @ show_nat patch) @ ''-eksbuild.'' @ show_nat build"

text \<open>
  The documented add-on version format \<open>v<major>.<minor>.<patch>-eksbuild.<build>\<close> reads back
  component by component, for every value that fits 64 bits.
\<close>

theorem parse_addon_version_roundtrip:
  assumes "major \<le> u64_max" "minor \<le> u64_max" "patch \<le> u64_max" "build \<le> u64_max"
  shows "parse_addon_version (format_addon_version major minor patch build) = Some (major, minor, patch, build)"
proof -
  let ?sem = "show_nat major @ ''.'' @ show_nat minor @ ''.'' @ show_nat patch"
  have "split_once ''-eksbuild.'' (?sem @ ''-eksbuild.'' @ show_nat build) = Some (?sem, show_nat build)"
    by (rule split_once_append [of _ "CHR ''-''" "''eksbuild.''"]) simp_all
  moreover have "split_on CHR ''.'' ?sem = [show_nat major, show_nat minor, show_nat patch]"
    by (simp add: split_on_append split_on_no_sep)
  ultimately show ?thesis
    using assms by (simp add: parse_addon_version_def format_addon_version_def unwrap_or_def)
qed

theorem parse_addon_version_roundtrip_witness:
  "parse_addon_version (format_addon_version 1 19 2 3) = Some (1, 19, 2, 3)"
  using parse_addon_version_roundtrip [of 1 19 2 3] by (simp add: u64_max_def)

abbreviation parseable :: "string \<Rightarrow> bool" where
  "parseable v \<equiv> parse_addon_version v \<noteq> None"

lemma compare_parseable:
  "parse_addon_version a = Some va \<Longrightarrow> parse_addon_version b = Some vb \<Longrightarrow>
     compare_addon_versions a b = ord_cmp va vb"
  by (simp add: compare_addon_versions_def)

interpretation addon_desc: comparator_on "\<lambda>i. parseable (av_version i)"
    "\<lambda>a b. compare_addon_versions (av_version b) (av_version a)"
  by unfold_locales (auto simp: compare_parseable)

text \<open>
  With no version flagged as default, the version chosen for an add-on is one EKS lists for
  the target Kubernetes version and none of the listed versions is newer, provided the listed
  versions have the documented format; with a flagged default, the choice is a flagged one.
\<close>

theorem latest_compatible_version_is_newest:
  assumes "get_compatible_versions sdk a k8s = Ok vs"
    and "\<forall>i \<in> set vs. parseable (av_version i)"
    and "get_latest_compatible_version sdk a k8s = Ok (Some v)"
  shows "(\<exists>i \<in> set vs. av_version i = v \<and> (av_default_version i \<or> (\<forall>j \<in> set vs. \<not> av_default_version j))) \<and>
         ((\<forall>i \<in> set vs. \<not> av_default_version i) \<longrightarrow>
            (\<forall>i \<in> set vs. compare_addon_versions v (av_version i) \<noteq> Less))"
proof -
  let ?cmp = "\<lambda>a b. compare_addon_versions (av_version b) (av_version a)"
  from assms(1) obtain us where vs: "vs = sort_by ?cmp us" by (auto simp: get_compatible_versions_def Let_def)
  from assms(1,3) have pick: "pick_latest_compatible vs = Some v"
    by (simp add: get_latest_compatible_version_def)
  show ?thesis
  proof (cases "find av_default_version vs")
    case (Some d)
    with pick have "av_version d = v" by (simp add: pick_latest_compatible_def)
    moreover from Some have "d \<in> set vs" "av_default_version d"
      by (auto simp: find_Some_iff)
    ultimately show ?thesis by auto
  next
    case None
    with pick obtain w ws where w: "vs = w # ws" "av_version w = v"
      by (auto simp: pick_latest_compatible_def split: list.splits)
    have "?cmp w i \<noteq> Greater" if "i \<in> set vs" for i
      using addon_desc.sort_by_first_least [of us w ws i] assms(2) vs w(1) that by auto
    moreover have "?cmp w i = invert (compare_addon_versions v (av_version i))" if "i \<in> set vs" for i
      using addon_desc.cmp_flip [of i w] assms(2) w that by auto
    ultimately have "\<forall>i \<in> set vs. compare_addon_versions v (av_version i) \<noteq> Less"
      by (metis invert.simps(1))
    with None w show ?thesis by (auto simp: find_None_iff)
  qed
qed

theorem latest_compatible_version_is_newest_witness:
  "get_latest_compatible_version
     (no_answer_sdk\<lparr>sdk_describe_addon_versions := (\<lambda>_ _. Inr [[
        \<lparr>sav_addon_version = Some ''v1.9.0-eksbuild.1'', sav_compat_defaults = [False]\<rparr>,
        \<lparr>sav_addon_version = Some ''v1.10.0-eksbuild.1'', sav_compat_defaults = []\<rparr>]])\<rparr>)
     ''coredns'' ''1.34'' = Ok (Some ''v1.10.0-eksbuild.1'') \<and>
   compare_addon_versions ''v1.10.0-eksbuild.1'' ''v1.9.0-eksbuild.1'' \<noteq> Less"
proof -
  let ?sdk = "no_answer_sdk\<lparr>sdk_describe_addon_versions := (\<lambda>_ _. Inr [[
        \<lparr>sav_addon_version = Some ''v1.9.0-eksbuild.1'', sav_compat_defaults = [False]\<rparr>,
        \<lparr>sav_addon_version = Some ''v1.10.0-eksbuild.1'', sav_compat_defaults = []\<rparr>]])\<rparr>"
  let ?new = "\<lparr>av_version = ''v1.10.0-eksbuild.1'', av_default_version = False\<rparr>"
  let ?old = "\<lparr>av_version = ''v1.9.0-eksbuild.1'', av_default_version = False\<rparr>"
  have p: "parse_addon_version ''v1.10.0-eksbuild.1'' = Some (1, 10, 0, 1)"
    "parse_addon_version ''v1.9.0-eksbuild.1'' = Some (1, 9, 0, 1)"
    by (simp_all add: parse_addon_version_def unwrap_or_def str_eval)
  have 1: "get_compatible_versions ?sdk ''coredns'' ''1.34'' = Ok [?new, ?old]"
    by (simp add: get_compatible_versions_def sort_by_def unwrap_or_default_def compare_addon_versions_def p ord_cmp_def)
  then have 2: "get_latest_compatible_version ?sdk ''coredns'' ''1.34'' = Ok (Some ''v1.10.0-eksbuild.1'')"
    by (simp add: get_latest_compatible_version_def pick_latest_compatible_def)
  show ?thesis using latest_compatible_version_is_newest [OF 1 _ 2] 2 p by simp
qed

text \<open>
  The comparison handed to \<^verbatim>\<open>sort_by\<close> is not a total order once a version that does not
  parse is in the list: the text fallback and the numeric comparison disagree, and three versions
  form a cycle. (\<^verbatim>\<open>sort_by\<close> may then return any order, or panic.)
\<close>

theorem compare_addon_versions_cycle:
  "compare_addon_versions ''v1.10.0'' ''v1.5x'' = Less \<and>
   compare_addon_versions ''v1.5x'' ''v1.9.0'' = Less \<and>
   compare_addon_versions ''v1.9.0'' ''v1.10.0'' = Less"
  by (simp add: compare_addon_versions_def parse_addon_version_def unwrap_or_def str_eval ord_cmp_def)

subsection \<open>Plans\<close>

lemma list_addons_no_panic [simp]: "list_addons sdk c \<noteq> Panic"
  by (auto simp: list_addons_def rbind_eq_Panic)

lemma get_latest_no_panic [simp]: "get_latest_compatible_version sdk a k \<noteq> Panic"
  by (auto simp: get_latest_compatible_version_def get_compatible_versions_def rbind_eq_Panic Let_def)

lemma plan_addon_loops_no_panic [simp]:
  "plan_addon_upgrades_loop sdk k sp as r \<noteq> Panic"
  "plan_addon_rollbacks_loop sdk k sp as r \<noteq> Panic"
  by (induction as arbitrary: r) (auto simp: rbind_eq_Panic split: option.splits)

lemma plan_addons_no_panic [simp]:
  "plan_addon_upgrades sdk c k sp \<noteq> Panic" "plan_addon_rollbacks sdk c k sp \<noteq> Panic"
  by (auto simp: plan_addon_upgrades_def plan_addon_rollbacks_def rbind_eq_Panic)

lemma poll_addon_status_no_panic [simp]: "poll_addon_status sdk c a \<noteq> Panic"
  by (auto simp: poll_addon_status_def rbind_eq_Panic)

lemma update_addon_result [simp]:
  "fst (update_addon sdk c a v) \<noteq> Panic" "snd (update_addon sdk c a v) = [UpdateAddon c a v]"
  by (auto simp: update_addon_def rbind_eq_Panic snd_iobind split: res.splits)

text \<open>
  The specification of a plan: what the target of one add-on is, and the change it calls for.
\<close>

definition addon_target :: "eks_sdk \<Rightarrow> string \<Rightarrow> (string \<rightharpoonup> string) \<Rightarrow> AddonInfo \<Rightarrow> string option" where
  "addon_target sdk k8s specified a =
     (case specified (ad_name a) of
        Some v \<Rightarrow> Some v
      | None \<Rightarrow> ok_flatten (get_latest_compatible_version sdk (ad_name a) k8s))"

definition upgrade_change :: "eks_sdk \<Rightarrow> string \<Rightarrow> (string \<rightharpoonup> string) \<Rightarrow> AddonInfo \<Rightarrow> AddonUpgrade option" where
  "upgrade_change sdk k8s specified a =
     (case addon_target sdk k8s specified a of
        Some v \<Rightarrow> if v = ad_current_version a then None else Some (a, v)
      | None \<Rightarrow> None)"

definition rollback_change :: "eks_sdk \<Rightarrow> string \<Rightarrow> (string \<rightharpoonup> string) \<Rightarrow> AddonInfo \<Rightarrow> AddonUpgrade option" where
  "rollback_change sdk k8s specified a =
     map_option (Pair a)
       (resolve_rollback_target (ad_current_version a) (specified (ad_name a))
         (if specified (ad_name a) = None then ok_flatten (get_latest_compatible_version sdk (ad_name a) k8s) else None))"

lemma plan_addon_upgrades_loop_spec:
  "plan_addon_upgrades_loop sdk k8s specified as r = Ok r' \<Longrightarrow>
     pr_upgrades r' = pr_upgrades r @ filter_map (upgrade_change sdk k8s specified) as \<and>
     length (pr_upgrades r') + pr_skipped r' = length (pr_upgrades r) + pr_skipped r + length as"
proof (induction as arbitrary: r)
  case (Cons a as)
  then obtain t where t: "(case specified (ad_name a) of Some v \<Rightarrow> Ok (Some v)
        | None \<Rightarrow> get_latest_compatible_version sdk (ad_name a) k8s) = Ok t"
    by (auto split: option.splits)
  then have T: "addon_target sdk k8s specified a = t"
    by (auto simp: addon_target_def split: option.splits)
  have "plan_addon_upgrades_loop sdk k8s specified as
      (case t of None \<Rightarrow> add_skipped r
       | Some v \<Rightarrow> if v = ad_current_version a then add_skipped r else add_upgrade r (a, v)) = Ok r'"
    using Cons.prems t by simp
  note L = this
  from Cons.IH [OF L] T show ?case
    by (auto simp: upgrade_change_def [of _ _ _ a] split: option.splits if_splits)
qed simp

lemma plan_addon_rollbacks_loop_spec:
  "plan_addon_rollbacks_loop sdk k8s specified as r = Ok r' \<Longrightarrow>
     pr_upgrades r' = pr_upgrades r @ filter_map (rollback_change sdk k8s specified) as \<and>
     length (pr_upgrades r') + pr_skipped r' = length (pr_upgrades r) + pr_skipped r + length as"
proof (induction as arbitrary: r)
  case (Cons a as)
  then obtain t where t: "(case specified (ad_name a) of Some _ \<Rightarrow> Ok None
        | None \<Rightarrow> get_latest_compatible_version sdk (ad_name a) k8s) = Ok t"
    by (auto split: option.splits)
  then have T: "rollback_change sdk k8s specified a =
      map_option (Pair a) (resolve_rollback_target (ad_current_version a) (specified (ad_name a)) t)"
    by (auto simp: rollback_change_def split: option.splits)
  have "plan_addon_rollbacks_loop sdk k8s specified as
      (case resolve_rollback_target (ad_current_version a) (specified (ad_name a)) t of
         Some v \<Rightarrow> add_upgrade r (a, v) | None \<Rightarrow> add_skipped r) = Ok r'"
    using Cons.prems t by simp
  note L = this
  from Cons.IH [OF L] T show ?case by (auto split: option.splits)
qed simp

text \<open>
  A forward add-on plan accounts for every add-on it could read exactly once: the planned
  changes are, in order, the add-ons whose target (the pinned version, else the version chosen
  from EKS) differs from the installed one, and the rest are counted as skipped.
\<close>

theorem addon_upgrade_plan_partition:
  assumes "list_addons sdk c = Ok as" and "plan_addon_upgrades sdk c k8s specified = Ok r"
  shows "pr_upgrades r = filter_map (upgrade_change sdk k8s specified) as \<and>
         length (pr_upgrades r) + pr_skipped r = length as"
  using assms plan_addon_upgrades_loop_spec [of sdk k8s specified as new_plan_result r]
  by (auto simp: plan_addon_upgrades_def)

definition two_addons_sdk :: eks_sdk where
  "two_addons_sdk = no_answer_sdk\<lparr>
     sdk_list_addons := (\<lambda>_. Inr [''coredns'', ''vpc-cni'']),
     sdk_describe_addon := (\<lambda>_ n. Inr (Some \<lparr>sa_addon_name = Some n, sa_addon_version = Some ''v1.2.0-eksbuild.1'', sa_status = Some ''ACTIVE''\<rparr>)),
     sdk_describe_addon_versions := (\<lambda>_ _. Inr [[\<lparr>sav_addon_version = Some ''v1.1.0-eksbuild.4'', sav_compat_defaults = [True]\<rparr>]])\<rparr>"

lemma two_addons_list: "list_addons two_addons_sdk ''prod'' =
    Ok [\<lparr>ad_name = ''coredns'', ad_current_version = ''v1.2.0-eksbuild.1''\<rparr>,
        \<lparr>ad_name = ''vpc-cni'', ad_current_version = ''v1.2.0-eksbuild.1''\<rparr>]"
  by (simp add: list_addons_def two_addons_sdk_def describe_addon_def unwrap_or_default_def)

lemma two_addons_latest: "get_latest_compatible_version two_addons_sdk a k = Ok (Some ''v1.1.0-eksbuild.4'')"
  by (simp add: get_latest_compatible_version_def get_compatible_versions_def two_addons_sdk_def
      sort_by_def pick_latest_compatible_def unwrap_or_default_def)

theorem addon_upgrade_plan_partition_witness:
  "plan_addon_upgrades two_addons_sdk ''prod'' ''1.34'' [''coredns'' \<mapsto> ''v1.2.0-eksbuild.1''] =
     Ok \<lparr>pr_upgrades = [(\<lparr>ad_name = ''vpc-cni'', ad_current_version = ''v1.2.0-eksbuild.1''\<rparr>, ''v1.1.0-eksbuild.4'')],
         pr_skipped = 1\<rparr> \<and> length [''vpc-cni''] + 1 = length [''coredns'', ''vpc-cni'']"
proof -
  have h: "plan_addon_upgrades two_addons_sdk ''prod'' ''1.34'' [''coredns'' \<mapsto> ''v1.2.0-eksbuild.1''] =
     Ok \<lparr>pr_upgrades = [(\<lparr>ad_name = ''vpc-cni'', ad_current_version = ''v1.2.0-eksbuild.1''\<rparr>, ''v1.1.0-eksbuild.4'')],
         pr_skipped = 1\<rparr>"
    by (simp add: plan_addon_upgrades_def two_addons_list two_addons_latest new_plan_result_def
        add_skipped_def add_upgrade_def)
  show ?thesis
    using h addon_upgrade_plan_partition [OF two_addons_list h] by simp
qed

text \<open>
  A rollback never upgrades an add-on on its own: every planned change of an add-on the
  operator's user did not pin goes to a version the comparison orders strictly below the
  installed one, and a pinned add-on is planned only towards its pin.
\<close>

theorem rollback_plan_never_upgrades_unpinned:
  assumes "plan_addon_rollbacks sdk c k8s specified = Ok r" and "(a, v) \<in> set (pr_upgrades r)"
  shows "(case specified (ad_name a) of
            None \<Rightarrow> compare_addon_versions v (ad_current_version a) = Less
          | Some pin \<Rightarrow> v = pin \<and> v \<noteq> ad_current_version a)"
proof -
  from assms(1) obtain as where "list_addons sdk c = Ok as"
    and "plan_addon_rollbacks_loop sdk k8s specified as new_plan_result = Ok r"
    by (auto simp: plan_addon_rollbacks_def)
  with assms(2) have "rollback_change sdk k8s specified a = Some (a, v)"
    using plan_addon_rollbacks_loop_spec [of sdk k8s specified as new_plan_result r]
    by (auto simp: set_filter_map rollback_change_def)
  then show ?thesis
    by (auto simp: rollback_change_def resolve_rollback_target_def split: option.splits if_splits bind_splits)
qed

theorem rollback_plan_never_upgrades_unpinned_witness:
  "compare_addon_versions ''v1.1.0-eksbuild.4'' ''v1.2.0-eksbuild.1'' = Less"
proof -
  have p: "parse_addon_version ''v1.1.0-eksbuild.4'' = Some (1, 1, 0, 4)"
    "parse_addon_version ''v1.2.0-eksbuild.1'' = Some (1, 2, 0, 1)"
    by (simp_all add: parse_addon_version_def unwrap_or_def str_eval)
  have "plan_addon_rollbacks two_addons_sdk ''prod'' ''1.33'' [''coredns'' \<mapsto> ''v1.2.0-eksbuild.1''] =
     Ok \<lparr>pr_upgrades = [(\<lparr>ad_name = ''vpc-cni'', ad_current_version = ''v1.2.0-eksbuild.1''\<rparr>, ''v1.1.0-eksbuild.4'')],
         pr_skipped = 1\<rparr>"
    by (simp add: plan_addon_rollbacks_def two_addons_list two_addons_latest new_plan_result_def
        add_skipped_def add_upgrade_def resolve_rollback_target_def compare_parseable [OF p] ord_cmp_def)
  from rollback_plan_never_upgrades_unpinned [OF this,
      of "\<lparr>ad_name = ''vpc-cni'', ad_current_version = ''v1.2.0-eksbuild.1''\<rparr>" "''v1.1.0-eksbuild.4''"]
  show ?thesis by simp
qed

text \<open>
  An installed add-on whose description request fails is dropped without an error: when EKS
  answers the listing but none of the descriptions, both planners report success with nothing to
  do and nothing skipped.
\<close>

theorem undescribable_addons_vanish_from_plan:
  assumes "sdk_list_addons sdk c = Inr names" and "\<forall>n \<in> set names. \<exists>e. sdk_describe_addon sdk c n = Inl e"
  shows "plan_addon_upgrades sdk c k8s specified = Ok new_plan_result \<and>
         plan_addon_rollbacks sdk c k8s specified = Ok new_plan_result"
proof -
  have "filter_map (\<lambda>n. ok_flatten (describe_addon sdk c n)) names = []"
    using assms(2) by (induction names) (auto simp: describe_addon_def)
  then show ?thesis
    using assms(1) by (simp add: plan_addon_upgrades_def plan_addon_rollbacks_def list_addons_def)
qed

theorem undescribable_addons_vanish_from_plan_witness:
  "plan_addon_upgrades (no_answer_sdk\<lparr>sdk_list_addons := (\<lambda>_. Inr [''coredns''])\<rparr>) ''prod'' ''1.34'' Map.empty =
     Ok new_plan_result"
proof -
  let ?sdk = "no_answer_sdk\<lparr>sdk_list_addons := (\<lambda>_. Inr [''coredns''])\<rparr>"
  have "sdk_list_addons ?sdk ''prod'' = Inr [''coredns'']" by simp
  moreover have "\<forall>n \<in> set [''coredns'']. \<exists>e. sdk_describe_addon ?sdk ''prod'' n = Inl e"
    by (simp add: no_answer_sdk_def Let_def)
  ultimately show ?thesis by (simp only: undescribable_addons_vanish_from_plan)
qed

end
