(* ===== verification/Kuo_Nodegroup.thy ===== *)
theory Kuo_Nodegroup
  imports Kuo_Addon
begin

section \<open>Managed node groups and cluster insights (eks/nodegroup.rs, eks/insights.rs)\<close>

text \<open>
  Listing and planning managed node groups, and the cluster insights the preflight phase reads:
  their tally by status and the identification of the resources they affect.
\<close>

subsection \<open>Node groups\<close>

definition nodegroup_module :: string where
  "nodegroup_module = ''kuo::eks::nodegroup''"

record NodeGroupInfo =
  ni_name :: string
  ni_version :: "string option"

definition ni_current_version :: "NodeGroupInfo \<Rightarrow> string" where
  "ni_current_version ng = unwrap_or ''unknown'' (ni_version ng)"

definition describe_nodegroup :: "eks_sdk \<Rightarrow> string \<Rightarrow> string \<Rightarrow> NodeGroupInfo option kuo_res" where
  "describe_nodegroup sdk cluster_name nodegroup_name =
     rbind (map_err (aws_err nodegroup_module) (sdk_describe_nodegroup sdk cluster_name nodegroup_name)) (\<lambda>response.
     Ok (map_option (\<lambda>ng. \<lparr>ni_name = unwrap_or_default (sn_nodegroup_name ng), ni_version = sn_version ng\<rparr>) response))"

definition list_nodegroups :: "eks_sdk \<Rightarrow> string \<Rightarrow> NodeGroupInfo list kuo_res" where
  "list_nodegroups sdk cluster_name =
     rbind (map_err (aws_err nodegroup_module) (sdk_list_nodegroups sdk cluster_name)) (\<lambda>names.
     Ok (filter_map (\<lambda>n. ok_flatten (describe_nodegroup sdk cluster_name n)) names))"

definition update_nodegroup_version :: "eks_sdk \<Rightarrow> string \<Rightarrow> string \<Rightarrow> string \<Rightarrow> string kuo_io" where
  "update_nodegroup_version sdk cluster_name nodegroup_name target_version =
     iobind (emit (UpdateNodegroupVersion cluster_name nodegroup_name target_version)) (\<lambda>_.
     iobind (lift (map_err (aws_err nodegroup_module)
               (sdk_update_nodegroup_version sdk cluster_name nodegroup_name target_version))) (\<lambda>update.
     ret (unwrap_or_default update)))"

fun plan_nodegroup_loop :: "string \<Rightarrow> NodeGroupInfo list \<Rightarrow> NodeGroupInfo PlanResult \<Rightarrow> NodeGroupInfo PlanResult" where
  "plan_nodegroup_loop target_version [] result = result"
| "plan_nodegroup_loop target_version (ng # rest) result =
     plan_nodegroup_loop target_version rest
       (if ni_version ng = Some target_version then add_skipped result else add_upgrade result ng)"

definition plan_nodegroup_upgrades :: "eks_sdk \<Rightarrow> string \<Rightarrow> string \<Rightarrow> NodeGroupInfo PlanResult kuo_res" where
  "plan_nodegroup_upgrades sdk cluster_name target_version =
     rbind (list_nodegroups sdk cluster_name) (\<lambda>nodegroups.
     Ok (plan_nodegroup_loop target_version nodegroups new_plan_result))"

definition poll_nodegroup_update :: "eks_sdk \<Rightarrow> string \<Rightarrow> string \<Rightarrow> string \<Rightarrow> string kuo_res" where
  "poll_nodegroup_update sdk cluster_name nodegroup_name update_id =
     rbind (map_err (aws_err nodegroup_module)
              (sdk_describe_update sdk cluster_name (Some nodegroup_name) update_id)) (\<lambda>status.
     Ok (unwrap_or ''Unknown'' status))"

lemma nodegroup_no_panic [simp]:
  "list_nodegroups sdk c \<noteq> Panic" "plan_nodegroup_upgrades sdk c v \<noteq> Panic"
  "poll_nodegroup_update sdk c n u \<noteq> Panic" "fst (update_nodegroup_version sdk c n v) \<noteq> Panic"
  by (auto simp: list_nodegroups_def plan_nodegroup_upgrades_def poll_nodegroup_update_def
      update_nodegroup_version_def rbind_eq_Panic)

lemma update_nodegroup_version_effects [simp]:
  "snd (update_nodegroup_version sdk c n v) = [UpdateNodegroupVersion c n v]"
  by (auto simp: update_nodegroup_version_def snd_iobind split: res.splits)

lemma plan_nodegroup_loop_spec:
  "pr_upgrades (plan_nodegroup_loop v ngs r) = pr_upgrades r @ filter (\<lambda>ng. ni_version ng \<noteq> Some v) ngs \<and>
   pr_skipped (plan_nodegroup_loop v ngs r) = pr_skipped r + length (filter (\<lambda>ng. ni_version ng = Some v) ngs)"
  by (induction ngs arbitrary: r) auto

subsection \<open>Insights\<close>

definition insights_module :: string where
  "insights_module = ''kuo::eks::insights''"

record InsightResource =
  ir_resource_type :: string
  ir_resource_id :: string

record InsightFinding =
  if_category :: string
  if_description :: string
  if_severity :: string
  if_recommendation :: "string option"
  if_resources :: "InsightResource list"

record InsightsSummary =
  is_total_findings :: nat
  is_critical_count :: nat
  is_warning_count :: nat
  is_passing_count :: nat
  is_info_count :: nat
  is_findings :: "InsightFinding list"

definition has_critical_blockers :: "InsightsSummary \<Rightarrow> bool" where
  "has_critical_blockers s \<longleftrightarrow> is_critical_count s > 0"

definition parse_insight_resource :: "string option \<Rightarrow> string option \<Rightarrow> InsightResource option" where
  "parse_insight_resource arn uri =
     (case arn of
        Some a \<Rightarrow>
          (let parts = split_on CHR ''/'' a
           in if length parts \<ge> 3
              then Some \<lparr>ir_resource_type = ''addon'', ir_resource_id = parts ! 2\<rparr>
              else Some \<lparr>ir_resource_type = ''resource'', ir_resource_id = a\<rparr>)
      | None \<Rightarrow>
          (case uri of
             Some u \<Rightarrow>
               (if u = [] then None
                else let parts = split_on CHR ''/'' u
                     in if length parts \<ge> 4
                        then Some \<lparr>ir_resource_type = parts ! 2, ir_resource_id = (parts ! 1) @ ''/'' @ (parts ! 3)\<rparr>
                        else if length parts \<ge> 2
                        then Some \<lparr>ir_resource_type = parts ! 0, ir_resource_id = parts ! 1\<rparr>
                        else Some \<lparr>ir_resource_type = ''resource'', ir_resource_id = u\<rparr>)
           | None \<Rightarrow> None))"

definition describe_insight :: "eks_sdk \<Rightarrow> string \<Rightarrow> string \<Rightarrow> InsightFinding option kuo_res" where
  "describe_insight sdk cluster_name insight_id =
     rbind (map_err (aws_err insights_module) (sdk_describe_insight sdk cluster_name insight_id)) (\<lambda>response.
     Ok (map_option (\<lambda>insight.
       \<lparr>if_category = unwrap_or_default (si_category insight),
        if_description = unwrap_or_default (si_description insight),
        if_severity = unwrap_or_default (si_status insight),
        if_recommendation = si_recommendation insight,
        if_resources = filter_map (\<lambda>(arn, uri). parse_insight_resource arn uri) (si_resources insight)\<rparr>) response))"

definition insight_status_text :: "sdk_insight_summary \<Rightarrow> string" where
  "insight_status_text i = unwrap_or ''UNKNOWN'' (sis_status i)"

definition count_insight :: "sdk_insight_summary \<Rightarrow> InsightsSummary \<Rightarrow> InsightsSummary" where
  "count_insight i s =
     (let status = insight_status_text i
      in if status = ''ERROR'' \<or> status = ''CRITICAL'' then s\<lparr>is_critical_count := is_critical_count s + 1\<rparr>
         else if status = ''WARNING'' then s\<lparr>is_warning_count := is_warning_count s + 1\<rparr>
         else if status = ''PASSING'' then s\<lparr>is_passing_count := is_passing_count s + 1\<rparr>
         else s\<lparr>is_info_count := is_info_count s + 1\<rparr>)"

definition insight_details :: "eks_sdk \<Rightarrow> string \<Rightarrow> sdk_insight_summary \<Rightarrow> InsightFinding option" where
  "insight_details sdk cluster_name i =
     Option.bind (sis_id i) (\<lambda>ident. ok_flatten (describe_insight sdk cluster_name ident))"

fun list_insights_loop :: "eks_sdk \<Rightarrow> string \<Rightarrow> sdk_insight_summary list \<Rightarrow> InsightsSummary \<Rightarrow> InsightsSummary" where
  "list_insights_loop sdk cluster_name [] s = s"
| "list_insights_loop sdk cluster_name (i # rest) s =
     list_insights_loop sdk cluster_name rest
       (let s' = count_insight i s
        in case insight_details sdk cluster_name i of
             Some finding \<Rightarrow> s'\<lparr>is_findings := is_findings s' @ [finding]\<rparr>
           | None \<Rightarrow> s')"

definition empty_insights :: InsightsSummary where
  "empty_insights = \<lparr>is_total_findings = 0, is_critical_count = 0, is_warning_count = 0,
     is_passing_count = 0, is_info_count = 0, is_findings = []\<rparr>"

definition list_insights :: "eks_sdk \<Rightarrow> string \<Rightarrow> string \<Rightarrow> InsightsSummary kuo_res" where
  "list_insights sdk cluster_name category =
     rbind (map_err (aws_err insights_module) (sdk_list_insights sdk cluster_name category)) (\<lambda>insights.
     let s = list_insights_loop sdk cluster_name insights empty_insights
     in Ok (s\<lparr>is_total_findings := length (is_findings s)\<rparr>))"

definition check_insights_readiness :: "eks_sdk \<Rightarrow> string \<Rightarrow> string \<Rightarrow> (bool \<times> InsightsSummary) kuo_res" where
  "check_insights_readiness sdk cluster_name category =
     rbind (list_insights sdk cluster_name category) (\<lambda>summary.
     Ok (\<not> has_critical_blockers summary, summary))"

lemma check_insights_no_panic [simp]: "check_insights_readiness sdk c k \<noteq> Panic"
  by (auto simp: check_insights_readiness_def list_insights_def Let_def rbind_eq_Panic)

definition is_critical_status :: "string \<Rightarrow> bool" where
  "is_critical_status s \<longleftrightarrow> s = ''ERROR'' \<or> s = ''CRITICAL''"

definition class_total :: "InsightsSummary \<Rightarrow> nat" where
  "class_total s = is_critical_count s + is_warning_count s + is_passing_count s + is_info_count s"

lemma count_insight_simps [simp]:
  "class_total (count_insight i s) = Suc (class_total s)"
  "is_critical_count (count_insight i s) =
     is_critical_count s + (if is_critical_status (insight_status_text i) then 1 else 0)"
  "is_findings (count_insight i s) = is_findings s"
  by (simp_all add: count_insight_def class_total_def is_critical_status_def Let_def)

lemma class_total_findings [simp]: "class_total (s\<lparr>is_findings := fs\<rparr>) = class_total s"
  by (simp add: class_total_def)

lemma list_insights_loop_counts:
  "is_critical_count (list_insights_loop sdk c xs s) =
     is_critical_count s + length (filter (\<lambda>i. is_critical_status (insight_status_text i)) xs)"
  "class_total (list_insights_loop sdk c xs s) = class_total s + length xs"
  "is_findings (list_insights_loop sdk c xs s) = is_findings s @ filter_map (insight_details sdk c) xs"
  by (induction xs arbitrary: s) (simp_all add: Let_def split: option.split)

text \<open>
  The insight tally is exact whatever the detail requests answer: every insight EKS lists is
  counted in exactly one of the four classes, the cluster is reported as not ready exactly when
  one of them has the status \<open>ERROR\<close> or \<open>CRITICAL\<close>, and a detail request that fails can hide a
  finding but never a blocker.
\<close>

theorem insight_tally_exact:
  assumes "sdk_list_insights sdk c category = Inr xs"
  shows "\<exists>s. check_insights_readiness sdk c category =
           Ok (\<forall>i \<in> set xs. \<not> is_critical_status (insight_status_text i), s) \<and>
         class_total s = length xs \<and>
         is_findings s = filter_map (insight_details sdk c) xs \<and> is_total_findings s = length (is_findings s)"
proof -
  let ?s = "list_insights_loop sdk c xs empty_insights"
  have "has_critical_blockers (?s\<lparr>is_total_findings := length (is_findings ?s)\<rparr>) \<longleftrightarrow>
      (\<exists>i \<in> set xs. is_critical_status (insight_status_text i))"
    by (simp add: has_critical_blockers_def list_insights_loop_counts empty_insights_def filter_empty_conv)
  then show ?thesis
    using assms list_insights_loop_counts(2,3) [of sdk c xs empty_insights]
    by (simp add: check_insights_readiness_def list_insights_def Let_def class_total_def empty_insights_def)
qed

theorem insight_tally_exact_witness:
  "\<exists>s. check_insights_readiness
      (no_answer_sdk\<lparr>sdk_list_insights := (\<lambda>_ _. Inr [\<lparr>sis_id = Some ''a'', sis_status = Some ''PASSING''\<rparr>,
         \<lparr>sis_id = Some ''b'', sis_status = Some ''ERROR''\<rparr>])\<rparr>) ''prod'' ''UPGRADE_READINESS'' = Ok (False, s)"
proof -
  let ?xs = "[\<lparr>sis_id = Some ''a'', sis_status = Some ''PASSING''\<rparr>, \<lparr>sis_id = Some ''b'', sis_status = Some ''ERROR''\<rparr>]"
  let ?sdk = "no_answer_sdk\<lparr>sdk_list_insights := (\<lambda>_ _. Inr ?xs)\<rparr>"
  have "sdk_list_insights ?sdk ''prod'' ''UPGRADE_READINESS'' = Inr ?xs" by simp
  from insight_tally_exact [OF this] show ?thesis
    by (auto simp: is_critical_status_def insight_status_text_def unwrap_or_def)
qed

end
