(* ===== verification/Kuo_Version.thy ===== *)
theory Kuo_Version
  imports Kuo_Error
begin

section \<open>Kubernetes versions and control-plane paths (eks/version.rs, k8s/node.rs)\<close>

text \<open>
  Version parsing, the forward path of single-minor steps, the single-step rollback path, and
  the staleness test on kubelet versions. Minor numbers are \<^verbatim>\<open>u32\<close>; the range
  \<^verbatim>\<open>(curr_minor + 1)..=target_minor\<close> and the test \<^verbatim>\<open>target_minor + 1 != curr_minor\<close>
  are only evaluated where the sum stays within 32 bits, which the lemmas below use.
\<close>

definition parse_k8s_version :: "string \<Rightarrow> (error, nat \<times> nat) res" where
  "parse_k8s_version version =
     (let parts = split_on CHR ''.'' version
      in if length parts < 2 then Err (Kuo (InvalidVersion version))
         else rbind (ok_or (parse_uint u32_max (parts ! 0)) (Kuo (InvalidVersion version))) (\<lambda>major.
              rbind (ok_or (parse_uint u32_max (parts ! 1)) (Kuo (InvalidVersion version))) (\<lambda>minor.
              Ok (major, minor))))"

definition format_version :: "nat \<Rightarrow> nat \<Rightarrow> string" where
  "format_version major minor = show_nat major @ ''.'' @ show_nat minor"

definition calculate_upgrade_path :: "string \<Rightarrow> string \<Rightarrow> (error, string list) res" where
  "calculate_upgrade_path current target =
     rbind (parse_k8s_version current) (\<lambda>(curr_major, curr_minor).
     rbind (parse_k8s_version target) (\<lambda>(target_major, target_minor).
       if curr_major \<noteq> target_major then
         Err (Kuo (UpgradeNotPossible ''Cross-major version upgrades are not supported''))
       else if target_minor = curr_minor then Ok []
       else if target_minor < curr_minor then
         Err (Kuo (UpgradeNotPossible
           (''Target version '' @ target @ '' is lower than current version '' @ current @
            '' (downgrade not supported)'')))
       else Ok (map (format_version curr_major) [curr_minor + 1 ..< Suc target_minor])))"

definition calculate_rollback_path :: "string \<Rightarrow> string \<Rightarrow> (error, string list) res" where
  "calculate_rollback_path current target =
     rbind (parse_k8s_version current) (\<lambda>(curr_major, curr_minor).
     rbind (parse_k8s_version target) (\<lambda>(target_major, target_minor).
       if curr_major \<noteq> target_major then
         Err (Kuo (UpgradeNotPossible ''Cross-major version rollbacks are not supported''))
       else if target_minor = curr_minor then Ok []
       else if target_minor > curr_minor then
         Err (Kuo (UpgradeNotPossible
           (''Target version '' @ target @ '' is higher than current version '' @ current @
            '' (use Forward mode to upgrade)'')))
       else if target_minor + 1 \<noteq> curr_minor then
         Err (Kuo (UpgradeNotPossible
           (''Rollback supports only a single minor version (N-1): cannot roll back from '' @
            current @ '' to '' @ target @ ''. Roll back one minor at a time.'')))
       else Ok [target]))"

definition parse_minor :: "string \<Rightarrow> nat option" where
  "parse_minor version =
     (let trimmed = dropWhile (\<lambda>c. c = CHR ''v'') (trim version)
      in case split_on CHR ''.'' trimmed of
           major # minor # rest \<Rightarrow> parse_uint u32_max (takeWhile is_ascii_digit minor)
         | _ \<Rightarrow> None)"

definition is_stale_kubelet :: "string \<Rightarrow> nat \<Rightarrow> bool" where
  "is_stale_kubelet kubelet_version target_minor \<longleftrightarrow>
     (case parse_minor kubelet_version of Some m \<Rightarrow> m < target_minor | None \<Rightarrow> False)"

subsection \<open>Parsing\<close>

lemma parse_k8s_version_no_panic [simp]: "parse_k8s_version v \<noteq> Panic"
  by (auto simp: parse_k8s_version_def Let_def rbind_eq_Panic)

lemma parse_k8s_version_bounds:
  "parse_k8s_version v = Ok (major, minor) \<Longrightarrow> major \<le> u32_max \<and> minor \<le> u32_max"
  by (auto simp: parse_k8s_version_def Let_def dest: parse_uint_le split: if_splits)

lemma parse_k8s_version_dotted:
  assumes "major \<le> u32_max" and "minor \<le> u32_max"
    and "rest = [] \<or> (\<exists>r. rest = CHR ''.'' # r)"
  shows "parse_k8s_version (show_nat major @ ''.'' @ show_nat minor @ rest) = Ok (major, minor)"
proof -
  obtain ws where "split_on CHR ''.'' (show_nat minor @ rest) = show_nat minor # ws"
    using assms(3) by (auto simp: split_on_append split_on_no_sep)
  with assms(1,2) show ?thesis
    by (simp add: parse_k8s_version_def split_on_append)
qed

lemma parse_format_version [simp]:
  "major \<le> u32_max \<Longrightarrow> minor \<le> u32_max \<Longrightarrow> parse_k8s_version (format_version major minor) = Ok (major, minor)"
  using parse_k8s_version_dotted [of major minor "[]"] by (simp add: format_version_def)

subsection \<open>Paths\<close>

lemma calculate_upgrade_path_Ok:
  "calculate_upgrade_path current target = Ok path \<longleftrightarrow>
     (\<exists>major c t. parse_k8s_version current = Ok (major, c) \<and> parse_k8s_version target = Ok (major, t)
        \<and> c \<le> t \<and> path = map (format_version major) [c + 1 ..< Suc t])"
  by (cases "parse_k8s_version current"; cases "parse_k8s_version target")
    (auto simp: calculate_upgrade_path_def simp del: upt_Suc split: prod.splits if_splits)

lemma calculate_rollback_path_Ok:
  "calculate_rollback_path current target = Ok path \<longleftrightarrow>
     (\<exists>major c t. parse_k8s_version current = Ok (major, c) \<and> parse_k8s_version target = Ok (major, t)
        \<and> (t = c \<and> path = [] \<or> t + 1 = c \<and> path = [target]))"
  by (cases "parse_k8s_version current"; cases "parse_k8s_version target")
    (auto simp: calculate_rollback_path_def split: prod.splits if_splits)

lemma path_functions_no_panic [simp]:
  "calculate_upgrade_path current target \<noteq> Panic"
  "calculate_rollback_path current target \<noteq> Panic"
  by (auto simp: calculate_upgrade_path_def calculate_rollback_path_def rbind_eq_Panic split: if_splits)

text \<open>
  A forward plan succeeds exactly when both versions parse, share the major and the target
  is not below the current minor; the path then climbs from the current version to the target
  one minor at a time: step \<open>i\<close> reads back as minor \<open>c + 1 + i\<close>, the last one is the
  target's minor, and there are exactly \<open>t - c\<close> steps.
\<close>

theorem upgrade_path_single_minor_steps:
  "((\<exists>path. calculate_upgrade_path current target = Ok path) \<longleftrightarrow>
     (\<exists>major c t. parse_k8s_version current = Ok (major, c) \<and> parse_k8s_version target = Ok (major, t) \<and> c \<le> t)) \<and>
   (\<forall>path. calculate_upgrade_path current target = Ok path \<longrightarrow>
     (\<exists>major c t. parse_k8s_version current = Ok (major, c) \<and> parse_k8s_version target = Ok (major, t) \<and>
       length path = t - c \<and> (\<forall>i < length path. parse_k8s_version (path ! i) = Ok (major, c + 1 + i))))"
proof (intro conjI allI impI)
  fix path
  assume "calculate_upgrade_path current target = Ok path"
  then obtain major c t where p: "parse_k8s_version current = Ok (major, c)"
      "parse_k8s_version target = Ok (major, t)" "c \<le> t"
      "path = map (format_version major) [c + 1 ..< Suc t]"
    by (auto simp: calculate_upgrade_path_Ok)
  have "parse_k8s_version (path ! i) = Ok (major, c + 1 + i)" if "i < length path" for i
  proof -
    from that p(4) have "path ! i = format_version major (c + 1 + i)" and "c + 1 + i \<le> t"
      by (simp_all add: nth_map_upt del: upt_Suc)
    with parse_k8s_version_bounds [OF p(2)] show ?thesis by simp
  qed
  with p show "\<exists>major c t. parse_k8s_version current = Ok (major, c) \<and> parse_k8s_version target = Ok (major, t) \<and>
       length path = t - c \<and> (\<forall>i < length path. parse_k8s_version (path ! i) = Ok (major, c + 1 + i))"
    by (auto simp del: upt_Suc)
qed (auto simp: calculate_upgrade_path_Ok simp del: upt_Suc)

theorem upgrade_path_single_minor_steps_witness:
  "calculate_upgrade_path ''1.30'' ''1.33'' = Ok [''1.31'', ''1.32'', ''1.33''] \<and>
   (\<exists>major c t. parse_k8s_version ''1.30'' = Ok (major, c) \<and> parse_k8s_version ''1.33'' = Ok (major, t) \<and>
       length [''1.31'', ''1.32'', ''1.33''] = t - c \<and>
       (\<forall>i < length [''1.31'', ''1.32'', ''1.33'']. parse_k8s_version ([''1.31'', ''1.32'', ''1.33''] ! i) = Ok (major, c + 1 + i)))"
proof -
  have h: "calculate_upgrade_path ''1.30'' ''1.33'' = Ok [''1.31'', ''1.32'', ''1.33'']"
    by (simp add: calculate_upgrade_path_def parse_k8s_version_def format_version_def str_eval)
  show ?thesis using h upgrade_path_single_minor_steps [of "''1.30''" "''1.33''"] by blast
qed

text \<open>
  Rollback inverts a forward plan of exactly one minor and nothing longer: after a
  successful one-step plan the reverse rollback is planned as the single step back to where the
  upgrade started, and after a longer plan the rollback planner refuses.
\<close>

theorem rollback_inverts_single_step_only:
  assumes "calculate_upgrade_path current target = Ok path"
  shows "(length path = 0 \<longrightarrow> calculate_rollback_path target current = Ok []) \<and>
         (length path = 1 \<longrightarrow> calculate_rollback_path target current = Ok [current]) \<and>
         (length path > 1 \<longrightarrow> (\<exists>m. calculate_rollback_path target current = Err (Kuo (UpgradeNotPossible m))))"
proof -
  from assms obtain major c t where p: "parse_k8s_version current = Ok (major, c)"
      "parse_k8s_version target = Ok (major, t)" "c \<le> t" "length path = t - c"
    by (auto simp: calculate_upgrade_path_Ok simp del: upt_Suc)
  then show ?thesis by (auto simp: calculate_rollback_path_def)
qed

theorem rollback_inverts_single_step_only_witness:
  "calculate_upgrade_path ''1.33'' ''1.34'' = Ok [''1.34''] \<and>
   calculate_rollback_path ''1.34'' ''1.33'' = Ok [''1.33'']"
proof -
  have h: "calculate_upgrade_path ''1.33'' ''1.34'' = Ok [''1.34'']"
    by (simp add: calculate_upgrade_path_def parse_k8s_version_def format_version_def str_eval)
  show ?thesis using h rollback_inverts_single_step_only [OF h] by simp
qed

subsection \<open>Kubelet staleness\<close>

lemma parse_minor_kubelet:
  assumes "minor \<le> u32_max" and "rest = [] \<or> \<not> is_ascii_digit (hd rest)"
  shows "parse_minor (''v'' @ show_nat major @ ''.'' @ show_nat minor @ rest) = Some minor"
proof -
  let ?a = "''v'' @ show_nat major @ ''.'' @ show_nat minor"
  have "\<not> is_ascii_ws (hd ?a)" "\<not> is_ascii_ws (last ?a)"
    by (simp_all add: digit_not_ws is_ascii_ws_def [of "CHR ''v''"])
  then obtain r t where r: "trim (?a @ rest) = ?a @ r" "rest = r @ t"
    using trim_prefix [of ?a rest] by auto
  have hr: "r = [] \<or> \<not> is_ascii_digit (hd r)" using assms(2) r(2) by (cases r) auto
  have "hd (show_nat major) \<noteq> CHR ''v''"
    using show_nat_hd_last(1) [of major] not_digit_consts(4) by metis
  then have dw: "dropWhile (\<lambda>c. c = CHR ''v'') (?a @ r) = show_nat major @ ''.'' @ show_nat minor @ r"
    by (cases "show_nat major") auto
  obtain w ws where w: "split_on CHR ''.'' r = w # ws" by (cases "split_on CHR ''.'' r") auto
  then obtain u where "r = w @ u" using split_on_hd_prefix by blast
  with hr have hw: "w = [] \<or> \<not> is_ascii_digit (hd w)" by (cases w) auto
  have "split_on CHR ''.'' (show_nat major @ ''.'' @ show_nat minor @ r) = show_nat major # (show_nat minor @ w) # ws"
    using split_on_glue [OF _ w, of "show_nat minor"] by (simp add: split_on_append)
  with r(1) dw hw assms(1) show ?thesis
    by (simp add: parse_minor_def takeWhile_show_nat)
qed

text \<open>
  A kubelet reporting \<open>v<major>.<minor>\<close>, with any suffix such as a patch number or an EKS
  build tag, is a replacement target exactly when its minor is below the target minor.
\<close>

theorem stale_kubelet_iff_minor_below:
  assumes "minor \<le> u32_max" and "rest = [] \<or> \<not> is_ascii_digit (hd rest)"
  shows "is_stale_kubelet (''v'' @ show_nat major @ ''.'' @ show_nat minor @ rest) target_minor \<longleftrightarrow>
         minor < target_minor"
  using parse_minor_kubelet [OF assms, of major] by (simp add: is_stale_kubelet_def)

theorem stale_kubelet_iff_minor_below_witness:
  "is_stale_kubelet (''v'' @ show_nat 1 @ ''.'' @ show_nat 33 @ ''.0-eks-abc123'') 34 \<and>
   \<not> is_stale_kubelet (''v'' @ show_nat 1 @ ''.'' @ show_nat 34 @ ''.2-eks-abc123'') 34"
  using stale_kubelet_iff_minor_below [of 33 "''.0-eks-abc123''" 1 34]
    stale_kubelet_iff_minor_below [of 34 "''.2-eks-abc123''" 1 34]
  by (simp add: u32_max_def)

end
