(* ===== verification/Kuo_Kube.thy ===== *)
theory Kuo_Kube
  imports Kuo_Nodegroup Kuo_Version
begin

section \<open>Kubernetes access (k8s/client.rs, k8s/pdb.rs, k8s/workload.rs, k8s/node.rs, k8s/karpenter.rs)\<close>

text \<open>
  The Kubernetes API server is outside the repository: a client is the record \<open>kube_api\<close> of the
  requests the operator sends, each answered by an error or by the fields the operator reads.
  The functions below are the repository's: error mapping, disruption-budget analysis, promotion
  of pods to their controllers, readiness, staleness and AMI pinning.
\<close>

datatype kube_error = KubeApiError nat string | KubeOtherError string

fun kube_error_to_string :: "kube_error \<Rightarrow> string" where
  "kube_error_to_string (KubeApiError code m) = m"
| "kube_error_to_string (KubeOtherError m) = m"

record pdb_object =
  pdb_namespace :: "string option"
  pdb_name :: "string option"
  pdb_status :: "(int \<times> int) option"  \<comment> \<open>disruptions allowed, expected pods\<close>

record owner_reference =
  or_kind :: string
  or_name :: string
  or_controller :: "bool option"

record pod_object =
  pod_namespace :: "string option"
  pod_owner_references :: "owner_reference list option"

record replicated_object =
  ro_replicas :: "int option"
  ro_status :: "(int option \<times> int option) option"  \<comment> \<open>ready replicas, observed generation\<close>
  ro_generation :: "int option"

record daemonset_object =
  ds_status :: "(int \<times> int \<times> int option) option"  \<comment> \<open>number ready, desired, observed generation\<close>
  ds_generation :: "int option"

record nodeclaim_object =
  nco_name :: "string option"
  nco_node_name :: "string option"
  nco_provider_id :: "string option"
  nco_creation_seconds :: "int option"

record ami_term =
  at_has_id :: bool
  at_alias :: "string option"

record kube_api =
  k_list_pdbs :: "kube_error + pdb_object list"
  k_list_nodepools :: "nat option \<Rightarrow> kube_error + string option list"
  k_list_nodeclaims :: "string \<Rightarrow> kube_error + nodeclaim_object list"
  k_delete_nodeclaim :: "string \<Rightarrow> kube_error + unit"
  k_get_nodeclaim :: "string \<Rightarrow> kube_error + nodeclaim_object option"
  k_get_nodepool_class :: "string \<Rightarrow> kube_error + string option"
  k_get_ec2nodeclass_terms :: "string \<Rightarrow> kube_error + ami_term list option"
  k_get_node :: "string \<Rightarrow> kube_error + string option option"  \<comment> \<open>a node, and its kubelet version\<close>
  k_list_pods :: "string \<Rightarrow> kube_error + pod_object list"
  k_get_replicaset :: "string \<Rightarrow> string \<Rightarrow> kube_error + owner_reference list option option"
  k_get_deployment :: "string \<Rightarrow> string \<Rightarrow> kube_error + replicated_object option"
  k_get_statefulset :: "string \<Rightarrow> string \<Rightarrow> kube_error + replicated_object option"
  k_get_daemonset :: "string \<Rightarrow> string \<Rightarrow> kube_error + daemonset_object option"
  k_from_timestamp :: "int \<Rightarrow> nat \<Rightarrow> timestamp option"

subsection \<open>Choosing the client\<close>

text \<open>
  \<open>connect\<close> stands for decoding the CA, obtaining a token from STS and building the client,
  which third-party crates and AWS do.
\<close>

type_synonym connector = "ClusterInfo \<Rightarrow> string \<Rightarrow> string option \<Rightarrow> error + kube_api"

definition build_kube_client :: "connector \<Rightarrow> ClusterInfo \<Rightarrow> string \<Rightarrow> string option \<Rightarrow> kube_api kuo_res" where
  "build_kube_client connect cluster_info region assume_role_arn =
     rbind (ok_or (ci_endpoint cluster_info) (Kuo (KubernetesApi ''Cluster endpoint not available''))) (\<lambda>_.
     rbind (ok_or (ci_ca_data cluster_info) (Kuo (KubernetesApi ''Cluster CA data not available''))) (\<lambda>_.
     map_err id (connect cluster_info region assume_role_arn)))"

definition resolve_client :: "kube_api \<Rightarrow> connector \<Rightarrow> EksClient \<Rightarrow> string \<Rightarrow> string option \<Rightarrow> kube_api kuo_res" where
  "resolve_client in_cluster connect eks cluster_name assume_role_arn =
     (if assume_role_arn = None then Ok in_cluster
      else rbind (describe_cluster eks cluster_name) (\<lambda>found.
           rbind (ok_or found (Kuo (ClusterNotFound cluster_name))) (\<lambda>cluster.
           build_kube_client connect cluster (ec_region eks) assume_role_arn)))"

lemma resolve_client_no_panic [simp]: "resolve_client ic con eks c arn \<noteq> Panic"
  by (auto simp: resolve_client_def build_kube_client_def rbind_eq_Panic)

subsection \<open>Disruption budgets\<close>

record PdbSummary =
  ps_total_pdbs :: nat
  ps_blocking :: "string list"

definition has_blocking_pdbs :: "PdbSummary \<Rightarrow> bool" where
  "has_blocking_pdbs s \<longleftrightarrow> ps_blocking s \<noteq> []"

definition blocking_count :: "PdbSummary \<Rightarrow> nat" where
  "blocking_count s = length (ps_blocking s)"

definition pdb_blocking_id :: "pdb_object \<Rightarrow> string option" where
  "pdb_blocking_id pdb =
     (case pdb_status pdb of
        None \<Rightarrow> None
      | Some (disruptions_allowed, expected_pods) \<Rightarrow>
          if disruptions_allowed = 0 \<and> expected_pods > 0
          then Some (unwrap_or ''default'' (pdb_namespace pdb) @ ''/'' @ unwrap_or ''unknown'' (pdb_name pdb))
          else None)"

definition check_pdbs :: "kube_api \<Rightarrow> PdbSummary kuo_res" where
  "check_pdbs client =
     rbind (map_err (\<lambda>e. Kuo (KubernetesApi (''Failed to list PDBs: '' @ kube_error_to_string e))) (k_list_pdbs client)) (\<lambda>items.
     Ok \<lparr>ps_total_pdbs = length items, ps_blocking = filter_map pdb_blocking_id items\<rparr>)"

lemma check_pdbs_no_panic [simp]: "check_pdbs client \<noteq> Panic"
  by (auto simp: check_pdbs_def rbind_eq_Panic)

subsection \<open>Workload controllers\<close>

datatype controller_ref = ControllerRef (cr_kind: string) (cr_namespace: string) (cr_name: string)

text \<open>\<^verbatim>\<open>#[derive(PartialOrd, Ord)]\<close>: lexicographic in the order of the fields.\<close>

instantiation controller_ref :: linorder
begin

definition less_eq_controller_ref :: "controller_ref \<Rightarrow> controller_ref \<Rightarrow> bool" where
  "c \<le> d \<longleftrightarrow> (cr_kind c, cr_namespace c, cr_name c) \<le> (cr_kind d, cr_namespace d, cr_name d)"

definition less_controller_ref :: "controller_ref \<Rightarrow> controller_ref \<Rightarrow> bool" where
  "c < d \<longleftrightarrow> (cr_kind c, cr_namespace c, cr_name c) < (cr_kind d, cr_namespace d, cr_name d)"

instance
  by standard
    (auto simp: less_eq_controller_ref_def less_controller_ref_def controller_ref.expand)

end

definition controller_owner :: "pod_object \<Rightarrow> controller_ref option" where
  "controller_owner pod =
     Option.bind (pod_owner_references pod) (\<lambda>refs.
     map_option (\<lambda>r. ControllerRef (or_kind r) (unwrap_or_default (pod_namespace pod)) (or_name r))
       (find (\<lambda>r. or_controller r = Some True) refs))"

definition dedup :: "controller_ref list \<Rightarrow> controller_ref list" where
  "dedup refs = sort (remdups refs)"

definition replicated_ready :: "replicated_object \<Rightarrow> bool" where
  "replicated_ready r =
     (case ro_status r of
        None \<Rightarrow> False
      | Some (ready, observed) \<Rightarrow>
          unwrap_or 0 ready \<ge> unwrap_or 1 (ro_replicas r) \<and> unwrap_or 0 observed \<ge> unwrap_or 0 (ro_generation r))"

definition deployment_ready :: "replicated_object \<Rightarrow> bool" where
  "deployment_ready = replicated_ready"

definition statefulset_ready :: "replicated_object \<Rightarrow> bool" where
  "statefulset_ready = replicated_ready"

definition daemonset_ready :: "daemonset_object \<Rightarrow> bool" where
  "daemonset_ready ds =
     (case ds_status ds of
        None \<Rightarrow> False
      | Some (number_ready, desired, observed) \<Rightarrow>
          number_ready \<ge> desired \<and> unwrap_or 0 observed \<ge> unwrap_or 0 (ds_generation ds))"

definition promote_owner :: "kube_api \<Rightarrow> controller_ref \<Rightarrow> controller_ref kuo_res" where
  "promote_owner client owner =
     (if cr_kind owner = ''ReplicaSet'' then
        rbind (map_err (\<lambda>e. Kuo (KubernetesApi (''Failed to get replicaset '' @ cr_name owner @ '': '' @ kube_error_to_string e)))
                 (k_get_replicaset client (cr_namespace owner) (cr_name owner))) (\<lambda>rs.
        Ok (case Option.bind (Option.bind rs id) (find (\<lambda>r. or_controller r = Some True)) of
              Some dep \<Rightarrow> ControllerRef (or_kind dep) (cr_namespace owner) (or_name dep)
            | None \<Rightarrow> owner))
      else Ok owner)"

fun resolve_controllers_loop :: "kube_api \<Rightarrow> pod_object list \<Rightarrow> controller_ref list kuo_res" where
  "resolve_controllers_loop client [] = Ok []"
| "resolve_controllers_loop client (pod # pods) =
     (case controller_owner pod of
        None \<Rightarrow> resolve_controllers_loop client pods
      | Some owner \<Rightarrow>
          rbind (promote_owner client owner) (\<lambda>c.
          rbind (resolve_controllers_loop client pods) (\<lambda>cs. Ok (c # cs))))"

definition resolve_controllers :: "kube_api \<Rightarrow> pod_object list \<Rightarrow> controller_ref list kuo_res" where
  "resolve_controllers client pods = rbind (resolve_controllers_loop client pods) (\<lambda>cs. Ok (dedup cs))"

definition map_get_err :: "controller_ref \<Rightarrow> kube_error \<Rightarrow> error" where
  "map_get_err c e =
     Kuo (KubernetesApi (''Failed to get '' @ cr_kind c @ '' '' @ cr_name c @ '': '' @ kube_error_to_string e))"

definition is_some_and :: "('a \<Rightarrow> bool) \<Rightarrow> 'a option \<Rightarrow> bool" where
  "is_some_and P x = (case x of Some y \<Rightarrow> P y | None \<Rightarrow> False)"

definition controller_ready :: "kube_api \<Rightarrow> controller_ref \<Rightarrow> bool kuo_res" where
  "controller_ready client c =
     (if cr_kind c = ''Deployment'' then
        rbind (map_err (map_get_err c) (k_get_deployment client (cr_namespace c) (cr_name c)))
          (\<lambda>obj. Ok (is_some_and deployment_ready obj))
      else if cr_kind c = ''StatefulSet'' then
        rbind (map_err (map_get_err c) (k_get_statefulset client (cr_namespace c) (cr_name c)))
          (\<lambda>obj. Ok (is_some_and statefulset_ready obj))
      else if cr_kind c = ''DaemonSet'' then
        rbind (map_err (map_get_err c) (k_get_daemonset client (cr_namespace c) (cr_name c)))
          (\<lambda>obj. Ok (is_some_and daemonset_ready obj))
      else Ok True)"

fun unstable_controllers :: "kube_api \<Rightarrow> controller_ref list \<Rightarrow> controller_ref list kuo_res" where
  "unstable_controllers client [] = Ok []"
| "unstable_controllers client (c # cs) =
     rbind (controller_ready client c) (\<lambda>ready.
     rbind (unstable_controllers client cs) (\<lambda>us.
     Ok (if \<not> ready then c # us else us)))"

lemma promote_owner_no_panic [simp]: "promote_owner client owner \<noteq> Panic"
  by (auto simp: promote_owner_def rbind_eq_Panic)

lemma resolve_controllers_no_panic [simp]: "resolve_controllers client pods \<noteq> Panic"
proof -
  have "resolve_controllers_loop client pods \<noteq> Panic"
    by (induction pods) (auto simp: rbind_eq_Panic split: option.splits)
  then show ?thesis by (auto simp: resolve_controllers_def rbind_eq_Panic)
qed

lemma controller_ready_no_panic [simp]: "controller_ready client c \<noteq> Panic"
  by (auto simp: controller_ready_def rbind_eq_Panic split: if_splits)

lemma unstable_controllers_no_panic [simp]: "unstable_controllers client cs \<noteq> Panic"
  by (induction cs) (auto simp: rbind_eq_Panic)

subsection \<open>Nodes\<close>

definition node_get :: "kube_api \<Rightarrow> string \<Rightarrow> string option option kuo_res" where
  "node_get client name =
     map_err (\<lambda>e. Kuo (KubernetesApi (''Failed to get node '' @ name @ '': '' @ kube_error_to_string e))) (k_get_node client name)"

definition pods_on_node :: "kube_api \<Rightarrow> string \<Rightarrow> pod_object list kuo_res" where
  "pods_on_node client node_name =
     map_err (\<lambda>e. Kuo (KubernetesApi (''Failed to list pods on node '' @ node_name @ '': '' @ kube_error_to_string e)))
       (k_list_pods client (''spec.nodeName='' @ node_name))"

lemma node_no_panic [simp]: "node_get client n \<noteq> Panic" "pods_on_node client n \<noteq> Panic"
  by (simp_all add: node_get_def pods_on_node_def)

subsection \<open>Karpenter objects\<close>

definition classify_api_error :: "string \<Rightarrow> nat option \<Rightarrow> string \<Rightarrow> kuo_error" where
  "classify_api_error context code detail =
     (if code = Some 403 then KubernetesForbidden (context @ '' ('' @ detail @ '')'')
      else KubernetesApi (context @ '': '' @ detail))"

definition to_kuo_err :: "string \<Rightarrow> kube_error \<Rightarrow> error" where
  "to_kuo_err context e =
     Kuo (classify_api_error context (case e of KubeApiError code m \<Rightarrow> Some code | KubeOtherError m \<Rightarrow> None)
            (kube_error_to_string e))"

record NodeClaimInfo =
  nc_name :: string
  nc_node_name :: "string option"
  nc_provider_id :: "string option"
  nc_created_at :: "timestamp option"

definition nodeclaim_info :: "kube_api \<Rightarrow> nodeclaim_object \<Rightarrow> NodeClaimInfo" where
  "nodeclaim_info client obj =
     \<lparr>nc_name = unwrap_or_default (nco_name obj), nc_node_name = nco_node_name obj,
      nc_provider_id = nco_provider_id obj,
      nc_created_at = Option.bind (nco_creation_seconds obj) (\<lambda>s. k_from_timestamp client s 0)\<rparr>"

definition v1_available :: "kube_api \<Rightarrow> bool kuo_res" where
  "v1_available client =
     (case k_list_nodepools client (Some 1) of
        Inr _ \<Rightarrow> Ok True
      | Inl (KubeApiError code m) \<Rightarrow>
          if code = 404 then Ok False
          else Err (Kuo (KubernetesApi (''Failed to probe Karpenter v1 API: '' @ m)))
      | Inl (KubeOtherError m) \<Rightarrow> Err (Kuo (KubernetesApi (''Failed to probe Karpenter v1 API: '' @ m))))"

definition list_nodepool_names :: "kube_api \<Rightarrow> string list kuo_res" where
  "list_nodepool_names client =
     rbind (map_err (to_kuo_err ''Failed to list NodePools'') (k_list_nodepools client None)) (\<lambda>items.
     Ok (filter_map id items))"

definition NODEPOOL_LABEL :: string where
  "NODEPOOL_LABEL = ''karpenter.sh/nodepool''"

definition list_nodeclaims :: "kube_api \<Rightarrow> string \<Rightarrow> NodeClaimInfo list kuo_res" where
  "list_nodeclaims client nodepool =
     rbind (map_err (to_kuo_err (''Failed to list NodeClaims for '' @ nodepool))
              (k_list_nodeclaims client (NODEPOOL_LABEL @ ''='' @ nodepool))) (\<lambda>items.
     Ok (map (nodeclaim_info client) items))"

definition delete_nodeclaim :: "kube_api \<Rightarrow> string \<Rightarrow> unit kuo_io" where
  "delete_nodeclaim client name =
     iobind (emit (DeleteNodeClaim name)) (\<lambda>_.
     lift (map_err (to_kuo_err (''Failed to delete NodeClaim '' @ name)) (k_delete_nodeclaim client name)))"

definition nodeclaim_exists :: "kube_api \<Rightarrow> string \<Rightarrow> bool kuo_res" where
  "nodeclaim_exists client name =
     rbind (map_err (to_kuo_err (''Failed to get NodeClaim '' @ name)) (k_get_nodeclaim client name)) (\<lambda>got.
     Ok (got \<noteq> None))"

definition nodepool_ami_terms :: "kube_api \<Rightarrow> string \<Rightarrow> ami_term list kuo_res" where
  "nodepool_ami_terms client nodepool =
     rbind (map_err (to_kuo_err (''Failed to get NodePool '' @ nodepool)) (k_get_nodepool_class client nodepool)) (\<lambda>cls.
     rbind (ok_or cls (Kuo (KubernetesApi (''NodePool '' @ nodepool @ '' has no nodeClassRef.name'')))) (\<lambda>class_name.
     rbind (map_err (to_kuo_err (''Failed to get EC2NodeClass '' @ class_name)) (k_get_ec2nodeclass_terms client class_name)) (\<lambda>terms.
     Ok (unwrap_or [] terms))))"

definition is_pinned_ami :: "ami_term list \<Rightarrow> bool" where
  "is_pinned_ami terms =
     list_ex (\<lambda>t. at_has_id t \<or> (case at_alias t of None \<Rightarrow> True | Some alias \<Rightarrow> \<not> ends_with ''@latest'' alias)) terms"

lemma karpenter_no_panic [simp]:
  "v1_available client \<noteq> Panic" "list_nodepool_names client \<noteq> Panic" "list_nodeclaims client p \<noteq> Panic"
  "fst (delete_nodeclaim client n) \<noteq> Panic" "nodeclaim_exists client n \<noteq> Panic" "nodepool_ami_terms client p \<noteq> Panic"
  by (auto simp: v1_available_def list_nodepool_names_def list_nodeclaims_def delete_nodeclaim_def
      nodeclaim_exists_def nodepool_ami_terms_def rbind_eq_Panic split: sum.splits kube_error.splits)

lemma delete_nodeclaim_effects [simp]: "snd (delete_nodeclaim client n) = [DeleteNodeClaim n]"
  by (simp add: delete_nodeclaim_def snd_iobind)

end
