(* ===== verification/Kuo_Status.thy ===== *)
theory Kuo_Status
  imports Kuo_Types
begin

section \<open>Status helpers and phase routing (status.rs, phases/transition.rs)\<close>

text \<open>
  The helpers every phase handler edits the status with, the progress ratio, and the pure
  functions that decide which phase comes next. The clock is an argument.
\<close>

subsection \<open>Editing a status\<close>

definition set_phase :: "timestamp \<Rightarrow> UpgradePhase \<Rightarrow> EKSUpgradeStatus \<Rightarrow> EKSUpgradeStatus" where
  "set_phase now phase s =
     (let s1 = (if phase = Completed then s\<lparr>st_completed_at := Some now\<rparr> else s)
      in s1\<lparr>st_phase := Some phase\<rparr>)"

definition set_condition ::
    "timestamp \<Rightarrow> string \<Rightarrow> string \<Rightarrow> string \<Rightarrow> string option \<Rightarrow> EKSUpgradeStatus \<Rightarrow> EKSUpgradeStatus" where
  "set_condition now condition_type condition_status reason message s =
     s\<lparr>st_conditions := filter (\<lambda>c. uc_type c \<noteq> condition_type) (st_conditions s) @
         [\<lparr>uc_type = condition_type, uc_status = condition_status, uc_reason = reason,
           uc_message = message, uc_last_transition_time = now\<rparr>]\<rparr>"

definition set_failed :: "timestamp \<Rightarrow> string \<Rightarrow> EKSUpgradeStatus \<Rightarrow> EKSUpgradeStatus" where
  "set_failed now message s =
     set_condition now ''Ready'' ''False'' ''UpgradeFailed'' (Some message)
       (s\<lparr>st_phase := Some Failed, st_completed_at := Some now, st_message := Some message\<rparr>)"

fun is_done :: "ComponentStatus \<Rightarrow> bool" where
  "is_done CCompleted = True"
| "is_done CSkipped = True"
| "is_done _ = False"

definition progress_total :: "EKSUpgradeStatus \<Rightarrow> nat" where
  "progress_total s =
     (case ph_control_plane (st_phases s) of None \<Rightarrow> 0 | Some c \<Rightarrow> cp_total_steps c)
     + length (ph_addons (st_phases s)) + length (ph_nodegroups (st_phases s))
     + (case ph_karpenter_node_pools (st_phases s) of None \<Rightarrow> 0 | Some k \<Rightarrow> length (ks_pools k))"

definition progress_done :: "EKSUpgradeStatus \<Rightarrow> nat" where
  "progress_done s =
     (case ph_control_plane (st_phases s) of
        None \<Rightarrow> 0
      | Some c \<Rightarrow> if cp_completed_at c \<noteq> None then cp_total_steps c else cp_current_step c - 1)
     + length (filter (\<lambda>a. is_done (as_status a)) (ph_addons (st_phases s)))
     + length (filter (\<lambda>n. is_done (ng_status n)) (ph_nodegroups (st_phases s)))
     + (case ph_karpenter_node_pools (st_phases s) of
          None \<Rightarrow> 0
        | Some k \<Rightarrow> length (filter (\<lambda>p. is_done (kp_status p)) (ks_pools k)))"

definition compute_progress :: "EKSUpgradeStatus \<Rightarrow> string option" where
  "compute_progress s =
     (let total = progress_total s
      in if total = 0 then None
         else if st_phase s = Some Completed then Some (show_nat total @ ''/'' @ show_nat total)
         else Some (show_nat (progress_done s) @ ''/'' @ show_nat total))"

subsection \<open>Routing\<close>

fun is_consecutive_rollback :: "UpgradeMode \<Rightarrow> TransitionRecord option \<Rightarrow> bool" where
  "is_consecutive_rollback mode last_transition =
     (mode = Rollback \<and> (case last_transition of Some t \<Rightarrow> tr_mode t = Rollback | None \<Rightarrow> False))"

definition has_cp_steps :: "EKSUpgradeStatus \<Rightarrow> bool" where
  "has_cp_steps s = (case ph_planning (st_phases s) of Some p \<Rightarrow> pl_upgrade_path p \<noteq> [] | None \<Rightarrow> False)"

definition has_addons :: "EKSUpgradeStatus \<Rightarrow> bool" where
  "has_addons s \<longleftrightarrow> ph_addons (st_phases s) \<noteq> []"

definition has_nodegroups :: "EKSUpgradeStatus \<Rightarrow> bool" where
  "has_nodegroups s \<longleftrightarrow> ph_nodegroups (st_phases s) \<noteq> []"

definition has_karpenter :: "EKSUpgradeStatus \<Rightarrow> bool" where
  "has_karpenter s = (case ph_karpenter_node_pools (st_phases s) of Some k \<Rightarrow> ks_pools k \<noteq> [] | None \<Rightarrow> False)"

fun after_preflight :: "EKSUpgradeStatus \<Rightarrow> UpgradeMode \<Rightarrow> UpgradePhase" where
  "after_preflight s Forward =
     (if has_cp_steps s then UpgradingControlPlane
      else if has_addons s then UpgradingAddons
      else if has_nodegroups s then UpgradingNodeGroups
      else if has_karpenter s then UpgradingKarpenterNodePools
      else Completed)"
| "after_preflight s Rollback =
     (if has_nodegroups s then RollingBackNodeGroups
      else if has_addons s then RollingBackAddons
      else if has_cp_steps s then RollingBackControlPlane
      else Completed)"

fun after_control_plane :: "EKSUpgradeStatus \<Rightarrow> UpgradeMode \<Rightarrow> UpgradePhase" where
  "after_control_plane s Forward =
     (if has_addons s then UpgradingAddons
      else if has_nodegroups s then UpgradingNodeGroups
      else if has_karpenter s then UpgradingKarpenterNodePools
      else Completed)"
| "after_control_plane s Rollback = Completed"

fun after_addons :: "EKSUpgradeStatus \<Rightarrow> UpgradeMode \<Rightarrow> UpgradePhase" where
  "after_addons s Forward =
     (if has_nodegroups s then UpgradingNodeGroups
      else if has_karpenter s then UpgradingKarpenterNodePools
      else Completed)"
| "after_addons s Rollback = (if has_cp_steps s then RollingBackControlPlane else Completed)"

fun after_nodegroups :: "EKSUpgradeStatus \<Rightarrow> UpgradeMode \<Rightarrow> UpgradePhase" where
  "after_nodegroups s Forward = (if has_karpenter s then UpgradingKarpenterNodePools else Completed)"
| "after_nodegroups s Rollback =
     (if has_addons s then RollingBackAddons
      else if has_cp_steps s then RollingBackControlPlane
      else Completed)"

definition after_karpenter :: "EKSUpgradeStatus \<Rightarrow> UpgradeMode \<Rightarrow> UpgradePhase" where
  "after_karpenter s mode = Completed"

definition transition_to :: "timestamp \<Rightarrow> UpgradePhase \<Rightarrow> EKSUpgradeStatus \<Rightarrow> EKSUpgradeStatus" where
  "transition_to now nxt s =
     (let s1 = set_phase now nxt s
      in if nxt = Completed then set_condition now ''Ready'' ''True'' ''UpgradeCompleted'' None s1 else s1)"

subsection \<open>What the helpers keep\<close>

lemma set_phase_sel [simp]:
  "st_phase (set_phase now p s) = Some p"
  "st_phases (set_phase now p s) = st_phases s"
  "st_current_version (set_phase now p s) = st_current_version s"
  "st_conditions (set_phase now p s) = st_conditions s"
  "st_observed_generation (set_phase now p s) = st_observed_generation s"
  "st_message (set_phase now p s) = st_message s"
  "st_identity (set_phase now p s) = st_identity s"
  "st_lifecycle (set_phase now p s) = st_lifecycle s"
  "st_started_at (set_phase now p s) = st_started_at s"
  "st_last_transition (set_phase now p s) = st_last_transition s"
  "st_completed_at (set_phase now p s) = (if p = Completed then Some now else st_completed_at s)"
  by (simp_all add: set_phase_def Let_def)

lemma set_condition_sel [simp]:
  "st_phase (set_condition now t st r m s) = st_phase s"
  "st_phases (set_condition now t st r m s) = st_phases s"
  "st_current_version (set_condition now t st r m s) = st_current_version s"
  "st_observed_generation (set_condition now t st r m s) = st_observed_generation s"
  "st_message (set_condition now t st r m s) = st_message s"
  "st_identity (set_condition now t st r m s) = st_identity s"
  "st_lifecycle (set_condition now t st r m s) = st_lifecycle s"
  "st_started_at (set_condition now t st r m s) = st_started_at s"
  "st_last_transition (set_condition now t st r m s) = st_last_transition s"
  "st_completed_at (set_condition now t st r m s) = st_completed_at s"
  by (simp_all add: set_condition_def)

lemma set_failed_sel [simp]:
  "st_phase (set_failed now m s) = Some Failed"
  "st_phases (set_failed now m s) = st_phases s"
  "st_current_version (set_failed now m s) = st_current_version s"
  "st_observed_generation (set_failed now m s) = st_observed_generation s"
  "st_message (set_failed now m s) = Some m"
  "st_identity (set_failed now m s) = st_identity s"
  "st_last_transition (set_failed now m s) = st_last_transition s"
  "st_completed_at (set_failed now m s) = Some now"
  by (simp_all add: set_failed_def)

lemma transition_to_sel [simp]:
  "st_phase (transition_to now p s) = Some p"
  "st_phases (transition_to now p s) = st_phases s"
  "st_current_version (transition_to now p s) = st_current_version s"
  "st_observed_generation (transition_to now p s) = st_observed_generation s"
  "st_message (transition_to now p s) = st_message s"
  "st_identity (transition_to now p s) = st_identity s"
  "st_last_transition (transition_to now p s) = st_last_transition s"
  by (simp_all add: transition_to_def Let_def)

lemma has_work_cong [simp]:
  "has_cp_steps (transition_to now p s) = has_cp_steps s"
  "has_addons (transition_to now p s) = has_addons s"
  "has_nodegroups (transition_to now p s) = has_nodegroups s"
  "has_karpenter (transition_to now p s) = has_karpenter s"
  by (simp_all add: has_cp_steps_def has_addons_def has_nodegroups_def has_karpenter_def)

subsection \<open>Conditions\<close>

definition condition_types_distinct :: "EKSUpgradeStatus \<Rightarrow> bool" where
  "condition_types_distinct s \<longleftrightarrow> distinct (map uc_type (st_conditions s))"

definition get_condition :: "string \<Rightarrow> EKSUpgradeStatus \<Rightarrow> UpgradeCondition option" where
  "get_condition t s = find (\<lambda>c. uc_type c = t) (st_conditions s)"

lemma find_filter_other: "t' \<noteq> t \<Longrightarrow> find (\<lambda>c. uc_type c = t') (filter (\<lambda>c. uc_type c \<noteq> t) cs) = find (\<lambda>c. uc_type c = t') cs"
  by (induction cs) auto

lemma find_append: "find P (xs @ ys) = (case find P xs of Some x \<Rightarrow> Some x | None \<Rightarrow> find P ys)"
  by (induction xs) auto

lemma get_condition_set_same [simp]:
  "get_condition t (set_condition now t st r m s) =
     Some \<lparr>uc_type = t, uc_status = st, uc_reason = r, uc_message = m, uc_last_transition_time = now\<rparr>"
proof -
  have "find (\<lambda>c. uc_type c = t) (filter (\<lambda>c. uc_type c \<noteq> t) (st_conditions s)) = None"
    by (simp add: find_None_iff)
  then show ?thesis by (simp add: get_condition_def set_condition_def find_append)
qed

text \<open>
  Setting a condition behaves as an update of a map keyed by condition type: no type occurs
  twice if none did before, reading the type back gives the condition just set, and every other
  type reads as before.
\<close>

theorem set_condition_is_map_update:
  assumes "condition_types_distinct s"
  shows "condition_types_distinct (set_condition now t st r m s) \<and>
         get_condition t (set_condition now t st r m s) =
           Some \<lparr>uc_type = t, uc_status = st, uc_reason = r, uc_message = m, uc_last_transition_time = now\<rparr> \<and>
         (\<forall>t'. t' \<noteq> t \<longrightarrow> get_condition t' (set_condition now t st r m s) = get_condition t' s)"
proof -
  have "find (\<lambda>c. uc_type c = t) (filter (\<lambda>c. uc_type c \<noteq> t) (st_conditions s)) = None"
    by (simp add: find_None_iff)
  moreover have "distinct (map uc_type (filter (\<lambda>c. uc_type c \<noteq> t) (st_conditions s)))"
    using assms by (simp add: condition_types_distinct_def distinct_map_filter)
  ultimately show ?thesis
    by (auto simp: condition_types_distinct_def get_condition_def set_condition_def find_append
        find_filter_other split: option.splits)
qed

theorem set_condition_is_map_update_witness:
  "get_condition ''Ready'' (set_condition 7 ''Ready'' ''True'' ''UpgradeCompleted'' None default_status) =
     Some \<lparr>uc_type = ''Ready'', uc_status = ''True'', uc_reason = ''UpgradeCompleted'', uc_message = None, uc_last_transition_time = 7\<rparr>"
  using set_condition_is_map_update [of default_status 7 "''Ready''" "''True''" "''UpgradeCompleted''" None]
  by (simp add: condition_types_distinct_def default_status_def)

subsection \<open>Routing against its specification\<close>

text \<open>
  The specification: each mode has an order of work phases, and the next phase is the first one
  behind the current phase that has planned work, or \<open>Completed\<close>.
\<close>

fun work_order :: "UpgradeMode \<Rightarrow> UpgradePhase list" where
  "work_order Forward = [UpgradingControlPlane, UpgradingAddons, UpgradingNodeGroups, UpgradingKarpenterNodePools]"
| "work_order Rollback = [RollingBackNodeGroups, RollingBackAddons, RollingBackControlPlane]"

fun has_work :: "EKSUpgradeStatus \<Rightarrow> UpgradePhase \<Rightarrow> bool" where
  "has_work s UpgradingControlPlane = has_cp_steps s"
| "has_work s RollingBackControlPlane = has_cp_steps s"
| "has_work s UpgradingAddons = has_addons s"
| "has_work s RollingBackAddons = has_addons s"
| "has_work s UpgradingNodeGroups = has_nodegroups s"
| "has_work s RollingBackNodeGroups = has_nodegroups s"
| "has_work s UpgradingKarpenterNodePools = has_karpenter s"
| "has_work s _ = False"

definition first_with_work :: "EKSUpgradeStatus \<Rightarrow> UpgradePhase list \<Rightarrow> UpgradePhase" where
  "first_with_work s ps = (case find (has_work s) ps of Some p \<Rightarrow> p | None \<Rightarrow> Completed)"

definition behind :: "UpgradeMode \<Rightarrow> UpgradePhase \<Rightarrow> UpgradePhase list" where
  "behind mode p = tl (dropWhile (\<lambda>q. q \<noteq> p) (work_order mode))"

text \<open>The routing function the code applies when the work of a phase is done.\<close>

fun route :: "UpgradePhase \<Rightarrow> EKSUpgradeStatus \<Rightarrow> UpgradeMode \<Rightarrow> UpgradePhase" where
  "route PreflightChecking = after_preflight"
| "route UpgradingControlPlane = after_control_plane"
| "route RollingBackControlPlane = after_control_plane"
| "route UpgradingAddons = after_addons"
| "route RollingBackAddons = after_addons"
| "route UpgradingNodeGroups = after_nodegroups"
| "route RollingBackNodeGroups = after_nodegroups"
| "route UpgradingKarpenterNodePools = after_karpenter"
| "route p = (\<lambda>s m. p)"

text \<open>
  C21. The hand-written routing tables implement the documented orders (forward: control plane,
  add-ons, node groups, Karpenter pools; rollback: node groups, add-ons, control plane): after
  preflight and after every work phase of the mode, the next phase is the first later one with
  planned work, so no phase with work is skipped, none without work is entered, and the order is
  never reversed.
\<close>

theorem routing_follows_documented_order:
  "after_preflight s mode = first_with_work s (work_order mode) \<and>
   (\<forall>p \<in> set (work_order mode). route p s mode = first_with_work s (behind mode p))"
  by (cases mode)
    (simp_all add: first_with_work_def behind_def after_karpenter_def)

theorem routing_follows_documented_order_witness:
  "route UpgradingAddons (upd_phases (\<lambda>p. p\<lparr>ph_nodegroups := [\<lparr>ng_name = ''a'', ng_current_version = ''1.33'',
      ng_target_version = ''1.34'', ng_status = CPending, ng_update_id = None, ng_started_at = None, ng_completed_at = None\<rparr>]\<rparr>) default_status) Forward
   = UpgradingNodeGroups"
  using routing_follows_documented_order [of "upd_phases (\<lambda>p. p\<lparr>ph_nodegroups := [\<lparr>ng_name = ''a'', ng_current_version = ''1.33'',
      ng_target_version = ''1.34'', ng_status = CPending, ng_update_id = None, ng_started_at = None, ng_completed_at = None\<rparr>]\<rparr>) default_status" Forward]
  by (simp add: first_with_work_def behind_def has_nodegroups_def)

lemma find_mem: "find P xs = Some x \<Longrightarrow> x \<in> set xs \<and> P x"
  by (induction xs) (auto split: if_splits)

lemma route_has_work:
  assumes "p = PreflightChecking \<or> p \<in> set (work_order mode)"
  shows "route p s mode = Completed \<or> route p s mode \<in> set (work_order mode) \<and> has_work s (route p s mode)"
  using assms by (cases mode) (auto simp: after_karpenter_def split: if_splits)

end
