(* ===== verification/Kuo_World.thy ===== *)
theory Kuo_World
  imports Kuo_Kube Kuo_Status
begin

section \<open>The world a reconcile sees, and the contract of a work phase\<close>

text \<open>
  \<open>world\<close> is what one reconcile reads from outside: AWS, the operator's own Kubernetes API
  server, the connection to a remote one, and the clock (one reading per reconcile; the code
  reads it several times within one). \<open>work_phase\<close> is the contract the controller relies on of
  the four work-phase handlers: where they may send the resource next and what of the plan they
  must leave alone. Each handler's theory interprets it on its own definitions.
\<close>

record world =
  w_sdk :: eks_sdk
  w_in_cluster :: kube_api
  w_connect :: connector
  w_now :: timestamp

definition eks_client :: "world \<Rightarrow> EKSUpgradeSpec \<Rightarrow> EksClient" where
  "eks_client w spec = \<lparr>ec_client = w_sdk w, ec_region = sp_region spec\<rparr>"

definition target_client :: "world \<Rightarrow> EKSUpgradeSpec \<Rightarrow> kube_api kuo_res" where
  "target_client w spec =
     resolve_client (w_in_cluster w) (w_connect w) (eks_client w spec) (sp_cluster_name spec) (sp_assume_role_arn spec)"

type_synonym requeue = "nat option"  \<comment> \<open>milliseconds\<close>
type_synonym phase_step = "world \<Rightarrow> EKSUpgradeSpec \<Rightarrow> EKSUpgradeStatus \<Rightarrow> (EKSUpgradeStatus \<times> requeue) kuo_io"

text \<open>The same handler on a sequence of reconciles, one world each.\<close>

fun run_handler :: "phase_step \<Rightarrow> EKSUpgradeSpec \<Rightarrow> world list \<Rightarrow> EKSUpgradeStatus \<Rightarrow> EKSUpgradeStatus kuo_io" where
  "run_handler exec spec [] s = ret s"
| "run_handler exec spec (w # ws) s = iobind (exec w spec s) (\<lambda>(s', _). run_handler exec spec ws s')"

lemma run_handler_append:
  "run_handler exec spec (xs @ ys) s = iobind (run_handler exec spec xs s) (run_handler exec spec ys)"
proof (induction xs arbitrary: s)
  case (Cons w xs)
  then show ?case by (cases "exec w spec s"; cases "fst (exec w spec s)") (auto simp: iobind_def split: res.splits)
qed simp

lemma target_client_no_panic [simp]: "target_client w spec \<noteq> Panic"
  by (simp add: target_client_def)

subsection \<open>The plan a work phase must not touch\<close>

definition pool_names :: "KarpenterNodePoolsStatus option \<Rightarrow> string list" where
  "pool_names k = (case k of None \<Rightarrow> [] | Some ks \<Rightarrow> map kp_name (ks_pools ks))"

definition same_plan :: "EKSUpgradeStatus \<Rightarrow> EKSUpgradeStatus \<Rightarrow> bool" where
  "same_plan s s' \<longleftrightarrow>
     ph_planning (st_phases s') = ph_planning (st_phases s) \<and>
     map_option cp_total_steps (ph_control_plane (st_phases s')) = map_option cp_total_steps (ph_control_plane (st_phases s)) \<and>
     map (\<lambda>a. (as_name a, as_target_version a)) (ph_addons (st_phases s')) = map (\<lambda>a. (as_name a, as_target_version a)) (ph_addons (st_phases s)) \<and>
     map (\<lambda>n. (ng_name n, ng_target_version n)) (ph_nodegroups (st_phases s')) = map (\<lambda>n. (ng_name n, ng_target_version n)) (ph_nodegroups (st_phases s)) \<and>
     pool_names (ph_karpenter_node_pools (st_phases s')) = pool_names (ph_karpenter_node_pools (st_phases s)) \<and>
     st_last_transition s' = st_last_transition s \<and> st_identity s' = st_identity s \<and>
     st_observed_generation s' = st_observed_generation s"

lemma same_plan_refl [simp]: "same_plan s s"
  by (simp add: same_plan_def)

lemma same_plan_trans [trans]: "same_plan s t \<Longrightarrow> same_plan t u \<Longrightarrow> same_plan s u"
  by (simp add: same_plan_def)

lemma map_eq_map_Nil_iff: "map f xs = map g ys \<Longrightarrow> xs = [] \<longleftrightarrow> ys = []"
  by auto

lemma same_plan_has_work:
  assumes "same_plan s s'"
  shows "has_cp_steps s' = has_cp_steps s" "has_addons s' = has_addons s"
    "has_nodegroups s' = has_nodegroups s" "has_karpenter s' = has_karpenter s"
proof -
  show "has_cp_steps s' = has_cp_steps s" using assms by (simp add: same_plan_def has_cp_steps_def)
  show "has_addons s' = has_addons s" using assms map_eq_map_Nil_iff unfolding same_plan_def has_addons_def by blast
  show "has_nodegroups s' = has_nodegroups s"
    using assms map_eq_map_Nil_iff unfolding same_plan_def has_nodegroups_def by blast
  have "has_karpenter t \<longleftrightarrow> pool_names (ph_karpenter_node_pools (st_phases t)) \<noteq> []" for t
    by (simp add: has_karpenter_def pool_names_def split: option.splits)
  then show "has_karpenter s' = has_karpenter s" using assms by (simp add: same_plan_def)
qed

lemma same_plan_route:
  assumes "same_plan s s'"
  shows "route p s' mode = route p s mode"
  by (cases mode; cases p) (simp_all add: same_plan_has_work [OF assms] after_karpenter_def)

lemma same_plan_helpers [simp]:
  "same_plan s (transition_to now p s') = same_plan s s'"
  "same_plan s (set_failed now m s') = same_plan s s'"
  "same_plan s (set_condition now t st r mo s') = same_plan s s'"
  "same_plan s (set_phase now p s') = same_plan s s'"
  by (simp_all add: same_plan_def)

lemma map_list_update_same:
  assumes "i < length xs" and "f y = f (xs ! i)"
  shows "map f (xs[i := y]) = map f xs"
  using assms by (simp add: map_update list_update_same_conv)

subsection \<open>The contract\<close>

definition handler_next :: "(EKSUpgradeStatus \<Rightarrow> UpgradeMode \<Rightarrow> UpgradePhase) \<Rightarrow> EKSUpgradeSpec \<Rightarrow>
    EKSUpgradeStatus \<Rightarrow> EKSUpgradeStatus \<Rightarrow> bool" where
  "handler_next after spec s s' \<longleftrightarrow>
     st_phase s' = st_phase s \<or> st_phase s' = Some Failed \<or> st_phase s' = Some (after s (sp_upgrade_mode spec))"

locale work_phase =
  fixes exec :: phase_step
    and after :: "EKSUpgradeStatus \<Rightarrow> UpgradeMode \<Rightarrow> UpgradePhase"
    and owns :: "effect \<Rightarrow> bool"
  assumes exec_same_plan: "fst (exec w spec s) = Ok (s', r) \<Longrightarrow> same_plan s s'"
    and exec_next: "fst (exec w spec s) = Ok (s', r) \<Longrightarrow> handler_next after spec s s'"
    and exec_effects: "f \<in> set (snd (exec w spec s)) \<Longrightarrow> owns f"
begin

text \<open>The handler alone can only finish a run by routing it there.\<close>

lemma exec_completes_by_routing:
  assumes "fst (exec w spec s) = Ok (s', r)" and "st_phase s' = Some Completed" and "st_phase s \<noteq> Some Completed"
  shows "after s (sp_upgrade_mode spec) = Completed"
  using exec_next [OF assms(1)] assms(2,3) by (auto simp: handler_next_def)

lemma exec_keeps_work:
  assumes "fst (exec w spec s) = Ok (s', r)"
  shows "has_work s' p = has_work s p"
  using same_plan_has_work [OF exec_same_plan [OF assms]] by (cases p) simp_all

end

subsection \<open>A concrete environment\<close>

text \<open>An API server on which nothing is installed, and a spec; the concrete examples start from them.\<close>

definition silent_kube :: kube_api where
  "silent_kube =
     \<lparr>k_list_pdbs = Inr [], k_list_nodepools = (\<lambda>_. Inr []), k_list_nodeclaims = (\<lambda>_. Inr []),
      k_delete_nodeclaim = (\<lambda>_. Inr ()), k_get_nodeclaim = (\<lambda>_. Inr None), k_get_nodepool_class = (\<lambda>_. Inr None),
      k_get_ec2nodeclass_terms = (\<lambda>_. Inr None), k_get_node = (\<lambda>_. Inr None), k_list_pods = (\<lambda>_. Inr []),
      k_get_replicaset = (\<lambda>_ _. Inr None), k_get_deployment = (\<lambda>_ _. Inr None),
      k_get_statefulset = (\<lambda>_ _. Inr None), k_get_daemonset = (\<lambda>_ _. Inr None),
      k_from_timestamp = (\<lambda>s n. Some (s * 1000000000 + int n))\<rparr>"

definition world_at :: "eks_sdk \<Rightarrow> timestamp \<Rightarrow> world" where
  "world_at sdk now = \<lparr>w_sdk = sdk, w_in_cluster = silent_kube, w_connect = (\<lambda>_ _ _. Inr silent_kube), w_now = now\<rparr>"

definition demo_spec :: EKSUpgradeSpec where
  "demo_spec = \<lparr>sp_cluster_name = ''prod'', sp_target_version = ''1.34'', sp_region = ''eu-west-1'',
     sp_upgrade_mode = Forward, sp_assume_role_arn = None, sp_addon_versions = None, sp_dry_run = False,
     sp_timeouts = None, sp_notification = None, sp_karpenter_node_pools = None\<rparr>"

end
