(* ===== verification/Kuo_Karpenter.thy ===== *)
theory Kuo_Karpenter
  imports Kuo_World
begin

section \<open>Karpenter node replacement phase (phases/karpenter.rs)\<close>

text \<open>
  One step of node replacement per reconcile. A pool without a batch in flight computes its
  stale node claims and deletes up to the configured number of them; a pool with a batch
  observes every entry and completes, keeps or fails it. An error in the middle of a step
  discards the edited pool, as the \<^verbatim>\<open>?\<close> operator does; the requests already sent stay in the
  effect list.
\<close>

definition KP_POLL_INTERVAL :: nat where
  "KP_POLL_INTERVAL = 30000"

definition STATE_DRAINING :: string where
  "STATE_DRAINING = ''Draining''"

definition STATE_WAIT_STABLE :: string where
  "STATE_WAIT_STABLE = ''WaitingControllerStable''"

subsection \<open>Pure decisions\<close>

datatype EntryOutcome = Draining | WaitStable | Done | EntryFailed string

definition decide_entry :: "string \<Rightarrow> bool \<Rightarrow> bool \<Rightarrow> int \<Rightarrow> int \<Rightarrow> int \<Rightarrow> EntryOutcome" where
  "decide_entry state node_exists controllers_stable elapsed drain_to_secs stable_to_secs =
     (if state = STATE_DRAINING \<and> node_exists then
        (if elapsed > drain_to_secs
         then EntryFailed (''NodeDrainTimeout after '' @ show_int (trunc_div drain_to_secs 60) @
                ''m, the old node was not removed in time'')
         else Draining)
      else if controllers_stable then Done
      else if elapsed > wrapping_add_i64 drain_to_secs stable_to_secs
      then EntryFailed (''ControllerStableTimeout after '' @ show_int (trunc_div stable_to_secs 60) @
             ''m, workloads did not become Ready again in time'')
      else WaitStable)"

definition stale_targets :: "(string \<times> string option) list \<Rightarrow> string list \<Rightarrow> nat \<Rightarrow> string list" where
  "stale_targets candidates done target_minor =
     map fst (filter (\<lambda>(name, kubelet). name \<notin> set done \<and>
                is_some_and (\<lambda>kv. is_stale_kubelet kv target_minor) kubelet) candidates)"

definition pick_new_nodeclaim :: "NodeClaimInfo list \<Rightarrow> string list \<Rightarrow> timestamp option \<Rightarrow> string option" where
  "pick_new_nodeclaim candidates known after =
     map_option nc_name
       (find (\<lambda>c. case (after, nc_created_at c) of (Some a, Some created) \<Rightarrow> created \<ge> a | _ \<Rightarrow> True)
          (filter (\<lambda>c. nc_name c \<notin> set known) candidates))"

definition select_batch :: "string list \<Rightarrow> string list \<Rightarrow> nat \<Rightarrow> string list" where
  "select_batch stale done max_n = take (max max_n 1) (filter (\<lambda>n. n \<notin> set done) stale)"

definition encode_controller :: "controller_ref \<Rightarrow> string" where
  "encode_controller c = cr_kind c @ ''|'' @ cr_namespace c @ ''|'' @ cr_name c"

definition decode_controller :: "string \<Rightarrow> controller_ref option" where
  "decode_controller s =
     (case splitn 3 CHR ''|'' s of
        [kind, namespace, name] \<Rightarrow> Some (ControllerRef kind namespace name)
      | _ \<Rightarrow> None)"

definition phase_start_line :: "string \<Rightarrow> KarpenterPoolStatus list \<Rightarrow> string option" where
  "phase_start_line cluster pools =
     (if pools = [] \<or> \<not> list_all (\<lambda>p. kp_status p = CPending) pools then None
      else Some (''Starting Karpenter NodePool replacement for cluster '' @ cluster @ '', processing '' @
             show_nat (length pools) @ '' NodePools in order '' @ join '', '' (map kp_name pools)))"

definition pool_finished :: "KarpenterPoolStatus \<Rightarrow> bool" where
  "pool_finished p \<longleftrightarrow> kp_status p = CCompleted \<or> kp_status p = CSkipped \<or> kp_status p = CFailed"

definition active_pool_index :: "KarpenterPoolStatus list \<Rightarrow> nat option" where
  "active_pool_index = position (\<lambda>p. \<not> pool_finished p)"

definition elapsed_secs :: "timestamp option \<Rightarrow> timestamp \<Rightarrow> int" where
  "elapsed_secs started_at now = (case started_at of None \<Rightarrow> 0 | Some s \<Rightarrow> num_seconds (now - s))"

subsection \<open>Starting a batch\<close>

record StepResult =
  sr_after :: nat
  sr_failure :: "string option"

definition step_requeue :: "nat \<Rightarrow> StepResult" where
  "step_requeue after = \<lparr>sr_after = after, sr_failure = None\<rparr>"

definition step_failed :: "string \<Rightarrow> StepResult" where
  "step_failed reason = \<lparr>sr_after = 0, sr_failure = Some reason\<rparr>"

fun observe_kubelets :: "kube_api \<Rightarrow> NodeClaimInfo list \<Rightarrow> (string \<times> string option) list kuo_res" where
  "observe_kubelets client [] = Ok []"
| "observe_kubelets client (claim # claims) =
     rbind (case nc_node_name claim of
              None \<Rightarrow> Ok None
            | Some node_name \<Rightarrow> rbind (node_get client node_name) (\<lambda>got. Ok (Option.bind got id))) (\<lambda>kubelet.
     rbind (observe_kubelets client claims) (\<lambda>candidates.
     Ok ((nc_name claim, kubelet) # candidates)))"

definition resolve_stale :: "kube_api \<Rightarrow> string \<Rightarrow> nat \<Rightarrow> string list \<Rightarrow> (NodeClaimInfo list \<times> string list) kuo_res" where
  "resolve_stale client pool_name target_minor done =
     rbind (list_nodeclaims client pool_name) (\<lambda>claims.
     rbind (observe_kubelets client claims) (\<lambda>candidates.
     Ok (claims, stale_targets candidates done target_minor)))"

fun start_entries :: "kube_api \<Rightarrow> NodeClaimInfo list \<Rightarrow> timestamp \<Rightarrow> string list \<Rightarrow> CurrentBatchEntry list \<Rightarrow>
    CurrentBatchEntry list kuo_io" where
  "start_entries client claims now [] batch = ret batch"
| "start_entries client claims now (name # names) batch =
     (let claim = find (\<lambda>c. nc_name c = name) claims;
          node_name = Option.bind claim nc_node_name;
          provider_id = Option.bind claim nc_provider_id
      in iobind (lift (case node_name of
                         None \<Rightarrow> Ok []
                       | Some nn \<Rightarrow>
                           rbind (pods_on_node client nn) (\<lambda>pods.
                           rbind (resolve_controllers client pods) (\<lambda>cs. Ok (map encode_controller cs))))) (\<lambda>controllers.
         iobind (delete_nodeclaim client name) (\<lambda>_.
         start_entries client claims now names
           (batch @ [\<lparr>be_node_claim = name, be_node_name = node_name, be_provider_id = provider_id,
                      be_state = STATE_DRAINING, be_started_at = Some now, be_controllers = controllers\<rparr>]))))"

definition start_next_batch ::
    "kube_api \<Rightarrow> KarpenterPoolStatus \<Rightarrow> KarpenterNodePoolsConfig \<Rightarrow> nat \<Rightarrow> timestamp \<Rightarrow>
     (KarpenterPoolStatus \<times> StepResult) kuo_io" where
  "start_next_batch client pool config target_minor now =
     iobind (lift (resolve_stale client (kp_name pool) target_minor (kp_completed_node_claims pool))) (\<lambda>(claims, stale).
     let pool1 = (if kp_total_nodes pool = 0
                  then pool\<lparr>kp_total_nodes := (if length stale \<le> u32_max then length stale else u32_max)\<rparr> else pool)
     in if stale = [] then ret (pool1\<lparr>kp_status := CCompleted\<rparr>, step_requeue 0)
        else
          iobind (start_entries client claims now
                    (select_batch stale (kp_completed_node_claims pool1) (resolve_max_unavailable config (kp_total_nodes pool1)))
                    (kp_current_batch pool1)) (\<lambda>batch.
          ret (pool1\<lparr>kp_current_batch := batch\<rparr>, step_requeue KP_POLL_INTERVAL)))"

subsection \<open>Advancing a batch\<close>

record BatchProgress =
  bp_remaining :: "CurrentBatchEntry list"
  bp_completed :: "CurrentBatchEntry list"
  bp_failure :: "string option"

fun advance_entries_loop :: "(CurrentBatchEntry \<times> bool \<times> bool) list \<Rightarrow> int \<Rightarrow> int \<Rightarrow> timestamp \<Rightarrow> BatchProgress \<Rightarrow> BatchProgress" where
  "advance_entries_loop [] drain_to stable_to now progress = progress"
| "advance_entries_loop ((entry, node_exists, controllers_stable) # observed) drain_to stable_to now progress =
     (case decide_entry (be_state entry) node_exists controllers_stable
             (elapsed_secs (be_started_at entry) now) drain_to stable_to of
        Draining \<Rightarrow> advance_entries_loop observed drain_to stable_to now
          (progress\<lparr>bp_remaining := bp_remaining progress @ [entry\<lparr>be_state := STATE_DRAINING\<rparr>]\<rparr>)
      | WaitStable \<Rightarrow> advance_entries_loop observed drain_to stable_to now
          (progress\<lparr>bp_remaining := bp_remaining progress @ [entry\<lparr>be_state := STATE_WAIT_STABLE\<rparr>]\<rparr>)
      | Done \<Rightarrow> advance_entries_loop observed drain_to stable_to now
          (progress\<lparr>bp_completed := bp_completed progress @ [entry]\<rparr>)
      | EntryFailed reason \<Rightarrow>
          progress\<lparr>bp_remaining := bp_remaining progress @ [entry], bp_failure := Some reason\<rparr>)"

definition advance_entries :: "(CurrentBatchEntry \<times> bool \<times> bool) list \<Rightarrow> int \<Rightarrow> int \<Rightarrow> timestamp \<Rightarrow> BatchProgress" where
  "advance_entries observed drain_to stable_to now =
     advance_entries_loop observed drain_to stable_to now \<lparr>bp_remaining = [], bp_completed = [], bp_failure = None\<rparr>"

fun observe_batch :: "kube_api \<Rightarrow> CurrentBatchEntry list \<Rightarrow> (CurrentBatchEntry \<times> bool \<times> bool) list kuo_res" where
  "observe_batch client [] = Ok []"
| "observe_batch client (entry # entries) =
     rbind (nodeclaim_exists client (be_node_claim entry)) (\<lambda>node_exists.
     rbind (if node_exists then Ok False
            else rbind (unstable_controllers client (filter_map decode_controller (be_controllers entry)))
                   (\<lambda>us. Ok (us = []))) (\<lambda>controllers_stable.
     rbind (observe_batch client entries) (\<lambda>observed.
     Ok ((entry, node_exists, controllers_stable) # observed))))"

fun record_replacements :: "NodeClaimInfo list \<Rightarrow> string list \<Rightarrow> CurrentBatchEntry list \<Rightarrow> KarpenterPoolStatus \<Rightarrow> KarpenterPoolStatus" where
  "record_replacements claims known [] pool = pool"
| "record_replacements claims known (entry # entries) pool =
     (let new_claim = pick_new_nodeclaim claims known (be_started_at entry);
          known' = (case new_claim of None \<Rightarrow> known | Some n \<Rightarrow> known @ [n])
      in record_replacements claims known' entries
           (pool\<lparr>kp_replaced_nodes := saturating_add_u32 (kp_replaced_nodes pool) 1,
                 kp_completed_node_claims := kp_completed_node_claims pool @ [be_node_claim entry],
                 kp_replacements := kp_replacements pool @
                   [\<lparr>rp_old_node_claim = be_node_claim entry, rp_new_node_claim = new_claim, rp_node_name = be_node_name entry\<rparr>]\<rparr>))"

definition advance_batch :: "kube_api \<Rightarrow> KarpenterPoolStatus \<Rightarrow> int \<Rightarrow> int \<Rightarrow> timestamp \<Rightarrow> (KarpenterPoolStatus \<times> StepResult) kuo_res" where
  "advance_batch client pool drain_to stable_to now =
     rbind (observe_batch client (kp_current_batch pool)) (\<lambda>observed.
     let progress = advance_entries observed drain_to stable_to now;
         pool1 = pool\<lparr>kp_current_batch := bp_remaining progress\<rparr>
     in rbind (if bp_completed progress = [] then Ok pool1
               else rbind (list_nodeclaims client (kp_name pool1)) (\<lambda>claims.
                    Ok (record_replacements claims
                          (kp_completed_node_claims pool1 @ map be_node_claim (kp_current_batch pool1) @
                           map be_node_claim (bp_completed progress))
                          (bp_completed progress) pool1))) (\<lambda>pool2.
        case bp_failure progress of
          Some reason \<Rightarrow> Ok (pool2, step_failed reason)
        | None \<Rightarrow> Ok (pool2, step_requeue (if kp_current_batch pool2 = [] then 0 else KP_POLL_INTERVAL))))"

subsection \<open>The handler\<close>

definition recompute_totals :: "KarpenterNodePoolsStatus \<Rightarrow> KarpenterNodePoolsStatus" where
  "recompute_totals kp =
     kp\<lparr>ks_total_nodes := as_u32 (sum_list (map kp_total_nodes (ks_pools kp))),
        ks_replaced_nodes := as_u32 (sum_list (map kp_replaced_nodes (ks_pools kp)))\<rparr>"

definition set_karpenter :: "KarpenterNodePoolsStatus \<Rightarrow> EKSUpgradeStatus \<Rightarrow> EKSUpgradeStatus" where
  "set_karpenter kp = upd_phases (\<lambda>p. p\<lparr>ph_karpenter_node_pools := Some kp\<rparr>)"

definition kp_finish_step :: "timestamp \<Rightarrow> EKSUpgradeStatus \<Rightarrow> KarpenterNodePoolsStatus \<Rightarrow> nat \<Rightarrow>
    KarpenterPoolStatus \<times> StepResult \<Rightarrow> EKSUpgradeStatus \<times> requeue" where
  "kp_finish_step now s kp idx pr =
     (let (pool, requeue) = pr
      in case sr_failure requeue of
           Some reason \<Rightarrow>
             (let kp1 = recompute_totals (kp\<lparr>ks_pools := (ks_pools kp)[idx := pool\<lparr>kp_status := CFailed\<rparr>]\<rparr>)
              in (set_failed now (''Karpenter NodePool '' @ kp_name (ks_pools kp ! idx) @ '' failed: '' @ reason)
                    (set_karpenter kp1 s), None))
         | None \<Rightarrow>
             (let kp1 = recompute_totals
                    (kp\<lparr>ks_pools := (ks_pools kp)[idx := pool], ks_active_pool := Some (kp_name (ks_pools kp ! idx))\<rparr>)
              in (set_karpenter kp1 s, Some (sr_after requeue))))"

definition karpenter_execute :: phase_step where
  "karpenter_execute w spec s =
     (case sp_karpenter_node_pools spec of
        None \<Rightarrow> (Panic, [])
      | Some config \<Rightarrow>
     (case ph_karpenter_node_pools (st_phases s) of
        None \<Rightarrow> ret (transition_to (w_now w) Completed s, Some 0)
      | Some kp \<Rightarrow>
     (case active_pool_index (ks_pools kp) of
        None \<Rightarrow>
          (let s1 = set_karpenter (kp\<lparr>ks_active_pool := None\<rparr>) s
           in ret (transition_to (w_now w) (after_karpenter s1 (sp_upgrade_mode spec)) s1, Some 0))
      | Some idx \<Rightarrow>
          iobind (lift (target_client w spec)) (\<lambda>client.
          case parse_minor (sp_target_version spec) of
            None \<Rightarrow> ret (set_failed (w_now w) (''Invalid target version: '' @ sp_target_version spec) s, None)
          | Some target_minor \<Rightarrow>
              (let drain_to = i64_try_from_or_max (saturating_mul_u64 (kc_node_drain_timeout_minutes config) 60);
                   stable_to = i64_try_from_or_max (saturating_mul_u64 (kc_controller_stable_timeout_minutes config) 60)
               in iobind (lift (index (ks_pools kp) idx)) (\<lambda>pool0.
                  let pool = pool0\<lparr>kp_status := CInProgress\<rparr>
                  in iobind (if kp_current_batch pool = []
                             then start_next_batch client pool config target_minor (w_now w)
                             else lift (advance_batch client pool drain_to stable_to (w_now w))) (\<lambda>pr.
                     ret (kp_finish_step (w_now w) s kp idx pr))))))))"

subsection \<open>Events\<close>

record ReplacementEvent =
  re_reason :: string
  re_message :: string

fun starting_events :: "KarpenterPoolStatus \<Rightarrow> string list \<Rightarrow> nat \<Rightarrow> CurrentBatchEntry list \<Rightarrow> ReplacementEvent list" where
  "starting_events pool old_batch starting [] = []"
| "starting_events pool old_batch starting (entry # entries) =
     (if be_node_claim entry \<notin> set old_batch then
        (let ordinal = as_u32 (kp_replaced_nodes pool + starting + 1);
             node = (case be_node_name entry of None \<Rightarrow> [] | Some n \<Rightarrow> '' on node '' @ n)
         in \<lparr>re_reason = ''NodeClaimReplacing'',
             re_message = ''NodePool '' @ kp_name pool @ '' is replacing node '' @ show_nat ordinal @ '' of '' @
               show_nat (kp_total_nodes pool) @ '', NodeClaim '' @ be_node_claim entry @ node\<rparr>
            # starting_events pool old_batch (as_u32 (starting + 1)) entries)
      else starting_events pool old_batch starting entries)"

definition replaced_event :: "KarpenterPoolStatus \<Rightarrow> nat \<times> NodeClaimReplacement \<Rightarrow> ReplacementEvent" where
  "replaced_event pool ir =
     (let (idx, rep) = ir;
          node = (case rp_node_name rep of None \<Rightarrow> [] | Some n \<Rightarrow> '' on former node '' @ n)
      in \<lparr>re_reason = ''NodeClaimReplaced'',
          re_message = ''NodePool '' @ kp_name pool @ '' replaced node '' @ show_nat (idx + 1) @ '' of '' @
            show_nat (kp_total_nodes pool) @ '', old NodeClaim '' @ rp_old_node_claim rep @ '' is now '' @
            unwrap_or ''unknown'' (rp_new_node_claim rep) @ node\<rparr>)"

definition pool_events :: "KarpenterNodePoolsStatus option \<Rightarrow> KarpenterPoolStatus \<Rightarrow> ReplacementEvent list" where
  "pool_events old pool =
     (let old_pool = Option.bind old (\<lambda>k. find (\<lambda>p. kp_name p = kp_name pool) (ks_pools k));
          old_batch = (case old_pool of None \<Rightarrow> [] | Some p \<Rightarrow> map be_node_claim (kp_current_batch p));
          old_replaced_count = (case old_pool of None \<Rightarrow> 0 | Some p \<Rightarrow> length (kp_replacements p))
      in starting_events pool old_batch 0 (kp_current_batch pool) @
         map (replaced_event pool)
           (filter (\<lambda>(idx, rep). idx \<ge> old_replaced_count) (enumerate 0 (kp_replacements pool))))"

definition replacement_events :: "KarpenterNodePoolsStatus option \<Rightarrow> KarpenterNodePoolsStatus option \<Rightarrow> ReplacementEvent list" where
  "replacement_events old new =
     (case new of None \<Rightarrow> [] | Some k \<Rightarrow> concat (map (pool_events old) (ks_pools k)))"

subsection \<open>Frame\<close>

interpretation pool_queue: work_queue pool_finished active_pool_index
  by unfold_locales (simp add: active_pool_index_def)

lemma record_replacements_sel [simp]:
  "kp_name (record_replacements claims known es pool) = kp_name pool"
  "kp_current_batch (record_replacements claims known es pool) = kp_current_batch pool"
  "kp_status (record_replacements claims known es pool) = kp_status pool"
  "kp_total_nodes (record_replacements claims known es pool) = kp_total_nodes pool"
  "kp_completed_node_claims (record_replacements claims known es pool) =
     kp_completed_node_claims pool @ map be_node_claim es"
  by (induction es arbitrary: known pool) (simp_all add: Let_def)

lemma start_next_batch_name:
  "fst (start_next_batch client pool config m now) = Ok (pool', r) \<Longrightarrow> kp_name pool' = kp_name pool \<and> sr_failure r = None"
  by (auto simp: start_next_batch_def step_requeue_def Let_def split: if_splits prod.splits)

lemma advance_batch_name:
  "advance_batch client pool d st now = Ok (pool', r) \<Longrightarrow> kp_name pool' = kp_name pool"
  by (auto simp: advance_batch_def Let_def split: if_splits option.splits)

lemma set_karpenter_sel [simp]:
  "st_phase (set_karpenter kp s) = st_phase s"
  "st_last_transition (set_karpenter kp s) = st_last_transition s"
  "ph_karpenter_node_pools (st_phases (set_karpenter kp s)) = Some kp"
  "ph_planning (st_phases (set_karpenter kp s)) = ph_planning (st_phases s)"
  "ph_control_plane (st_phases (set_karpenter kp s)) = ph_control_plane (st_phases s)"
  "ph_addons (st_phases (set_karpenter kp s)) = ph_addons (st_phases s)"
  "ph_nodegroups (st_phases (set_karpenter kp s)) = ph_nodegroups (st_phases s)"
  "st_current_version (set_karpenter kp s) = st_current_version s"
  by (simp_all add: set_karpenter_def)

lemma recompute_totals_sel [simp]:
  "ks_pools (recompute_totals kp) = ks_pools kp" "ks_active_pool (recompute_totals kp) = ks_active_pool kp"
  "ks_strategy (recompute_totals kp) = ks_strategy kp"
  by (simp_all add: recompute_totals_def)

lemma same_plan_set_karpenter:
  assumes "ph_karpenter_node_pools (st_phases s) = Some kp" and "map kp_name (ks_pools kp') = map kp_name (ks_pools kp)"
  shows "same_plan s (set_karpenter kp' s)"
  using assms by (simp add: same_plan_def set_karpenter_def pool_names_def)

lemma kp_finish_step_contract:
  assumes "ph_karpenter_node_pools (st_phases s) = Some kp" and "i < length (ks_pools kp)"
    and "kp_name pool = kp_name (ks_pools kp ! i)"
    and "kp_finish_step now s kp i (pool, r) = (s', q)"
  shows "same_plan s s'" and "st_phase s' = st_phase s \<or> st_phase s' = Some Failed"
proof -
  have "map kp_name ((ks_pools kp)[i := pool]) = map kp_name (ks_pools kp)"
    "map kp_name ((ks_pools kp)[i := pool\<lparr>kp_status := CFailed\<rparr>]) = map kp_name (ks_pools kp)"
    using assms(2,3) by (simp_all add: map_list_update_same)
  then show "same_plan s s'"
    using assms(1,4) by (auto simp: kp_finish_step_def Let_def same_plan_set_karpenter split: option.splits)
  show "st_phase s' = st_phase s \<or> st_phase s' = Some Failed"
    using assms(4) by (auto simp: kp_finish_step_def Let_def split: option.splits)
qed

text \<open>The step the handler takes on a pool that still needs work.\<close>

definition kp_pool_step :: "kube_api \<Rightarrow> KarpenterNodePoolsConfig \<Rightarrow> nat \<Rightarrow> timestamp \<Rightarrow> KarpenterPoolStatus \<Rightarrow>
    (KarpenterPoolStatus \<times> StepResult) kuo_io" where
  "kp_pool_step client config target_minor now pool =
     (if kp_current_batch pool = [] then start_next_batch client (pool\<lparr>kp_status := CInProgress\<rparr>) config target_minor now
      else lift (advance_batch client (pool\<lparr>kp_status := CInProgress\<rparr>)
             (i64_try_from_or_max (saturating_mul_u64 (kc_node_drain_timeout_minutes config) 60))
             (i64_try_from_or_max (saturating_mul_u64 (kc_controller_stable_timeout_minutes config) 60)) now))"

lemma karpenter_execute_active:
  assumes "sp_karpenter_node_pools spec = Some config" and "ph_karpenter_node_pools (st_phases s) = Some kp"
    and "active_pool_index (ks_pools kp) = Some i"
  shows "karpenter_execute w spec s =
    iobind (lift (target_client w spec)) (\<lambda>client.
      case parse_minor (sp_target_version spec) of
        None \<Rightarrow> ret (set_failed (w_now w) (''Invalid target version: '' @ sp_target_version spec) s, None)
      | Some m \<Rightarrow> iobind (kp_pool_step client config m (w_now w) (ks_pools kp ! i)) (\<lambda>pr. ret (kp_finish_step (w_now w) s kp i pr)))"
  using assms pool_queue.active_Some(1) [OF assms(3)]
  by (simp add: karpenter_execute_def kp_pool_step_def index_def Let_def cong: option.case_cong)

lemma kp_pool_step_name:
  "fst (kp_pool_step client config m now pool) = Ok (pool', r) \<Longrightarrow> kp_name pool' = kp_name pool"
  by (auto simp: kp_pool_step_def dest: start_next_batch_name advance_batch_name split: if_splits)

lemma start_entries_no_panic [simp]: "fst (start_entries client claims now names batch) \<noteq> Panic"
  by (induction names arbitrary: batch) (auto simp: rbind_eq_Panic Let_def split: option.splits)

lemma start_entries_requests:
  "\<exists>k. snd (start_entries client claims now names batch) = map DeleteNodeClaim (take k names)"
proof (induction names arbitrary: batch)
  case (Cons n ns)
  let ?pre = "case Option.bind (find (\<lambda>c. nc_name c = n) claims) nc_node_name of
      None \<Rightarrow> Ok []
    | Some nn \<Rightarrow> rbind (pods_on_node client nn) (\<lambda>pods. rbind (resolve_controllers client pods) (\<lambda>cs. Ok (map encode_controller cs)))"
  show ?case
  proof (cases ?pre)
    case (Ok ctl)
    show ?thesis
    proof (cases "fst (delete_nodeclaim client n)")
      case (Ok u)
      from Cons.IH obtain k where
        "snd (start_entries client claims now ns
           (batch @ [\<lparr>be_node_claim = n, be_node_name = Option.bind (find (\<lambda>c. nc_name c = n) claims) nc_node_name,
              be_provider_id = Option.bind (find (\<lambda>c. nc_name c = n) claims) nc_provider_id,
              be_state = STATE_DRAINING, be_started_at = Some now, be_controllers = ctl\<rparr>])) = map DeleteNodeClaim (take k ns)"
        by blast
      then show ?thesis
        using Ok \<open>?pre = Ok ctl\<close> by (intro exI [of _ "Suc k"]) (simp add: snd_iobind Let_def)
    next
      case (Err e)
      then show ?thesis using Ok by (intro exI [of _ 1]) (simp add: snd_iobind Let_def)
    qed simp
  next
    case (Err e)
    then show ?thesis by (intro exI [of _ 0]) (simp add: snd_iobind Let_def)
  next
    case Panic
    then show ?thesis by (intro exI [of _ 0]) (simp add: snd_iobind Let_def)
  qed
qed simp

lemma start_entries_Ok:
  assumes "fst (start_entries client claims now names batch) = Ok batch'"
  shows "snd (start_entries client claims now names batch) = map DeleteNodeClaim names"
    and "map be_node_claim batch' = map be_node_claim batch @ names"
  using assms
  by (induction names arbitrary: batch) (auto simp: snd_iobind Let_def split: option.splits)

lemma observe_kubelets_no_panic [simp]: "observe_kubelets client claims \<noteq> Panic"
  by (induction claims) (auto simp: rbind_eq_Panic split: option.splits)

lemma resolve_stale_no_panic [simp]: "resolve_stale client p m done \<noteq> Panic"
  by (auto simp: resolve_stale_def rbind_eq_Panic)

lemma start_next_batch_no_panic [simp]: "fst (start_next_batch client pool config m now) \<noteq> Panic"
  by (auto simp: start_next_batch_def rbind_eq_Panic Let_def split: prod.splits)

lemma observe_batch_no_panic [simp]: "observe_batch client es \<noteq> Panic"
  by (induction es) (auto simp: rbind_eq_Panic)

lemma advance_batch_no_panic [simp]: "advance_batch client pool d st now \<noteq> Panic"
  by (auto simp: advance_batch_def rbind_eq_Panic Let_def split: option.splits)

lemma kp_pool_step_no_panic [simp]: "fst (kp_pool_step client config m now pool) \<noteq> Panic"
  by (simp add: kp_pool_step_def)

lemma kp_pool_step_requests:
  "snd (kp_pool_step client config m now pool) =
     (if kp_current_batch pool = [] then snd (start_next_batch client (pool\<lparr>kp_status := CInProgress\<rparr>) config m now) else [])"
  by (simp add: kp_pool_step_def)

lemma start_next_batch_requests:
  assumes "f \<in> set (snd (start_next_batch client pool config m now))"
  shows "\<exists>claims stale n. resolve_stale client (kp_name pool) m (kp_completed_node_claims pool) = Ok (claims, stale) \<and>
    f = DeleteNodeClaim n \<and> n \<in> set stale"
proof (cases "resolve_stale client (kp_name pool) m (kp_completed_node_claims pool)")
  case (Ok cs)
  obtain claims stale where cs: "cs = (claims, stale)" by force
  define pool1 where "pool1 = (if kp_total_nodes pool = 0
    then pool\<lparr>kp_total_nodes := (if length stale \<le> u32_max then length stale else u32_max)\<rparr> else pool)"
  define names where "names =
    select_batch stale (kp_completed_node_claims pool1) (resolve_max_unavailable config (kp_total_nodes pool1))"
  have "f \<in> set (snd (start_entries client claims now names (kp_current_batch pool1)))"
    using assms Ok cs unfolding names_def pool1_def
    by (auto simp: start_next_batch_def snd_iobind Let_def split: if_splits res.splits)
  then obtain n where "f = DeleteNodeClaim n" "n \<in> set names"
    using start_entries_requests [of client claims now names "kp_current_batch pool1"] in_set_takeD by force
  moreover from this(2) have "n \<in> set stale" by (auto simp: names_def select_batch_def dest: in_set_takeD)
  ultimately show ?thesis using Ok cs by blast
qed (use assms in \<open>simp_all add: start_next_batch_def snd_iobind\<close>)

interpretation karpenter: work_phase karpenter_execute after_karpenter "\<lambda>f. \<exists>n. f = DeleteNodeClaim n"
proof
  fix w spec s s' r assume ok: "fst (karpenter_execute w spec s) = Ok (s', r)"
  then obtain config where config: "sp_karpenter_node_pools spec = Some config"
    by (cases "sp_karpenter_node_pools spec") (simp_all add: karpenter_execute_def)
  have "same_plan s s' \<and> handler_next after_karpenter spec s s'"
  proof (cases "ph_karpenter_node_pools (st_phases s)")
    case None
    then show ?thesis
      using ok config by (auto simp: karpenter_execute_def handler_next_def after_karpenter_def)
  next
    case (Some kp)
    show ?thesis
    proof (cases "active_pool_index (ks_pools kp)")
      case None
      then show ?thesis
        using ok config Some by (auto simp: karpenter_execute_def handler_next_def after_karpenter_def Let_def
            intro!: same_plan_set_karpenter)
    next
      case (Some i)
      note active = karpenter_execute_active [OF config \<open>ph_karpenter_node_pools (st_phases s) = Some kp\<close> Some, of w]
      show ?thesis
        using ok kp_finish_step_contract [OF \<open>ph_karpenter_node_pools (st_phases s) = Some kp\<close>
            pool_queue.active_Some(1) [OF Some]]
        unfolding active
        by (auto simp: handler_next_def split: option.splits dest!: kp_pool_step_name) blast+
    qed
  qed
  then show "same_plan s s'" "handler_next after_karpenter spec s s'" by simp_all
next
  fix f w spec s assume f: "f \<in> set (snd (karpenter_execute w spec s))"
  then obtain config kp i where c: "sp_karpenter_node_pools spec = Some config"
      "ph_karpenter_node_pools (st_phases s) = Some kp" "active_pool_index (ks_pools kp) = Some i"
    by (auto simp: karpenter_execute_def Let_def split: option.splits)
  from f show "\<exists>n. f = DeleteNodeClaim n"
    unfolding karpenter_execute_active [OF c]
    by (auto simp: snd_iobind kp_pool_step_requests split: res.splits option.splits if_splits
        dest!: start_next_batch_requests)
qed

subsection \<open>What is deleted\<close>

definition claim_kubelet :: "kube_api \<Rightarrow> NodeClaimInfo \<Rightarrow> string option" where
  "claim_kubelet client claim =
     (case nc_node_name claim of
        None \<Rightarrow> None
      | Some nn \<Rightarrow> (case node_get client nn of Ok (Some v) \<Rightarrow> v | _ \<Rightarrow> None))"

definition claim_is_stale :: "kube_api \<Rightarrow> nat \<Rightarrow> NodeClaimInfo \<Rightarrow> bool" where
  "claim_is_stale client m claim = is_some_and (\<lambda>v. is_stale_kubelet v m) (claim_kubelet client claim)"

lemma observe_kubelets_Ok:
  "observe_kubelets client claims = Ok cands \<Longrightarrow> cands = map (\<lambda>c. (nc_name c, claim_kubelet client c)) claims"
proof (induction claims arbitrary: cands)
  case (Cons c cs)
  from Cons.prems obtain k rest where k: "(case nc_node_name c of None \<Rightarrow> Ok None
      | Some nn \<Rightarrow> rbind (node_get client nn) (\<lambda>got. Ok (Option.bind got id))) = (Ok k :: string option kuo_res)"
    and rest: "observe_kubelets client cs = Ok rest" "cands = (nc_name c, k) # rest"
    by auto
  from k have "claim_kubelet client c = k"
    by (auto simp: claim_kubelet_def split: option.splits)
  then show ?case using Cons.IH rest by simp
qed simp

lemma resolve_stale_Ok:
  assumes "resolve_stale client p m done = Ok (claims, stale)"
  shows "list_nodeclaims client p = Ok claims" and
    "stale = map nc_name (filter (\<lambda>c. nc_name c \<notin> set done \<and> claim_is_stale client m c) claims)"
proof -
  from assms obtain cands where
    l: "list_nodeclaims client p = Ok claims" and o: "observe_kubelets client claims = Ok cands"
    and s: "stale = stale_targets cands done m"
    by (auto simp: resolve_stale_def)
  show "list_nodeclaims client p = Ok claims" by (rule l)
  show "stale = map nc_name (filter (\<lambda>c. nc_name c \<notin> set done \<and> claim_is_stale client m c) claims)"
    unfolding s observe_kubelets_Ok [OF o] stale_targets_def claim_is_stale_def
    by (simp add: filter_map comp_def)
qed

lemma karpenter_request_origin:
  assumes "f \<in> set (snd (karpenter_execute w spec s))"
  obtains config kp i client m where
    "sp_karpenter_node_pools spec = Some config" "ph_karpenter_node_pools (st_phases s) = Some kp"
    "active_pool_index (ks_pools kp) = Some i" "kp_current_batch (ks_pools kp ! i) = []"
    "target_client w spec = Ok client" "parse_minor (sp_target_version spec) = Some m"
    "f \<in> set (snd (start_next_batch client ((ks_pools kp ! i)\<lparr>kp_status := CInProgress\<rparr>) config m (w_now w)))"
proof -
  from assms obtain config kp i where c: "sp_karpenter_node_pools spec = Some config"
      "ph_karpenter_node_pools (st_phases s) = Some kp" "active_pool_index (ks_pools kp) = Some i"
    by (auto simp: karpenter_execute_def Let_def split: option.splits)
  note f = assms [unfolded karpenter_execute_active [OF c]]
  then obtain client where client: "target_client w spec = Ok client"
    by (cases "target_client w spec") (simp_all add: snd_iobind)
  with f obtain m where m: "parse_minor (sp_target_version spec) = Some m"
    by (cases "parse_minor (sp_target_version spec)") simp_all
  from f client m have step: "f \<in> set (snd (kp_pool_step client config m (w_now w) (ks_pools kp ! i)))"
    by (auto simp: snd_iobind split: res.splits)
  show thesis
    using that [OF c _ client m] step by (auto simp: kp_pool_step_requests split: if_splits)
qed

text \<open>
  C23. Every node claim the Karpenter phase deletes belongs to the first unfinished pool, which has
  no batch in flight; the pool's own claim list contains it, it was not replaced before, and the
  kubelet of its backing node reports a minor below the target. A claim without a node, or whose
  kubelet version cannot be read, is never deleted.
\<close>

theorem karpenter_deletes_only_stale_claims:
  assumes "f \<in> set (snd (karpenter_execute w spec s))"
  shows "\<exists>kp i client claims claim m.
    ph_karpenter_node_pools (st_phases s) = Some kp \<and> active_pool_index (ks_pools kp) = Some i \<and>
    kp_current_batch (ks_pools kp ! i) = [] \<and> target_client w spec = Ok client \<and>
    parse_minor (sp_target_version spec) = Some m \<and>
    list_nodeclaims client (kp_name (ks_pools kp ! i)) = Ok claims \<and> claim \<in> set claims \<and>
    f = DeleteNodeClaim (nc_name claim) \<and> nc_name claim \<notin> set (kp_completed_node_claims (ks_pools kp ! i)) \<and>
    (\<exists>nn v k. nc_node_name claim = Some nn \<and> node_get client nn = Ok (Some (Some v)) \<and> parse_minor v = Some k \<and> k < m)"
proof -
  from assms obtain config kp i client m where c: "ph_karpenter_node_pools (st_phases s) = Some kp"
      "active_pool_index (ks_pools kp) = Some i" "kp_current_batch (ks_pools kp ! i) = []"
      "target_client w spec = Ok client" "parse_minor (sp_target_version spec) = Some m"
    and f: "f \<in> set (snd (start_next_batch client ((ks_pools kp ! i)\<lparr>kp_status := CInProgress\<rparr>) config m (w_now w)))"
    by (rule karpenter_request_origin)
  from start_next_batch_requests [OF f] obtain claims stale n where
    r: "resolve_stale client (kp_name (ks_pools kp ! i)) m (kp_completed_node_claims (ks_pools kp ! i)) = Ok (claims, stale)"
    and n: "f = DeleteNodeClaim n" "n \<in> set stale" by auto
  from n(2) obtain claim where claim: "claim \<in> set claims" "n = nc_name claim"
      "nc_name claim \<notin> set (kp_completed_node_claims (ks_pools kp ! i))" "claim_is_stale client m claim"
    unfolding resolve_stale_Ok(2) [OF r] by auto
  from claim(4) have "\<exists>nn v k. nc_node_name claim = Some nn \<and> node_get client nn = Ok (Some (Some v)) \<and> parse_minor v = Some k \<and> k < m"
    by (auto simp: claim_is_stale_def claim_kubelet_def is_some_and_def is_stale_kubelet_def split: option.splits res.splits)
  then show ?thesis using c claim(1,2,3) n(1) resolve_stale_Ok(1) [OF r] by blast
qed

text \<open>A pool of two nodes, one behind the target version.\<close>

definition demo_claim :: "string \<Rightarrow> string \<Rightarrow> nodeclaim_object" where
  "demo_claim n node = \<lparr>nco_name = Some n, nco_node_name = Some node, nco_provider_id = None, nco_creation_seconds = None\<rparr>"

definition pool_kube :: "(string \<Rightarrow> string) \<Rightarrow> kube_api" where
  "pool_kube kubelet = silent_kube\<lparr>k_list_nodeclaims := (\<lambda>_. Inr [demo_claim ''a'' ''na'', demo_claim ''b'' ''nb'']),
     k_get_node := (\<lambda>n. Inr (Some (Some (kubelet n))))\<rparr>"

definition demo_pool :: KarpenterPoolStatus where
  "demo_pool = \<lparr>kp_name = ''default'', kp_status = CPending, kp_total_nodes = 0, kp_replaced_nodes = 0,
     kp_completed_node_claims = [], kp_replacements = [], kp_current_batch = []\<rparr>"

definition demo_pools_status :: "KarpenterPoolStatus list \<Rightarrow> EKSUpgradeStatus" where
  "demo_pools_status ps = default_status\<lparr>st_phase := Some UpgradingKarpenterNodePools, st_phases := default_phases\<lparr>
     ph_karpenter_node_pools := Some \<lparr>ks_strategy = ''Replace'', ks_active_pool = None, ks_total_nodes = 0,
       ks_replaced_nodes = 0, ks_pools = ps\<rparr>\<rparr>\<rparr>"

definition demo_config :: "string \<Rightarrow> KarpenterNodePoolsConfig" where
  "demo_config mx = \<lparr>kc_enabled = True, kc_node_pools = [], kc_strategy = Replace, kc_max_unavailable = mx,
     kc_node_drain_timeout_minutes = 15, kc_controller_stable_timeout_minutes = 10\<rparr>"

definition karpenter_spec :: "string \<Rightarrow> EKSUpgradeSpec" where
  "karpenter_spec mx = demo_spec\<lparr>sp_karpenter_node_pools := Some (demo_config mx)\<rparr>"

definition mixed_kubelets :: "string \<Rightarrow> string" where
  "mixed_kubelets n = (if n = ''na'' then ''v1.33.1'' else ''v1.34.0'')"

definition mixed_world :: world where
  "mixed_world = (world_at no_answer_sdk 0)\<lparr>w_in_cluster := pool_kube mixed_kubelets\<rparr>"

lemma demo_versions [simp]:
  "parse_minor ''v1.33.1'' = Some 33" "parse_minor ''v1.34.0'' = Some 34" "parse_minor ''1.34'' = Some 34"
  by (simp_all add: parse_minor_def str_eval)

lemma demo_max_unavailable [simp]:
  "resolve_max_unavailable (demo_config ''2'') n = 2" "resolve_max_unavailable (demo_config ''1'') n = 1"
  by (simp_all add: resolve_max_unavailable_def demo_config_def str_eval)

lemmas demo_kube_defs = demo_claim_def pool_kube_def mixed_kubelets_def list_nodeclaims_def
  nodeclaim_info_def node_get_def pods_on_node_def resolve_controllers_def dedup_def silent_kube_def unwrap_or_default_def

lemma mixed_world_requests:
  "snd (karpenter_execute mixed_world (karpenter_spec ''2'') (demo_pools_status [demo_pool])) = [DeleteNodeClaim ''a'']"
proof -
  have active: "active_pool_index [demo_pool] = Some 0"
    by (simp add: active_pool_index_def pool_finished_def demo_pool_def)
  have "resolve_stale (pool_kube mixed_kubelets) ''default'' 34 [] =
      Ok ([\<lparr>nc_name = ''a'', nc_node_name = Some ''na'', nc_provider_id = None, nc_created_at = None\<rparr>,
           \<lparr>nc_name = ''b'', nc_node_name = Some ''nb'', nc_provider_id = None, nc_created_at = None\<rparr>], [''a''])"
    by (simp add: resolve_stale_def demo_kube_defs stale_targets_def is_some_and_def is_stale_kubelet_def)
  then have "snd (start_next_batch (pool_kube mixed_kubelets) (demo_pool\<lparr>kp_status := CInProgress\<rparr>) (demo_config ''2'') 34 0) = [DeleteNodeClaim ''a'']"
    by (simp add: start_next_batch_def snd_iobind demo_pool_def select_batch_def Let_def delete_nodeclaim_def demo_kube_defs)
  then show ?thesis
    using active
    by (subst karpenter_execute_active [of _ "demo_config ''2''" _ "\<lparr>ks_strategy = ''Replace'', ks_active_pool = None, ks_total_nodes = 0,
       ks_replaced_nodes = 0, ks_pools = [demo_pool]\<rparr>" 0])
      (simp_all add: karpenter_spec_def demo_pools_status_def mixed_world_def world_at_def target_client_def resolve_client_def
        demo_spec_def kp_pool_step_def demo_pool_def snd_iobind split: res.splits)
qed

theorem karpenter_deletes_only_stale_claims_witness:
  "\<exists>claims claim. list_nodeclaims (pool_kube mixed_kubelets) ''default'' = Ok claims \<and> claim \<in> set claims \<and>
     DeleteNodeClaim ''a'' = DeleteNodeClaim (nc_name claim)"
proof -
  have "DeleteNodeClaim ''a'' \<in> set (snd (karpenter_execute mixed_world (karpenter_spec ''2'') (demo_pools_status [demo_pool])))"
    by (simp add: mixed_world_requests)
  from karpenter_deletes_only_stale_claims [OF this] show ?thesis
    by (auto simp: demo_pools_status_def mixed_world_def world_at_def target_client_def resolve_client_def
        karpenter_spec_def demo_spec_def active_pool_index_def pool_finished_def demo_pool_def)
qed

subsection \<open>Batch size and record\<close>

definition batch_limit :: "kube_api \<Rightarrow> KarpenterNodePoolsConfig \<Rightarrow> nat \<Rightarrow> KarpenterPoolStatus \<Rightarrow> nat" where
  "batch_limit client config m pool =
     (case resolve_stale client (kp_name pool) m (kp_completed_node_claims pool) of
        Ok (claims, stale) \<Rightarrow>
          resolve_max_unavailable config (if kp_total_nodes pool = 0 then min (length stale) u32_max else kp_total_nodes pool)
      | _ \<Rightarrow> 0)"



subsection \<open>Advancing a batch\<close>

text \<open>The reference: decide every entry, stop behind the first one past its deadline.\<close>

definition entry_outcome :: "int \<Rightarrow> int \<Rightarrow> timestamp \<Rightarrow> CurrentBatchEntry \<times> bool \<times> bool \<Rightarrow> EntryOutcome" where
  "entry_outcome drain_to stable_to now obs =
     (case obs of (e, node_exists, ready) \<Rightarrow>
        decide_entry (be_state e) node_exists ready (elapsed_secs (be_started_at e) now) drain_to stable_to)"

fun entry_fails :: "EntryOutcome \<Rightarrow> bool" where
  "entry_fails (EntryFailed r) = True"
| "entry_fails _ = False"

fun fail_reason :: "EntryOutcome \<Rightarrow> string" where
  "fail_reason (EntryFailed r) = r"
| "fail_reason _ = []"

definition decided :: "int \<Rightarrow> int \<Rightarrow> timestamp \<Rightarrow> (CurrentBatchEntry \<times> bool \<times> bool) list \<Rightarrow> (CurrentBatchEntry \<times> bool \<times> bool) list" where
  "decided d st now = takeWhile (\<lambda>x. \<not> entry_fails (entry_outcome d st now x))"

definition overdue :: "int \<Rightarrow> int \<Rightarrow> timestamp \<Rightarrow> (CurrentBatchEntry \<times> bool \<times> bool) list \<Rightarrow> (CurrentBatchEntry \<times> bool \<times> bool) option" where
  "overdue d st now = find (\<lambda>x. entry_fails (entry_outcome d st now x))"

lemma decided_Cons:
  "decided d st now (x # xs) = (if entry_fails (entry_outcome d st now x) then [] else x # decided d st now xs)"
  "overdue d st now (x # xs) = (if entry_fails (entry_outcome d st now x) then Some x else overdue d st now xs)"
  by (simp_all add: decided_def overdue_def)

lemma advance_entries_loop_spec:
  assumes "bp_failure p = None"
  shows "bp_completed (advance_entries_loop obs d st now p) =
           bp_completed p @ map fst (filter (\<lambda>x. entry_outcome d st now x = Done) (decided d st now obs)) \<and>
         map be_node_claim (bp_remaining (advance_entries_loop obs d st now p)) =
           map be_node_claim (bp_remaining p) @
           map (be_node_claim \<circ> fst) (filter (\<lambda>x. entry_outcome d st now x \<noteq> Done) (decided d st now obs)) @
           (case overdue d st now obs of None \<Rightarrow> [] | Some x \<Rightarrow> [be_node_claim (fst x)]) \<and>
         bp_failure (advance_entries_loop obs d st now p) =
           map_option (\<lambda>x. fail_reason (entry_outcome d st now x)) (overdue d st now obs)"
  using assms
proof (induction obs arbitrary: p)
  case Nil
  then show ?case by (simp add: decided_def overdue_def)
next
  case (Cons x obs)
  obtain e ex ready where x: "x = (e, ex, ready)" by (cases x) auto
  have out: "entry_outcome d st now x =
      decide_entry (be_state e) ex ready (elapsed_secs (be_started_at e) now) d st"
    by (simp add: entry_outcome_def x)
  show ?case
    using Cons by (cases "entry_outcome d st now x") (simp_all add: decided_Cons x [symmetric] out [symmetric], simp_all add: x out [symmetric])
qed

text \<open>
  Advancing a batch equals its specification: walking the entries in order up to the first one
  past its deadline, the entries whose node is gone and whose controllers are ready are completed
  and every other one is kept; the first overdue entry, if any, is kept as well and its reason is
  the failure of the batch. Without an overdue entry no claim is lost or duplicated.
\<close>

theorem advance_entries_meets_spec:
  "bp_completed (advance_entries obs d st now) =
     map fst (filter (\<lambda>x. entry_outcome d st now x = Done) (decided d st now obs)) \<and>
   map be_node_claim (bp_remaining (advance_entries obs d st now)) =
     map (be_node_claim \<circ> fst) (filter (\<lambda>x. entry_outcome d st now x \<noteq> Done) (decided d st now obs)) @
     (case overdue d st now obs of None \<Rightarrow> [] | Some x \<Rightarrow> [be_node_claim (fst x)]) \<and>
   bp_failure (advance_entries obs d st now) =
     map_option (\<lambda>x. fail_reason (entry_outcome d st now x)) (overdue d st now obs) \<and>
   (overdue d st now obs = None \<longrightarrow>
      mset (map be_node_claim (bp_completed (advance_entries obs d st now))) +
      mset (map be_node_claim (bp_remaining (advance_entries obs d st now))) = mset (map (be_node_claim \<circ> fst) obs))"
proof -
  note spec = advance_entries_loop_spec [of "\<lparr>bp_remaining = [], bp_completed = [], bp_failure = None\<rparr>" obs d st now,
    folded advance_entries_def, simplified]
  have "decided d st now obs = obs" if "overdue d st now obs = None"
    using that unfolding decided_def overdue_def find_None_iff takeWhile_eq_all_conv by blast
  moreover have "mset (map (be_node_claim \<circ> fst) (filter P obs)) + mset (map (be_node_claim \<circ> fst) (filter (\<lambda>x. \<not> P x) obs))
      = mset (map (be_node_claim \<circ> fst) obs)" for P
    by (induction obs) auto
  ultimately show ?thesis using spec by (simp add: comp_def)
qed

definition draining_entry :: "string \<Rightarrow> CurrentBatchEntry" where
  "draining_entry n = \<lparr>be_node_claim = n, be_node_name = None, be_provider_id = None, be_state = STATE_DRAINING,
     be_started_at = Some 0, be_controllers = []\<rparr>"

theorem advance_entries_meets_spec_witness:
  "mset (map be_node_claim (bp_completed (advance_entries [(draining_entry ''a'', False, True), (draining_entry ''b'', True, False)] 900 600 0))) +
   mset (map be_node_claim (bp_remaining (advance_entries [(draining_entry ''a'', False, True), (draining_entry ''b'', True, False)] 900 600 0)))
   = {#''a'', ''b''#}"
proof -
  have "overdue 900 600 0 [(draining_entry ''a'', False, True), (draining_entry ''b'', True, False)] = None"
    by (simp add: overdue_def entry_outcome_def decide_entry_def draining_entry_def elapsed_secs_def num_seconds_def trunc_div_def)
  then have "mset (map be_node_claim (bp_completed (advance_entries [(draining_entry ''a'', False, True), (draining_entry ''b'', True, False)] 900 600 0))) +
     mset (map be_node_claim (bp_remaining (advance_entries [(draining_entry ''a'', False, True), (draining_entry ''b'', True, False)] 900 600 0)))
     = mset (map (be_node_claim \<circ> fst) [(draining_entry ''a'', False, True), (draining_entry ''b'', True, False)])"
    using advance_entries_meets_spec [of "[(draining_entry ''a'', False, True), (draining_entry ''b'', True, False)]" 900 600 0]
    by blast
  also have "\<dots> = {#''a'', ''b''#}" by (simp add: draining_entry_def)
  finally show ?thesis .
qed

subsection \<open>Controller references in the status\<close>

text \<open>
  A controller written into the status reads back as itself, for every kind and namespace
  without a bar (Kubernetes names have none); the name may contain anything.
\<close>

theorem controller_reference_roundtrip:
  assumes "CHR ''|'' \<notin> set (cr_kind c)" and "CHR ''|'' \<notin> set (cr_namespace c)"
  shows "decode_controller (encode_controller c) = Some c"
  using assms splitn_append [of "CHR ''|''" "cr_kind c" 1 "cr_namespace c @ ''|'' @ cr_name c"]
    splitn_append [of "CHR ''|''" "cr_namespace c" 0 "cr_name c"]
  by (simp add: decode_controller_def encode_controller_def numeral_3_eq_3)

theorem controller_reference_roundtrip_witness:
  "decode_controller (encode_controller (ControllerRef ''Deployment'' ''kube-system'' ''coredns'')) =
     Some (ControllerRef ''Deployment'' ''kube-system'' ''coredns'')"
  using controller_reference_roundtrip [of "ControllerRef ''Deployment'' ''kube-system'' ''coredns''"] by simp

subsection \<open>Deadlines and panics\<close>

text \<open>
  The recovery deadline is the sum of two 64-bit second counts and wraps: with a drain timeout
  that saturates (the way to ask for no limit) and any positive recovery timeout, a node that has
  drained is declared failed at the first look at its controllers, however little time has passed.
\<close>

theorem saturated_drain_timeout_fails_at_once:
  assumes "i64_max \<le> int (saturating_mul_u64 drain_minutes 60)" and "1 \<le> stable_minutes" and "0 \<le> elapsed"
  shows "\<exists>reason. decide_entry state False False elapsed
      (i64_try_from_or_max (saturating_mul_u64 drain_minutes 60))
      (i64_try_from_or_max (saturating_mul_u64 stable_minutes 60)) = EntryFailed reason"
proof -
  define st where "st = i64_try_from_or_max (saturating_mul_u64 stable_minutes 60)"
  have "1 \<le> saturating_mul_u64 stable_minutes 60" using assms(2) by (simp add: saturating_mul_u64_def u64_max_def)
  then have st: "1 \<le> st" "st \<le> i64_max" by (auto simp: st_def i64_try_from_or_max_def i64_max_def)
  have d: "i64_try_from_or_max (saturating_mul_u64 drain_minutes 60) = i64_max"
    using assms(1) by (auto simp: i64_try_from_or_max_def)
  have "i64_max + st + 9223372036854775808 = (st - 1) + 18446744073709551616" by (simp add: i64_max_def)
  moreover have "(st - 1) mod 18446744073709551616 = st - 1" using st by (intro mod_pos_pos_trivial) (auto simp: i64_max_def)
  ultimately have "wrapping_add_i64 i64_max st = st - 1 - 9223372036854775808"
    unfolding wrapping_add_i64_def by (metis mod_add_self2)
  then have "wrapping_add_i64 i64_max st < 0" using st by (simp add: i64_max_def)
  then have "elapsed > wrapping_add_i64 i64_max st" using assms(3) by simp
  then show ?thesis unfolding d st_def [symmetric] by (simp add: decide_entry_def)
qed

theorem saturated_drain_timeout_fails_at_once_witness:
  "\<exists>reason. decide_entry STATE_DRAINING False False 0
      (i64_try_from_or_max (saturating_mul_u64 u64_max 60)) (i64_try_from_or_max (saturating_mul_u64 10 60)) = EntryFailed reason"
  by (rule saturated_drain_timeout_fails_at_once) (simp_all add: saturating_mul_u64_def u64_max_def i64_max_def)

text \<open>
  The Karpenter handler panics exactly when the spec carries no Karpenter configuration.
\<close>

lemma karpenter_panics_iff_unconfigured:
  "fst (karpenter_execute w spec s) = Panic \<longleftrightarrow> sp_karpenter_node_pools spec = None"
proof (cases "sp_karpenter_node_pools spec")
  case (Some config)
  have "fst (karpenter_execute w spec s) \<noteq> Panic"
  proof (cases "ph_karpenter_node_pools (st_phases s)")
    case (Some kp)
    then show ?thesis
    proof (cases "active_pool_index (ks_pools kp)")
      case (Some i)
      show ?thesis
        unfolding karpenter_execute_active [OF \<open>sp_karpenter_node_pools spec = Some config\<close>
            \<open>ph_karpenter_node_pools (st_phases s) = Some kp\<close> Some]
        by (auto simp: rbind_eq_Panic split: option.splits)
    qed (use \<open>sp_karpenter_node_pools spec = Some config\<close> in \<open>simp add: karpenter_execute_def Let_def\<close>)
  qed (use Some in \<open>simp add: karpenter_execute_def\<close>)
  then show ?thesis using Some by simp
qed (simp add: karpenter_execute_def)

definition refusing_world :: world where
  "refusing_world = (world_at no_answer_sdk 0)\<lparr>w_in_cluster := (pool_kube (\<lambda>_. ''v1.33.1''))
     \<lparr>k_delete_nodeclaim := (\<lambda>n. if n = ''a'' then Inr () else Inl (KubeApiError 500 ''etcd''))\<rparr>\<rparr>"

text \<open>
  A batch that fails half-way is forgotten. With two stale nodes, a maximum of two and an API
  server that accepts the first deletion and refuses the second, the handler returns the error
  and no status, although the first node claim is already deleted: nothing in the status says
  that its controllers must be waited for.
\<close>

theorem karpenter_partial_batch_is_forgotten:
  "\<exists>e. karpenter_execute refusing_world (karpenter_spec ''2'') (demo_pools_status [demo_pool]) =
     (Err e, [DeleteNodeClaim ''a'', DeleteNodeClaim ''b''])"
proof -
  let ?client = "(pool_kube (\<lambda>_. ''v1.33.1''))
     \<lparr>k_delete_nodeclaim := (\<lambda>n. if n = ''a'' then Inr () else Inl (KubeApiError 500 ''etcd''))\<rparr>"
  have active: "active_pool_index [demo_pool] = Some 0"
    by (simp add: active_pool_index_def pool_finished_def demo_pool_def)
  have "resolve_stale ?client ''default'' 34 [] =
      Ok ([\<lparr>nc_name = ''a'', nc_node_name = Some ''na'', nc_provider_id = None, nc_created_at = None\<rparr>,
           \<lparr>nc_name = ''b'', nc_node_name = Some ''nb'', nc_provider_id = None, nc_created_at = None\<rparr>], [''a'', ''b''])"
    by (simp add: resolve_stale_def demo_kube_defs stale_targets_def is_some_and_def is_stale_kubelet_def)
  then have "start_next_batch ?client (demo_pool\<lparr>kp_status := CInProgress\<rparr>) (demo_config ''2'') 34 0 =
      (Err (to_kuo_err (''Failed to delete NodeClaim '' @ ''b'') (KubeApiError 500 ''etcd'')), [DeleteNodeClaim ''a'', DeleteNodeClaim ''b''])"
    by (simp add: start_next_batch_def iobind_def lift_def emit_def ret_def demo_pool_def select_batch_def Let_def
        delete_nodeclaim_def demo_kube_defs)
  then show ?thesis
    using active
    by (subst karpenter_execute_active [of _ "demo_config ''2''" _ "\<lparr>ks_strategy = ''Replace'', ks_active_pool = None, ks_total_nodes = 0,
       ks_replaced_nodes = 0, ks_pools = [demo_pool]\<rparr>" 0])
      (simp_all add: karpenter_spec_def demo_pools_status_def refusing_world_def world_at_def target_client_def resolve_client_def
        demo_spec_def kp_pool_step_def demo_pool_def iobind_def)
qed

subsection \<open>Events are emitted once\<close>

lemma starting_events_length:
  "length (starting_events pool old k es) = length (filter (\<lambda>e. be_node_claim e \<notin> set old) es)"
  by (induction es arbitrary: k) (simp_all add: Let_def)

lemma filter_enumerate_ge: "length (filter (\<lambda>(i, x). k \<le> i) (enumerate n xs)) = length xs - (k - n)"
  by (induction xs arbitrary: n) (auto simp: Suc_diff_le)

lemma find_self:
  "distinct (map f xs) \<Longrightarrow> x \<in> set xs \<Longrightarrow> find (\<lambda>y. f y = f x) xs = Some x"
  by (induction xs) (auto simp: image_iff)

text \<open>
  One event is emitted for every claim that newly entered a pool's batch and one for every
  replacement recorded since the old status; in particular comparing a status with itself yields
  none, so re-reading an unchanged status repeats no event.
\<close>

theorem replacement_events_count:
  assumes "distinct (map kp_name (ks_pools old))"
  shows "replacement_events (Some old) (Some old) = [] \<and>
    (\<forall>p q. p \<in> set (ks_pools old) \<and> kp_name q = kp_name p \<longrightarrow>
       length (pool_events (Some old) q) =
         length (filter (\<lambda>e. be_node_claim e \<notin> set (map be_node_claim (kp_current_batch p))) (kp_current_batch q)) +
         (length (kp_replacements q) - length (kp_replacements p)))"
proof -
  have count: "length (pool_events (Some old) q) =
         length (filter (\<lambda>e. be_node_claim e \<notin> set (map be_node_claim (kp_current_batch p))) (kp_current_batch q)) +
         (length (kp_replacements q) - length (kp_replacements p))"
    if "p \<in> set (ks_pools old)" "kp_name q = kp_name p" for p q
  proof -
    have "find (\<lambda>p'. kp_name p' = kp_name q) (ks_pools old) = Some p"
      using find_self [OF assms that(1)] that(2) by simp
    then show ?thesis
      by (simp add: pool_events_def starting_events_length filter_enumerate_ge)
  qed
  have "pool_events (Some old) p = []" if "p \<in> set (ks_pools old)" for p
    using count [OF that refl] by (simp add: filter_empty_conv)
  then show ?thesis using count by (auto simp: replacement_events_def)
qed

theorem replacement_events_count_witness:
  "length (pool_events (Some \<lparr>ks_strategy = ''Replace'', ks_active_pool = None, ks_total_nodes = 0, ks_replaced_nodes = 0,
       ks_pools = [demo_pool]\<rparr>) (demo_pool\<lparr>kp_current_batch := [draining_entry ''a'']\<rparr>)) = 1"
  using replacement_events_count [of "\<lparr>ks_strategy = ''Replace'', ks_active_pool = None, ks_total_nodes = 0, ks_replaced_nodes = 0,
       ks_pools = [demo_pool]\<rparr>"]
  by (simp add: demo_pool_def)

end
