(* ===== verification/Kuo_ControlPlane.thy ===== *)
theory Kuo_ControlPlane
  imports Kuo_World
begin

section \<open>Control plane phase (phases/control_plane.rs)\<close>

text \<open>
  One step of the control plane upgrade per reconcile: poll the update in flight (or fail it on
  timeout), else start the next minor of the planned path. Reading the path out of range, or
  underflowing the 1-based step counter, is a panic of the model as it is of the code.
\<close>

definition CP_POLL_INTERVAL :: nat where
  "CP_POLL_INTERVAL = 30000"

definition upd_cp :: "(ControlPlaneStatus \<Rightarrow> ControlPlaneStatus) \<Rightarrow> EKSUpgradeStatus \<Rightarrow> EKSUpgradeStatus" where
  "upd_cp f = upd_phases (\<lambda>p. p\<lparr>ph_control_plane := map_option f (ph_control_plane p)\<rparr>)"

definition cp_advance_to_next_phase :: "timestamp \<Rightarrow> UpgradeMode \<Rightarrow> EKSUpgradeStatus \<Rightarrow> EKSUpgradeStatus" where
  "cp_advance_to_next_phase now mode s =
     (let s1 = upd_cp (\<lambda>cp. cp\<lparr>cp_update_id := None, cp_target := None, cp_started_at := None,
                               cp_completed_at := Some now\<rparr>) s
      in transition_to now (after_control_plane s1 mode) s1)"

definition process_update_result ::
    "timestamp \<Rightarrow> EKSUpgradeStatus \<Rightarrow> string \<Rightarrow> nat \<Rightarrow> nat \<Rightarrow> string \<Rightarrow> UpgradeMode \<Rightarrow>
     (EKSUpgradeStatus \<times> requeue) kuo_res" where
  "process_update_result now s status_str step total_steps target_version mode =
     (if status_str = ''Successful'' then
        (let next_step = as_u32 (step + 1)
         in case ph_control_plane (st_phases s) of
              None \<Rightarrow> Err (Anyhow ''control_plane status missing during upgrade'')
            | Some cp \<Rightarrow>
                (let s1 = upd_cp (\<lambda>cp. cp\<lparr>cp_current_step := next_step, cp_update_id := None,
                                           cp_target := None, cp_started_at := None\<rparr>) s;
                     s2 = s1\<lparr>st_current_version := Some target_version\<rparr>
                 in if next_step > total_steps then Ok (cp_advance_to_next_phase now mode s2, None)
                    else Ok (s2, Some 0)))
      else if status_str = ''Failed'' \<or> status_str = ''Cancelled'' then
        Ok (set_failed now (''Control plane upgrade to '' @ target_version @ '' failed'')
              (upd_cp (\<lambda>cp. cp\<lparr>cp_update_id := None\<rparr>) s), None)
      else Ok (s, Some CP_POLL_INTERVAL))"

definition apply_cp_timeout ::
    "timestamp \<Rightarrow> EKSUpgradeStatus \<Rightarrow> string \<Rightarrow> int \<Rightarrow> nat \<Rightarrow> string \<Rightarrow> EKSUpgradeStatus" where
  "apply_cp_timeout now s target_version elapsed_minutes timeout_minutes update_id =
     set_failed now
       (''Control plane upgrade to '' @ target_version @ '' timed out after '' @ show_int elapsed_minutes @
        '' minutes (limit: '' @ show_nat timeout_minutes @ '' minutes, update: '' @ update_id @ '')'')
       (upd_cp (\<lambda>cp. cp\<lparr>cp_update_id := None\<rparr>) s)"

definition cp_timed_out :: "timestamp \<Rightarrow> EKSUpgradeSpec \<Rightarrow> ControlPlaneStatus \<Rightarrow> int option" where
  "cp_timed_out now spec cp =
     (let timeout_minutes = (case sp_timeouts spec of None \<Rightarrow> 30 | Some t \<Rightarrow> tc_control_plane_minutes t)
      in case cp_started_at cp of
           None \<Rightarrow> None
         | Some step_started \<Rightarrow>
             (let elapsed = num_minutes (now - step_started)
              in if elapsed \<ge> as_i64 timeout_minutes then Some elapsed else None))"

definition cp_execute :: phase_step where
  "cp_execute w spec current_status =
     (case ph_control_plane (st_phases current_status) of
        None \<Rightarrow> (Err (Anyhow ''control_plane status must be set before this phase''), [])
      | Some cp \<Rightarrow>
         (let upgrade_path = (case ph_planning (st_phases current_status) of None \<Rightarrow> [] | Some p \<Rightarrow> pl_upgrade_path p);
              step = cp_current_step cp;
              total_steps = cp_total_steps cp
          in if step > total_steps then
               ret (cp_advance_to_next_phase (w_now w) (sp_upgrade_mode spec) current_status, None)
             else
               iobind (lift (index upgrade_path (if step = 0 then u32_max else step - 1))) (\<lambda>target_version.
               case cp_update_id cp of
                 Some update_id \<Rightarrow>
                   (case cp_timed_out (w_now w) spec cp of
                      Some elapsed \<Rightarrow>
                        ret (apply_cp_timeout (w_now w) current_status target_version elapsed
                               (case sp_timeouts spec of None \<Rightarrow> 30 | Some t \<Rightarrow> tc_control_plane_minutes t) update_id, None)
                    | None \<Rightarrow>
                        iobind (lift (check_update_status (eks_client w spec) (sp_cluster_name spec) update_id)) (\<lambda>status_str.
                        lift (process_update_result (w_now w) current_status status_str step total_steps target_version
                                (sp_upgrade_mode spec))))
               | None \<Rightarrow>
                   iobind (update_cluster_version (eks_client w spec) (sp_cluster_name spec) target_version) (\<lambda>update_id.
                   ret (upd_cp (\<lambda>cp. cp\<lparr>cp_target := Some target_version, cp_update_id := Some update_id,
                                        cp_started_at := Some (w_now w)\<rparr>) current_status,
                        Some CP_POLL_INTERVAL)))))"

subsection \<open>Frame\<close>

lemma upd_cp_sel [simp]:
  "st_phase (upd_cp f s) = st_phase s"
  "st_current_version (upd_cp f s) = st_current_version s"
  "st_last_transition (upd_cp f s) = st_last_transition s"
  "ph_control_plane (st_phases (upd_cp f s)) = map_option f (ph_control_plane (st_phases s))"
  "ph_planning (st_phases (upd_cp f s)) = ph_planning (st_phases s)"
  "ph_addons (st_phases (upd_cp f s)) = ph_addons (st_phases s)"
  "ph_nodegroups (st_phases (upd_cp f s)) = ph_nodegroups (st_phases s)"
  "ph_karpenter_node_pools (st_phases (upd_cp f s)) = ph_karpenter_node_pools (st_phases s)"
  "has_cp_steps (upd_cp f s) = has_cp_steps s" "has_addons (upd_cp f s) = has_addons s"
  "has_nodegroups (upd_cp f s) = has_nodegroups s" "has_karpenter (upd_cp f s) = has_karpenter s"
  by (simp_all add: upd_cp_def has_cp_steps_def has_addons_def has_nodegroups_def has_karpenter_def)

lemma same_plan_upd_cp [simp]:
  "(\<And>cp. cp_total_steps (f cp) = cp_total_steps cp) \<Longrightarrow> same_plan s (upd_cp f s') = same_plan s s'"
  by (simp add: same_plan_def upd_cp_def option.map_comp comp_def)

lemma same_plan_current_version [simp]: "same_plan s (s'\<lparr>st_current_version := v\<rparr>) = same_plan s s'"
  by (simp add: same_plan_def)

lemma after_control_plane_cong [simp]:
  "after_control_plane (upd_cp f s) mode = after_control_plane s mode"
  "after_control_plane (s\<lparr>st_current_version := v\<rparr>) mode = after_control_plane s mode"
  by (cases mode; simp add: has_addons_def has_nodegroups_def has_karpenter_def)+

lemma cp_advance_sel [simp]:
  "st_phase (cp_advance_to_next_phase now mode s) = Some (after_control_plane s mode)"
  "same_plan s0 (cp_advance_to_next_phase now mode s) = same_plan s0 s"
  "st_current_version (cp_advance_to_next_phase now mode s) = st_current_version s"
  "ph_control_plane (st_phases (cp_advance_to_next_phase now mode s)) =
     map_option (\<lambda>cp. cp\<lparr>cp_update_id := None, cp_target := None, cp_started_at := None, cp_completed_at := Some now\<rparr>)
       (ph_control_plane (st_phases s))"
  by (simp_all add: cp_advance_to_next_phase_def Let_def)

lemma process_update_result_contract:
  assumes "process_update_result now s st step total_steps v mode = Ok (s', r)"
  shows "same_plan s s'" and "st_phase s' = st_phase s \<or> st_phase s' = Some Failed \<or> st_phase s' = Some (after_control_plane s mode)"
  using assms by (auto simp: process_update_result_def Let_def split: if_splits option.splits)

lemma process_update_result_no_panic [simp]: "process_update_result now s st step total_steps v mode \<noteq> Panic"
  by (auto simp: process_update_result_def Let_def split: option.splits)

interpretation control_plane: work_phase cp_execute after_control_plane
    "\<lambda>f. \<exists>c v. f = UpdateClusterVersion c v"
proof
  fix w spec s s' r assume ok: "fst (cp_execute w spec s) = Ok (s', r)"
  show "same_plan s s'"
    using ok by (auto simp: cp_execute_def apply_cp_timeout_def Let_def process_update_result_contract
        split: if_splits option.splits)
  show "handler_next after_control_plane spec s s'"
    using ok by (auto simp: handler_next_def cp_execute_def apply_cp_timeout_def Let_def
        dest: process_update_result_contract(2) split: if_splits option.splits)
next
  fix f w spec s assume "f \<in> set (snd (cp_execute w spec s))"
  then show "\<exists>c v. f = UpdateClusterVersion c v"
    by (auto simp: cp_execute_def snd_iobind Let_def split: if_splits option.splits res.splits)
qed

subsection \<open>Requests, safety and the walk along the path\<close>

definition path_of :: "EKSUpgradeStatus \<Rightarrow> string list" where
  "path_of s = (case ph_planning (st_phases s) of None \<Rightarrow> [] | Some p \<Rightarrow> pl_upgrade_path p)"

definition cp_wf :: "EKSUpgradeStatus \<Rightarrow> bool" where
  "cp_wf s = (case ph_control_plane (st_phases s) of
      None \<Rightarrow> True
    | Some cp \<Rightarrow> 1 \<le> cp_current_step cp \<and> cp_total_steps cp \<le> length (path_of s) \<and> cp_total_steps cp < u32_max)"

lemma path_of_sel [simp]:
  "path_of (upd_cp f s) = path_of s" "path_of (s\<lparr>st_current_version := v\<rparr>) = path_of s"
  "path_of (set_failed now m s) = path_of s" "path_of (transition_to now p s) = path_of s"
  "path_of (cp_advance_to_next_phase now mode s) = path_of s"
  by (simp_all add: path_of_def cp_advance_to_next_phase_def Let_def)

lemma cp_execute_effects:
  assumes "cp_wf s" and "ph_control_plane (st_phases s) = Some cp"
  shows "snd (cp_execute w spec s) =
    (if cp_current_step cp \<le> cp_total_steps cp \<and> cp_update_id cp = None
     then [UpdateClusterVersion (sp_cluster_name spec) (path_of s ! (cp_current_step cp - 1))] else [])"
  using assms
  by (auto simp: cp_execute_def cp_wf_def snd_iobind path_of_def index_def Let_def
      split: option.splits res.splits)

lemma cp_execute_no_panic: "cp_wf s \<Longrightarrow> fst (cp_execute w spec s) \<noteq> Panic"
  by (auto simp: cp_execute_def cp_wf_def rbind_eq_Panic path_of_def Let_def split: option.splits)

lemma process_update_result_wf:
  assumes "process_update_result now s st (cp_current_step cp) (cp_total_steps cp) v mode = Ok (s', r)"
    and "cp_wf s" and "ph_control_plane (st_phases s) = Some cp" and "cp_current_step cp \<le> cp_total_steps cp"
  shows "cp_wf s'"
  using assms by (auto simp: process_update_result_def cp_wf_def as_u32_def u32_max_def Let_def split: if_splits)

lemma cp_wf_frame [simp]:
  "(\<And>cp. cp_current_step (f cp) = cp_current_step cp \<and> cp_total_steps (f cp) = cp_total_steps cp) \<Longrightarrow>
     cp_wf (upd_cp f s) = cp_wf s"
  "cp_wf (set_failed now m s) = cp_wf s" "cp_wf (cp_advance_to_next_phase now mode s) = cp_wf s"
  "cp_wf (transition_to now p s) = cp_wf s"
  by (simp_all add: cp_wf_def split: option.splits)

lemma cp_execute_wf:
  assumes wf: "cp_wf s" and ok: "fst (cp_execute w spec s) = Ok (s', r)"
  shows "cp_wf s'"
proof (cases "ph_control_plane (st_phases s)")
  case None
  then show ?thesis using ok by (simp add: cp_execute_def)
next
  case (Some cp)
  show ?thesis
  proof (cases "cp_total_steps cp < cp_current_step cp")
    case True
    then show ?thesis using ok wf Some by (auto simp: cp_execute_def Let_def)
  next
    case False
    then show ?thesis
      using ok wf Some process_update_result_wf [OF _ wf Some]
      by (auto simp: cp_execute_def apply_cp_timeout_def Let_def split: option.splits)
  qed
qed

text \<open>The step moves when EKS reports the update in flight as successful, and at no other time.\<close>

definition cp_advances :: "world \<Rightarrow> EKSUpgradeSpec \<Rightarrow> ControlPlaneStatus \<Rightarrow> bool" where
  "cp_advances w spec cp \<longleftrightarrow> cp_current_step cp \<le> cp_total_steps cp \<and> cp_timed_out (w_now w) spec cp = None \<and>
     (case cp_update_id cp of None \<Rightarrow> False
      | Some update_id \<Rightarrow> check_update_status (eks_client w spec) (sp_cluster_name spec) update_id = Ok ''Successful'')"

lemma process_update_result_step:
  assumes "process_update_result now s st step total_steps v mode = Ok (s', r)" "ph_control_plane (st_phases s) = Some cp"
    and "cp_current_step cp = step" "as_u32 (step + 1) = step + 1"
  shows "\<exists>cp'. ph_control_plane (st_phases s') = Some cp' \<and> cp_total_steps cp' = cp_total_steps cp \<and>
    cp_current_step cp' = (if st = ''Successful'' then step + 1 else step)"
proof (cases "st = ''Successful''")
  case True
  then show ?thesis using assms by (auto simp: process_update_result_def Let_def split: if_splits)
next
  case False
  then show ?thesis using assms by (auto simp: process_update_result_def split: if_splits)
qed

lemma cp_execute_step:
  assumes wf: "cp_wf s" and cp: "ph_control_plane (st_phases s) = Some cp" and ok: "fst (cp_execute w spec s) = Ok (s', r)"
  shows "\<exists>cp'. ph_control_plane (st_phases s') = Some cp' \<and> cp_total_steps cp' = cp_total_steps cp \<and>
    cp_current_step cp' = (if cp_advances w spec cp then cp_current_step cp + 1 else cp_current_step cp)"
proof (cases "cp_total_steps cp < cp_current_step cp")
  case True
  then show ?thesis using ok cp by (auto simp: cp_execute_def Let_def cp_advances_def)
next
  case False
  let ?v = "path_of s ! (cp_current_step cp - 1)"
  have small: "as_u32 (cp_current_step cp + 1) = cp_current_step cp + 1"
    using wf cp False by (simp add: cp_wf_def as_u32_def u32_max_def)
  have v: "index (path_of s) (if cp_current_step cp = 0 then u32_max else cp_current_step cp - 1) = Ok ?v" "cp_current_step cp \<noteq> 0"
    using wf cp False by (auto simp: cp_wf_def index_def)
  note run = cp_execute_def cp path_of_def [symmetric] v Let_def
  show ?thesis
  proof (cases "cp_update_id cp")
    case None
    have "s' \<in> {upd_cp (\<lambda>cp. cp\<lparr>cp_target := Some ?v, cp_update_id := Some u, cp_started_at := Some (w_now w)\<rparr>) s | u. True}"
      using ok False None by (auto simp: run)
    then show ?thesis using cp None by (auto simp: cp_advances_def)
  next
    case id: (Some u)
    show ?thesis
    proof (cases "cp_timed_out (w_now w) spec cp")
      case (Some m)
      then show ?thesis using ok False id cp by (auto simp: run apply_cp_timeout_def cp_advances_def)
    next
      case None
      then obtain st where st: "check_update_status (eks_client w spec) (sp_cluster_name spec) u = Ok st"
        "process_update_result (w_now w) s st (cp_current_step cp) (cp_total_steps cp) ?v (sp_upgrade_mode spec) = Ok (s', r)"
        using ok False id by (auto simp: run)
      have "cp_advances w spec cp \<longleftrightarrow> st = ''Successful''" using None id st(1) False by (simp add: cp_advances_def)
      then show ?thesis using process_update_result_step [OF st(2) cp refl small] by simp
    qed
  qed
qed

text \<open>
  C9. In a well-formed control plane status (the step is at least one and the planned path is as long as the
  number of steps), one execution of the handler asks EKS for a version update exactly when a step is left
  and no update is in flight, and then for the planned version of that step. It never panics. When it produces
  a status, that is well-formed with the same path, and the step has moved, by one, exactly when EKS reported
  the update in flight as successful before its timeout; so from a step no further than one past the path it
  never gets further. An update in flight is polled and never issued a second time.
\<close>

theorem control_plane_requests_planned_step_once:
  assumes "cp_wf s" and "ph_control_plane (st_phases s) = Some cp"
  shows "snd (cp_execute w spec s) =
           (if cp_current_step cp \<le> cp_total_steps cp \<and> cp_update_id cp = None
            then [UpdateClusterVersion (sp_cluster_name spec) (path_of s ! (cp_current_step cp - 1))] else [])
         \<and> fst (cp_execute w spec s) \<noteq> Panic
         \<and> (\<forall>s' r. fst (cp_execute w spec s) = Ok (s', r) \<longrightarrow> cp_wf s' \<and> path_of s' = path_of s \<and>
              (\<exists>cp'. ph_control_plane (st_phases s') = Some cp' \<and> cp_total_steps cp' = cp_total_steps cp \<and>
                 cp_current_step cp' = (if cp_advances w spec cp then cp_current_step cp + 1 else cp_current_step cp) \<and>
                 cp_current_step cp' \<le> max (cp_current_step cp) (cp_total_steps cp + 1)))"
proof (intro conjI allI impI)
  show "snd (cp_execute w spec s) =
           (if cp_current_step cp \<le> cp_total_steps cp \<and> cp_update_id cp = None
            then [UpdateClusterVersion (sp_cluster_name spec) (path_of s ! (cp_current_step cp - 1))] else [])"
    by (rule cp_execute_effects [OF assms])
  show "fst (cp_execute w spec s) \<noteq> Panic" by (rule cp_execute_no_panic [OF assms(1)])
next
  fix s' r assume ok: "fst (cp_execute w spec s) = Ok (s', r)"
  show "cp_wf s'" by (rule cp_execute_wf [OF assms(1) ok])
  show "path_of s' = path_of s"
    using control_plane.exec_same_plan [OF ok] by (simp add: same_plan_def path_of_def)
  show "\<exists>cp'. ph_control_plane (st_phases s') = Some cp' \<and> cp_total_steps cp' = cp_total_steps cp \<and>
      cp_current_step cp' = (if cp_advances w spec cp then cp_current_step cp + 1 else cp_current_step cp) \<and>
      cp_current_step cp' \<le> max (cp_current_step cp) (cp_total_steps cp + 1)"
    using cp_execute_step [OF assms ok] by (auto simp: cp_advances_def)
qed

definition two_minors_status :: EKSUpgradeStatus where
  "two_minors_status = default_status\<lparr>st_phase := Some UpgradingControlPlane, st_current_version := Some ''1.32'',
     st_phases := default_phases\<lparr>
       ph_planning := Some \<lparr>pl_source_version = Some ''1.32'', pl_upgrade_path = [''1.33'', ''1.34'']\<rparr>,
       ph_control_plane := Some \<lparr>cp_current_step = 1, cp_total_steps = 2, cp_target = None, cp_update_id = None,
                                 cp_started_at = None, cp_completed_at = None\<rparr>\<rparr>\<rparr>"

definition granting_sdk :: eks_sdk where
  "granting_sdk = no_answer_sdk\<lparr>sdk_update_cluster_version := (\<lambda>_ _. Inr (Some ''u-1'')),
     sdk_describe_update := (\<lambda>_ _ _. Inr (Some ''Successful''))\<rparr>"

theorem control_plane_requests_planned_step_once_witness:
  "snd (cp_execute (world_at granting_sdk 0) demo_spec two_minors_status) = [UpdateClusterVersion ''prod'' ''1.33'']"
proof -
  have "cp_wf two_minors_status"
    by (simp add: cp_wf_def two_minors_status_def path_of_def u32_max_def)
  moreover have "ph_control_plane (st_phases two_minors_status) =
      Some \<lparr>cp_current_step = 1, cp_total_steps = 2, cp_target = None, cp_update_id = None,
            cp_started_at = None, cp_completed_at = None\<rparr>"
    by (simp add: two_minors_status_def)
  ultimately show ?thesis
    using control_plane_requests_planned_step_once [of two_minors_status _ "world_at granting_sdk 0" demo_spec]
    by (simp add: two_minors_status_def path_of_def demo_spec_def)
qed

text \<open>EKS accepts the update in the first world of a pair and reports success in the second, in time.\<close>

definition cp_cooperates :: "EKSUpgradeSpec \<Rightarrow> world \<times> world \<Rightarrow> bool" where
  "cp_cooperates spec ab \<longleftrightarrow>
     (\<forall>v. \<exists>u. sdk_update_cluster_version (w_sdk (fst ab)) (sp_cluster_name spec) v = Inr u) \<and>
     (\<forall>u. sdk_describe_update (w_sdk (snd ab)) (sp_cluster_name spec) None u = Inr (Some ''Successful'')) \<and>
     num_minutes (w_now (snd ab) - w_now (fst ab)) <
       as_i64 (case sp_timeouts spec of None \<Rightarrow> 30 | Some t \<Rightarrow> tc_control_plane_minutes t)"

definition cp_step_done :: "nat \<Rightarrow> string \<Rightarrow> EKSUpgradeStatus \<Rightarrow> EKSUpgradeStatus" where
  "cp_step_done step v s =
     (upd_cp (\<lambda>cp. cp\<lparr>cp_current_step := Suc step, cp_update_id := None, cp_target := None, cp_started_at := None\<rparr>) s)
       \<lparr>st_current_version := Some v\<rparr>"

lemma upd_cp_comp: "upd_cp f (upd_cp g s) = upd_cp (f \<circ> g) s"
  by (simp add: upd_cp_def upd_phases_def option.map_comp)

lemma cp_pair:
  assumes wf: "cp_wf s" and cp: "ph_control_plane (st_phases s) = Some cp"
    and idle: "cp_update_id cp = None" and left: "cp_current_step cp \<le> cp_total_steps cp"
    and coop: "cp_cooperates spec (a, b)"
  defines "v \<equiv> path_of s ! (cp_current_step cp - 1)"
  shows "run_handler cp_execute spec [a, b] s =
    (Ok (if cp_total_steps cp = cp_current_step cp
         then cp_advance_to_next_phase (w_now b) (sp_upgrade_mode spec) (cp_step_done (cp_current_step cp) v s)
         else cp_step_done (cp_current_step cp) v s), [UpdateClusterVersion (sp_cluster_name spec) v])"
proof -
  from coop obtain u where u: "sdk_update_cluster_version (w_sdk a) (sp_cluster_name spec) v = Inr u"
    by (auto simp: cp_cooperates_def)
  define s1 where "s1 = upd_cp (\<lambda>cp. cp\<lparr>cp_target := Some v, cp_update_id := Some (unwrap_or_default u),
                                   cp_started_at := Some (w_now a)\<rparr>) s"
  have range: "cp_current_step cp - Suc 0 < length (path_of s)" "cp_current_step cp \<noteq> 0"
      "as_u32 (Suc (cp_current_step cp)) = Suc (cp_current_step cp)"
    using wf cp left by (auto simp: cp_wf_def)
  have a: "cp_execute a spec s = (Ok (s1, Some CP_POLL_INTERVAL), [UpdateClusterVersion (sp_cluster_name spec) v])"
    using cp idle left range u
    by (auto simp: cp_execute_def iobind_def index_def path_of_def v_def s1_def update_cluster_version_def
        eks_client_def emit_def ret_def lift_def Let_def)
  have b: "cp_execute b spec s1 =
      (Ok (if cp_total_steps cp = cp_current_step cp
           then (cp_advance_to_next_phase (w_now b) (sp_upgrade_mode spec) (cp_step_done (cp_current_step cp) v s), None)
           else (cp_step_done (cp_current_step cp) v s, Some 0)), [])"
    using cp left range coop
    by (auto simp: cp_execute_def iobind_def index_def path_of_def v_def s1_def check_update_status_def cp_timed_out_def
        eks_client_def lift_def cp_cooperates_def process_update_result_def unwrap_or_def cp_step_done_def
        upd_cp_comp comp_def Let_def)
  show ?thesis using a b by (simp add: iobind_def ret_def)
qed

lemma cp_step_done_sel [simp]:
  "path_of (cp_step_done k v s) = path_of s"
  "after_control_plane (cp_step_done k v s) mode = after_control_plane s mode"
  "st_current_version (cp_step_done k v s) = Some v"
  "ph_control_plane (st_phases (cp_step_done k v s)) =
     map_option (\<lambda>cp. cp\<lparr>cp_current_step := Suc k, cp_update_id := None, cp_target := None, cp_started_at := None\<rparr>)
       (ph_control_plane (st_phases s))"
  by (simp_all add: cp_step_done_def)

text \<open>
  C8. With an EKS that accepts every update and reports it successful within the time limit, the
  control plane phase asks for exactly the remaining versions of the planned path, each once and
  in order, ends in the phase the routing table names, and records the last version of the path
  as the cluster's current version. It needs two reconciles per version.
\<close>

theorem control_plane_walks_the_path:
  assumes "cp_wf s" and "ph_control_plane (st_phases s) = Some cp" and "cp_update_id cp = None"
    and "cp_total_steps cp = length (path_of s)" and "cp_current_step cp \<le> cp_total_steps cp"
    and "length pairs = Suc (cp_total_steps cp) - cp_current_step cp"
    and "list_all (cp_cooperates spec) pairs"
  shows "\<exists>s'. run_handler cp_execute spec (concat (map (\<lambda>(a, b). [a, b]) pairs)) s =
           (Ok s', map (UpdateClusterVersion (sp_cluster_name spec)) (drop (cp_current_step cp - 1) (path_of s)))
         \<and> st_phase s' = Some (after_control_plane s (sp_upgrade_mode spec))
         \<and> st_current_version s' = Some (last (path_of s))"
  using assms
proof (induction pairs arbitrary: s cp)
  case Nil
  then show ?case by simp
next
  case (Cons ab pairs)
  obtain a b where ab: "ab = (a, b)" by force
  define k where "k = cp_current_step cp"
  define v where "v = path_of s ! (k - 1)"
  have coop: "cp_cooperates spec (a, b)" using Cons.prems(7) ab by simp
  have k: "1 \<le> k" "k \<le> length (path_of s)" "length pairs = length (path_of s) - k"
    using Cons.prems by (auto simp: cp_wf_def k_def)
  have drop: "drop (k - 1) (path_of s) = v # drop k (path_of s)"
    using k Cons_nth_drop_Suc [of "k - 1" "path_of s"] by (simp add: v_def)
  note run = cp_pair [OF Cons.prems(1,2,3,5) coop, folded k_def, folded v_def]
  show ?case
  proof (cases "k = length (path_of s)")
    case True
    moreover from k have "path_of s \<noteq> []" by auto
    ultimately have "last (path_of s) = v" by (simp add: v_def last_conv_nth)
    then show ?thesis using run True k drop Cons.prems(4) ab by (simp add: k_def [symmetric])
  next
    case False
    have "cp_wf (cp_step_done k v s)" using Cons.prems(1,2) k False by (simp add: cp_wf_def)
    then obtain s' where "run_handler cp_execute spec (concat (map (\<lambda>(a, b). [a, b]) pairs)) (cp_step_done k v s) =
        (Ok s', map (UpdateClusterVersion (sp_cluster_name spec)) (drop k (path_of s)))"
      and "st_phase s' = Some (after_control_plane s (sp_upgrade_mode spec))"
      and "st_current_version s' = Some (last (path_of s))"
      using Cons.IH [of "cp_step_done k v s" "cp\<lparr>cp_current_step := Suc k, cp_update_id := None, cp_target := None, cp_started_at := None\<rparr>"]
        Cons.prems k False by auto
    moreover have "run_handler cp_execute spec (concat (map (\<lambda>(a, b). [a, b]) (ab # pairs))) s =
        iobind (run_handler cp_execute spec [a, b] s) (run_handler cp_execute spec (concat (map (\<lambda>(a, b). [a, b]) pairs)))"
      using run_handler_append [of cp_execute spec "[a, b]" "concat (map (\<lambda>(a, b). [a, b]) pairs)" s] ab by simp
    ultimately show ?thesis
      using False Cons.prems(4) unfolding run by (simp add: k_def [symmetric] drop [unfolded One_nat_def] iobind_def)
  qed
qed

theorem control_plane_walks_the_path_witness:
  "\<exists>s'. run_handler cp_execute demo_spec
      [world_at granting_sdk 0, world_at granting_sdk 60000000000, world_at granting_sdk 90000000000, world_at granting_sdk 150000000000]
      two_minors_status = (Ok s', [UpdateClusterVersion ''prod'' ''1.33'', UpdateClusterVersion ''prod'' ''1.34''])
    \<and> st_phase s' = Some Completed \<and> st_current_version s' = Some ''1.34''"
proof -
  define cp where "cp = \<lparr>cp_current_step = 1, cp_total_steps = 2, cp_target = None, cp_update_id = None,
            cp_started_at = None, cp_completed_at = None\<rparr>"
  define pairs where "pairs = [(world_at granting_sdk 0, world_at granting_sdk 60000000000),
    (world_at granting_sdk 90000000000, world_at granting_sdk 150000000000)]"
  have "cp_wf two_minors_status"
    by (simp add: cp_wf_def two_minors_status_def path_of_def u32_max_def)
  moreover have "ph_control_plane (st_phases two_minors_status) = Some cp"
    by (simp add: two_minors_status_def cp_def)
  moreover have "list_all (cp_cooperates demo_spec) pairs"
    by (simp add: pairs_def cp_cooperates_def world_at_def granting_sdk_def demo_spec_def num_minutes_def
        num_seconds_def trunc_div_def as_i64_def)
  ultimately show ?thesis
    using control_plane_walks_the_path [of two_minors_status cp pairs demo_spec]
    by (simp add: two_minors_status_def path_of_def demo_spec_def cp_def pairs_def has_addons_def
        has_nodegroups_def has_karpenter_def default_phases_def del: run_handler.simps)
qed

end
