(* ===== verification/Kuo_Components.thy ===== *)
theory Kuo_Components
  imports Kuo_World Kuo_Addon
begin

section \<open>Add-on and node group phases (phases/addons.rs, phases/nodegroups.rs)\<close>

text \<open>
  Both phases work through a list one component at a time: the first component that is neither
  completed nor skipped is started if it is pending and polled if it is in progress. The locale
  \<open>component_phase\<close> states what one such handler promises and proves once that it drains its
  list; it is interpreted on the add-on handler and on the node group handler.
\<close>

subsection \<open>The contract of a phase that drains a list\<close>

locale component_phase = work_queue finished active
  for finished :: "'c \<Rightarrow> bool" and active :: "'c list \<Rightarrow> nat option" +
  fixes items :: "EKSUpgradeStatus \<Rightarrow> 'c list"
    and pending :: "'c \<Rightarrow> bool"
    and request :: "EKSUpgradeSpec \<Rightarrow> 'c \<Rightarrow> effect"
    and exec :: phase_step
    and after :: "EKSUpgradeStatus \<Rightarrow> UpgradeMode \<Rightarrow> UpgradePhase"
    and cooperates :: "EKSUpgradeSpec \<Rightarrow> world \<times> world \<Rightarrow> bool"
  assumes exec_done: "active (items s) = None \<Longrightarrow>
      exec w spec s = (Ok (transition_to (w_now w) (after s (sp_upgrade_mode spec)) s, None), [])"
    and exec_pair: "active (items s) = Some i \<Longrightarrow> pending (items s ! i) \<Longrightarrow> cooperates spec (a, b) \<Longrightarrow>
      \<exists>s' c. run_handler exec spec [a, b] s = (Ok s', [request spec (items s ! i)]) \<and>
             items s' = (items s)[i := c] \<and> finished c \<and> same_plan s s'"
    and after_same_plan: "same_plan s s' \<Longrightarrow> after s' mode = after s mode"
    and items_transition: "items (transition_to now p s) = items s"
begin

lemma filter_first_unfinished:
  assumes "active cs = Some i" and "finished c"
  shows "filter (\<lambda>x. \<not> finished x) cs = cs ! i # filter (\<lambda>x. \<not> finished x) (cs[i := c])"
proof -
  note i = active_Some [OF assms(1)]
  have before: "filter (\<lambda>x. \<not> finished x) (take i cs) = []"
    using i(1,3) by (auto simp: filter_empty_conv in_set_conv_nth)
  have "cs = take i cs @ cs ! i # drop (Suc i) cs" by (rule id_take_nth_drop [OF i(1)])
  then have "filter (\<lambda>x. \<not> finished x) cs = cs ! i # filter (\<lambda>x. \<not> finished x) (drop (Suc i) cs)"
    using before i(2) by (metis append_Nil filter.simps(2) filter_append)
  moreover have "filter (\<lambda>x. \<not> finished x) (cs[i := c]) = filter (\<lambda>x. \<not> finished x) (drop (Suc i) cs)"
    using before assms(2) i(1) by (simp add: upd_conv_take_nth_drop)
  ultimately show ?thesis by simp
qed

text \<open>Two reconciles per unfinished component and one to leave the phase.\<close>

lemma drains:
  assumes "\<forall>c \<in> set (items s). finished c \<or> pending c"
    and "length pairs = remaining (items s)" and "list_all (cooperates spec) pairs"
  shows "\<exists>s'. run_handler exec spec (concat (map (\<lambda>(a, b). [a, b]) pairs) @ [w]) s =
           (Ok s', map (request spec) (filter (\<lambda>c. \<not> finished c) (items s)))
         \<and> st_phase s' = Some (after s (sp_upgrade_mode spec)) \<and> active (items s') = None"
  using assms
proof (induction pairs arbitrary: s)
  case Nil
  then have idle: "active (items s) = None" by (simp add: remaining_zero)
  then have "filter (\<lambda>c. \<not> finished c) (items s) = []" by (simp add: active_None filter_empty_conv)
  then show ?case using idle exec_done [OF idle] by (simp add: iobind_def ret_def items_transition)
next
  case (Cons ab pairs)
  obtain a b where ab: "ab = (a, b)" by force
  from Cons.prems(2) obtain i where i: "active (items s) = Some i"
    using remaining_zero [of "items s"] by (cases "active (items s)") auto
  have pend: "pending (items s ! i)" using Cons.prems(1) active_Some [OF i] nth_mem by metis
  from Cons.prems(3) ab have "cooperates spec (a, b)" by simp
  from exec_pair [OF i pend this] obtain s1 c where
    run: "run_handler exec spec [a, b] s = (Ok s1, [request spec (items s ! i)])" and
    s1: "items s1 = (items s)[i := c]" "finished c" "same_plan s s1" by blast
  have "\<forall>c \<in> set (items s1). finished c \<or> pending c"
    using Cons.prems(1) s1(1,2) set_update_subset_insert [of "items s" i c] by auto
  moreover have "length pairs = remaining (items s1)"
    using remaining_finish [OF i s1(2)] Cons.prems(2) s1(1) by simp
  ultimately obtain s' where
    IH: "run_handler exec spec (concat (map (\<lambda>(a, b). [a, b]) pairs) @ [w]) s1 =
      (Ok s', map (request spec) (filter (\<lambda>c. \<not> finished c) (items s1)))"
    "st_phase s' = Some (after s1 (sp_upgrade_mode spec))" "active (items s') = None"
    using Cons.IH [of s1] Cons.prems(3) by auto
  have "run_handler exec spec (concat (map (\<lambda>(a, b). [a, b]) (ab # pairs)) @ [w]) s =
      iobind (run_handler exec spec [a, b] s) (run_handler exec spec (concat (map (\<lambda>(a, b). [a, b]) pairs) @ [w]))"
    using run_handler_append [of exec spec "[a, b]" "concat (map (\<lambda>(a, b). [a, b]) pairs) @ [w]" s] ab by simp
  also have "\<dots> = (Ok s', map (request spec) (filter (\<lambda>c. \<not> finished c) (items s)))"
    unfolding run filter_first_unfinished [OF i s1(2)] using IH(1) s1(1) by (simp add: iobind_def)
  finally show ?case using IH(2,3) after_same_plan [OF s1(3)] by auto
qed

end

subsection \<open>Add-ons\<close>

definition ADDON_POLL_INTERVAL :: nat where
  "ADDON_POLL_INTERVAL = 15000"

text \<open>Assigning to \<^verbatim>\<open>new_status.phases.addons[idx]\<close>: a panic out of range.\<close>

definition upd_addon :: "nat \<Rightarrow> (AddonStatus \<Rightarrow> AddonStatus) \<Rightarrow> EKSUpgradeStatus \<Rightarrow> EKSUpgradeStatus kuo_res" where
  "upd_addon idx f s =
     rbind (index (ph_addons (st_phases s)) idx) (\<lambda>a.
     Ok (upd_phases (\<lambda>p. p\<lparr>ph_addons := (ph_addons p)[idx := f a]\<rparr>) s))"

definition apply_addon_poll_result ::
    "timestamp \<Rightarrow> EKSUpgradeStatus \<Rightarrow> nat \<Rightarrow> string \<Rightarrow> string \<Rightarrow> (EKSUpgradeStatus \<times> requeue) kuo_res" where
  "apply_addon_poll_result now s idx addon_name poll_result =
     (if poll_result = ''ACTIVE'' then
        rbind (upd_addon idx (\<lambda>a. a\<lparr>as_status := CCompleted, as_completed_at := Some now\<rparr>) s) (\<lambda>s'.
        Ok (s', Some 0))
      else if poll_result \<in> {''CREATE_FAILED'', ''UPDATE_FAILED'', ''DELETE_FAILED'', ''DEGRADED''} then
        rbind (upd_addon idx (\<lambda>a. a\<lparr>as_status := CFailed, as_completed_at := Some now\<rparr>) s) (\<lambda>s'.
        Ok (set_failed now (''Addon '' @ addon_name @ '' upgrade failed: '' @ poll_result) s', None))
      else Ok (s, Some ADDON_POLL_INTERVAL))"

definition addon_finished :: "AddonStatus \<Rightarrow> bool" where
  "addon_finished a \<longleftrightarrow> as_status a = CCompleted \<or> as_status a = CSkipped"

definition find_active_addon :: "AddonStatus list \<Rightarrow> nat option" where
  "find_active_addon = position (\<lambda>a. as_status a \<noteq> CCompleted \<and> as_status a \<noteq> CSkipped)"

definition addons_advance_to_next_phase :: "timestamp \<Rightarrow> UpgradeMode \<Rightarrow> EKSUpgradeStatus \<Rightarrow> EKSUpgradeStatus" where
  "addons_advance_to_next_phase now mode s = transition_to now (after_addons s mode) s"

definition addons_execute :: phase_step where
  "addons_execute w spec s =
     (case find_active_addon (ph_addons (st_phases s)) of
        None \<Rightarrow> ret (addons_advance_to_next_phase (w_now w) (sp_upgrade_mode spec) s, None)
      | Some idx \<Rightarrow>
          iobind (lift (index (ph_addons (st_phases s)) idx)) (\<lambda>addon_status.
          case as_status addon_status of
            CPending \<Rightarrow>
              iobind (update_addon (w_sdk w) (sp_cluster_name spec) (as_name addon_status) (as_target_version addon_status)) (\<lambda>_.
              iobind (lift (upd_addon idx (\<lambda>a. a\<lparr>as_status := CInProgress, as_started_at := Some (w_now w)\<rparr>) s)) (\<lambda>s'.
              ret (s', Some ADDON_POLL_INTERVAL)))
          | CInProgress \<Rightarrow>
              iobind (lift (poll_addon_status (w_sdk w) (sp_cluster_name spec) (as_name addon_status))) (\<lambda>status_str.
              lift (apply_addon_poll_result (w_now w) s idx (as_name addon_status) status_str))
          | CFailed \<Rightarrow>
              ret (set_failed (w_now w) (''Addon '' @ as_name addon_status @ '' is in failed state'') s, None)
          | _ \<Rightarrow> ret (s, Some 0)))"

subsection \<open>Node groups\<close>

definition NG_POLL_INTERVAL :: nat where
  "NG_POLL_INTERVAL = 30000"

definition nodegroup_finished :: "NodegroupStatus \<Rightarrow> bool" where
  "nodegroup_finished n \<longleftrightarrow> ng_status n = CCompleted \<or> ng_status n = CSkipped"

definition active_nodegroup :: "NodegroupStatus list \<Rightarrow> nat option" where
  "active_nodegroup = position (\<lambda>n. ng_status n \<noteq> CCompleted \<and> ng_status n \<noteq> CSkipped)"

definition find_active_nodegroup :: "EKSUpgradeStatus \<Rightarrow> nat option" where
  "find_active_nodegroup s = active_nodegroup (ph_nodegroups (st_phases s))"

definition upd_nodegroup :: "nat \<Rightarrow> (NodegroupStatus \<Rightarrow> NodegroupStatus) \<Rightarrow> EKSUpgradeStatus \<Rightarrow> EKSUpgradeStatus kuo_res" where
  "upd_nodegroup idx f s =
     rbind (index (ph_nodegroups (st_phases s)) idx) (\<lambda>n.
     Ok (upd_phases (\<lambda>p. p\<lparr>ph_nodegroups := (ph_nodegroups p)[idx := f n]\<rparr>) s))"

definition apply_poll_result ::
    "timestamp \<Rightarrow> EKSUpgradeStatus \<Rightarrow> nat \<Rightarrow> string \<Rightarrow> string \<Rightarrow> (EKSUpgradeStatus \<times> requeue) kuo_res" where
  "apply_poll_result now s idx name poll_result =
     (if poll_result = ''Successful'' then
        rbind (upd_nodegroup idx (\<lambda>n. n\<lparr>ng_status := CCompleted, ng_update_id := None, ng_started_at := None,
                                        ng_completed_at := Some now\<rparr>) s) (\<lambda>s'.
        Ok (s', Some 0))
      else if poll_result = ''Failed'' \<or> poll_result = ''Cancelled'' then
        rbind (upd_nodegroup idx (\<lambda>n. n\<lparr>ng_status := CFailed, ng_update_id := None\<rparr>) s) (\<lambda>s'.
        Ok (set_failed now (''Nodegroup '' @ name @ '' upgrade failed: '' @ poll_result) s', None))
      else Ok (s, Some NG_POLL_INTERVAL))"

definition apply_timeout :: "timestamp \<Rightarrow> EKSUpgradeStatus \<Rightarrow> nat \<Rightarrow> string \<Rightarrow> int \<Rightarrow> nat \<Rightarrow> EKSUpgradeStatus kuo_res" where
  "apply_timeout now s idx name elapsed_minutes timeout_minutes =
     rbind (upd_nodegroup idx (\<lambda>n. n\<lparr>ng_status := CFailed, ng_update_id := None\<rparr>) s) (\<lambda>s'.
     Ok (set_failed now
           (''Nodegroup '' @ name @ '' upgrade timed out after '' @ show_int elapsed_minutes @
            '' minutes (limit: '' @ show_nat timeout_minutes @ '' minutes)'') s'))"

definition ng_timed_out :: "timestamp \<Rightarrow> nat \<Rightarrow> NodegroupStatus \<Rightarrow> int option" where
  "ng_timed_out now timeout_minutes n =
     (case ng_started_at n of
        None \<Rightarrow> None
      | Some ng_started \<Rightarrow>
          (let elapsed = num_minutes (now - ng_started)
           in if elapsed \<ge> as_i64 timeout_minutes then Some elapsed else None))"

definition nodegroups_execute :: phase_step where
  "nodegroups_execute w spec s =
     (case find_active_nodegroup s of
        None \<Rightarrow> ret (transition_to (w_now w) (after_nodegroups s (sp_upgrade_mode spec)) s, None)
      | Some idx \<Rightarrow>
          iobind (lift (index (ph_nodegroups (st_phases s)) idx)) (\<lambda>ngs.
          let timeout_minutes = (case sp_timeouts spec of None \<Rightarrow> 60 | Some t \<Rightarrow> tc_nodegroup_minutes t)
          in case ng_status ngs of
            CPending \<Rightarrow>
              iobind (update_nodegroup_version (w_sdk w) (sp_cluster_name spec) (ng_name ngs) (ng_target_version ngs)) (\<lambda>update_id.
              iobind (lift (upd_nodegroup idx (\<lambda>n. n\<lparr>ng_status := CInProgress, ng_update_id := Some update_id,
                                                     ng_started_at := Some (w_now w)\<rparr>) s)) (\<lambda>s'.
              ret (s', Some NG_POLL_INTERVAL)))
          | CInProgress \<Rightarrow>
              (case ng_timed_out (w_now w) timeout_minutes ngs of
                 Some elapsed \<Rightarrow>
                   iobind (lift (apply_timeout (w_now w) s idx (ng_name ngs) elapsed timeout_minutes)) (\<lambda>s'.
                   ret (s', None))
               | None \<Rightarrow>
                   iobind (lift (poll_nodegroup_update (w_sdk w) (sp_cluster_name spec) (ng_name ngs)
                                   (unwrap_or ''unknown'' (ng_update_id ngs)))) (\<lambda>status_str.
                   lift (apply_poll_result (w_now w) s idx (ng_name ngs) status_str)))
          | CFailed \<Rightarrow>
              ret (set_failed (w_now w) (''Nodegroup '' @ ng_name ngs @ '' is in failed state'') s, None)
          | _ \<Rightarrow> ret (s, Some 0)))"

subsection \<open>Frame\<close>

lemma upd_addon_Ok:
  "upd_addon i f s = Ok s' \<longleftrightarrow> i < length (ph_addons (st_phases s)) \<and>
     s' = upd_phases (\<lambda>p. p\<lparr>ph_addons := (ph_addons p)[i := f (ph_addons (st_phases s) ! i)]\<rparr>) s"
  by (auto simp: upd_addon_def)

lemma upd_nodegroup_Ok:
  "upd_nodegroup i f s = Ok s' \<longleftrightarrow> i < length (ph_nodegroups (st_phases s)) \<and>
     s' = upd_phases (\<lambda>p. p\<lparr>ph_nodegroups := (ph_nodegroups p)[i := f (ph_nodegroups (st_phases s) ! i)]\<rparr>) s"
  by (auto simp: upd_nodegroup_def)

lemma upd_addon_same_plan:
  assumes "upd_addon i f s = Ok s'"
    and "\<And>a. as_name (f a) = as_name a \<and> as_target_version (f a) = as_target_version a"
  shows "same_plan s s'" and "st_phase s' = st_phase s"
  using assms by (auto simp: upd_addon_Ok same_plan_def map_list_update_same)

lemma upd_nodegroup_same_plan:
  assumes "upd_nodegroup i f s = Ok s'"
    and "\<And>a. ng_name (f a) = ng_name a \<and> ng_target_version (f a) = ng_target_version a"
  shows "same_plan s s'" and "st_phase s' = st_phase s"
  using assms by (auto simp: upd_nodegroup_Ok same_plan_def map_list_update_same)

lemma apply_addon_poll_result_contract:
  assumes "apply_addon_poll_result now s i n r = Ok (s', q)"
  shows "same_plan s s'" and "st_phase s' = st_phase s \<or> st_phase s' = Some Failed"
  using assms by (auto simp: apply_addon_poll_result_def upd_addon_same_plan split: if_splits)

lemma apply_poll_result_contract:
  assumes "apply_poll_result now s i n r = Ok (s', q)"
  shows "same_plan s s'" and "st_phase s' = st_phase s \<or> st_phase s' = Some Failed"
  using assms by (auto simp: apply_poll_result_def upd_nodegroup_same_plan split: if_splits)

interpretation addon_queue: work_queue addon_finished find_active_addon
  by unfold_locales (simp add: find_active_addon_def addon_finished_def)

interpretation nodegroup_queue: work_queue nodegroup_finished active_nodegroup
  by unfold_locales (simp add: active_nodegroup_def nodegroup_finished_def)

lemma addons_execute_effects:
  "snd (addons_execute w spec s) =
     (case find_active_addon (ph_addons (st_phases s)) of
        None \<Rightarrow> []
      | Some i \<Rightarrow> let a = ph_addons (st_phases s) ! i
                  in if as_status a = CPending
                     then [UpdateAddon (sp_cluster_name spec) (as_name a) (as_target_version a)] else [])"
proof (cases "find_active_addon (ph_addons (st_phases s))")
  case (Some i)
  then show ?thesis
    using addon_queue.active_Some(1) [OF Some]
    by (cases "as_status (ph_addons (st_phases s) ! i)")
      (simp_all add: addons_execute_def snd_iobind index_def upd_addon_def Let_def split: res.splits)
qed (simp add: addons_execute_def)

lemma nodegroups_execute_effects:
  "snd (nodegroups_execute w spec s) =
     (case active_nodegroup (ph_nodegroups (st_phases s)) of
        None \<Rightarrow> []
      | Some i \<Rightarrow> let n = ph_nodegroups (st_phases s) ! i
                  in if ng_status n = CPending
                     then [UpdateNodegroupVersion (sp_cluster_name spec) (ng_name n) (ng_target_version n)] else [])"
proof (cases "active_nodegroup (ph_nodegroups (st_phases s))")
  case (Some i)
  then show ?thesis
    using nodegroup_queue.active_Some(1) [OF Some]
    by (cases "ng_status (ph_nodegroups (st_phases s) ! i)")
      (simp_all add: nodegroups_execute_def find_active_nodegroup_def snd_iobind index_def upd_nodegroup_def Let_def
        split: res.splits option.splits)
qed (simp add: nodegroups_execute_def find_active_nodegroup_def)

interpretation addons: work_phase addons_execute after_addons "\<lambda>f. \<exists>c n v. f = UpdateAddon c n v"
proof
  fix w spec s s' r assume ok: "fst (addons_execute w spec s) = Ok (s', r)"
  show "same_plan s s'"
    using ok by (auto simp: addons_execute_def addons_advance_to_next_phase_def apply_addon_poll_result_contract
        upd_addon_same_plan split: option.splits ComponentStatus.splits)
  show "handler_next after_addons spec s s'"
    using ok by (auto simp: addons_execute_def addons_advance_to_next_phase_def handler_next_def upd_addon_same_plan
        dest: apply_addon_poll_result_contract(2) split: option.splits ComponentStatus.splits)
next
  fix f w spec s assume "f \<in> set (snd (addons_execute w spec s))"
  then show "\<exists>c n v. f = UpdateAddon c n v"
    by (auto simp: addons_execute_effects Let_def split: option.splits if_splits)
qed

interpretation nodegroups: work_phase nodegroups_execute after_nodegroups "\<lambda>f. \<exists>c n v. f = UpdateNodegroupVersion c n v"
proof
  fix w spec s s' r assume ok: "fst (nodegroups_execute w spec s) = Ok (s', r)"
  show "same_plan s s'"
    using ok by (auto simp: nodegroups_execute_def apply_poll_result_contract apply_timeout_def Let_def
        upd_nodegroup_same_plan split: option.splits ComponentStatus.splits)
  show "handler_next after_nodegroups spec s s'"
    using ok by (auto simp: nodegroups_execute_def handler_next_def upd_nodegroup_same_plan apply_timeout_def Let_def
        dest: apply_poll_result_contract(2) split: option.splits ComponentStatus.splits)
next
  fix f w spec s assume "f \<in> set (snd (nodegroups_execute w spec s))"
  then show "\<exists>c n v. f = UpdateNodegroupVersion c n v"
    by (auto simp: nodegroups_execute_effects Let_def split: option.splits if_splits)
qed

subsection \<open>One component at a time\<close>

text \<open>Behind the first unfinished component everything is still pending.\<close>

definition sequential :: "('c \<Rightarrow> ComponentStatus) \<Rightarrow> 'c list \<Rightarrow> bool" where
  "sequential st cs \<longleftrightarrow> list_all (\<lambda>c. st c = CPending) (tl (dropWhile (\<lambda>c. is_done (st c)) cs))"

lemma is_done_iff: "is_done st \<longleftrightarrow> st = CCompleted \<or> st = CSkipped"
  by (cases st) auto

lemma dropWhile_position:
  assumes "position (\<lambda>c. \<not> P c) cs = Some i"
  shows "dropWhile P cs = drop i cs"
  using assms by (induction cs arbitrary: i) (auto split: if_splits)

lemma set_tl_dropWhile: "set (tl (dropWhile P (c # xs))) \<subseteq> set xs"
proof -
  have "set (tl ys) \<subseteq> set ys" for ys :: "'a list" by (cases ys) auto
  then show ?thesis by (cases "P c") (use set_dropWhileD in fastforce)+
qed

lemma sequential_update:
  assumes seq: "sequential st cs" and i: "position (\<lambda>c. \<not> is_done (st c)) cs = Some i"
  shows "sequential st (cs[i := c])"
proof -
  note pos = position_SomeD [OF i]
  have rest: "list_all (\<lambda>c. st c = CPending) (drop (Suc i) cs)"
    using seq dropWhile_position [OF i] by (simp add: sequential_def tl_drop drop_Suc)
  have "dropWhile (\<lambda>c. is_done (st c)) (take i cs @ c # drop (Suc i) cs) =
      dropWhile (\<lambda>c. is_done (st c)) (c # drop (Suc i) cs)"
    using pos by (intro dropWhile_append2) (auto simp: in_set_conv_nth)
  then have "dropWhile (\<lambda>c. is_done (st c)) (cs[i := c]) = dropWhile (\<lambda>c. is_done (st c)) (c # drop (Suc i) cs)"
    using pos(1) by (simp add: upd_conv_take_nth_drop)
  moreover have "set (tl (dropWhile (\<lambda>c. is_done (st c)) (c # drop (Suc i) cs))) \<subseteq> set (drop (Suc i) cs)"
    by (rule set_tl_dropWhile)
  ultimately show ?thesis
    using rest by (auto simp: sequential_def list_all_iff)
qed

lemma sequential_in_progress:
  assumes "sequential st cs"
  shows "length (filter (\<lambda>c. st c = CInProgress) cs) \<le> 1"
proof -
  let ?D = "\<lambda>c. is_done (st c)"
  have "filter (\<lambda>c. st c = CInProgress) (takeWhile ?D cs) = []"
    by (auto simp: filter_empty_conv dest: set_takeWhileD)
  then have *: "filter (\<lambda>c. st c = CInProgress) cs = filter (\<lambda>c. st c = CInProgress) (dropWhile ?D cs)"
    by (metis append_Nil filter_append takeWhile_dropWhile_id)
  show ?thesis
  proof (cases "dropWhile ?D cs")
    case (Cons x xs)
    then have "filter (\<lambda>c. st c = CInProgress) xs = []"
      using assms by (auto simp: sequential_def filter_empty_conv list_all_iff)
    then show ?thesis using * Cons by simp
  next
    case Nil
    show ?thesis unfolding * Nil by simp
  qed
qed

text \<open>What a handler may do to its list: nothing, or an update of the first unfinished entry.\<close>

definition touches_active :: "('c \<Rightarrow> ComponentStatus) \<Rightarrow> 'c list \<Rightarrow> 'c list \<Rightarrow> bool" where
  "touches_active st cs cs' \<longleftrightarrow>
     cs' = cs \<or> (\<exists>i c. position (\<lambda>c. \<not> is_done (st c)) cs = Some i \<and> cs' = cs[i := c])"

lemma touches_active_refl: "touches_active st cs cs"
  by (simp add: touches_active_def)

lemma touches_activeI: "position (\<lambda>c. \<not> is_done (st c)) cs = Some i \<Longrightarrow> touches_active st cs (cs[i := c])"
  unfolding touches_active_def by blast

lemma touches_active_sequential:
  "touches_active st cs cs' \<Longrightarrow> sequential st cs \<Longrightarrow> sequential st cs'"
  by (auto simp: touches_active_def sequential_update)

lemma find_active_addon_pos: "find_active_addon = position (\<lambda>a. \<not> is_done (as_status a))"
  by (simp add: find_active_addon_def is_done_iff)

lemma active_nodegroup_pos: "active_nodegroup = position (\<lambda>n. \<not> is_done (ng_status n))"
  by (simp add: active_nodegroup_def is_done_iff)

lemma apply_addon_poll_result_list:
  assumes "apply_addon_poll_result now s i n r = Ok (s', q)"
  shows "ph_addons (st_phases s') = ph_addons (st_phases s) \<or>
    (\<exists>c. ph_addons (st_phases s') = (ph_addons (st_phases s))[i := c])"
  using assms by (auto simp: apply_addon_poll_result_def upd_addon_Ok split: if_splits)

lemma apply_poll_result_list:
  assumes "apply_poll_result now s i n r = Ok (s', q)"
  shows "ph_nodegroups (st_phases s') = ph_nodegroups (st_phases s) \<or>
    (\<exists>c. ph_nodegroups (st_phases s') = (ph_nodegroups (st_phases s))[i := c])"
  using assms by (auto simp: apply_poll_result_def upd_nodegroup_Ok split: if_splits)

lemma addons_execute_list:
  assumes "fst (addons_execute w spec s) = Ok (s', r)"
    and "find_active_addon (ph_addons (st_phases s)) = Some i"
  shows "ph_addons (st_phases s') = ph_addons (st_phases s) \<or>
    (\<exists>c. ph_addons (st_phases s') = (ph_addons (st_phases s))[i := c])"
  using assms
  by (cases "as_status (ph_addons (st_phases s) ! i)")
    (auto simp: addons_execute_def upd_addon_Ok dest: apply_addon_poll_result_list)

lemma nodegroups_execute_list:
  assumes "fst (nodegroups_execute w spec s) = Ok (s', r)"
    and "active_nodegroup (ph_nodegroups (st_phases s)) = Some i"
  shows "ph_nodegroups (st_phases s') = ph_nodegroups (st_phases s) \<or>
    (\<exists>c. ph_nodegroups (st_phases s') = (ph_nodegroups (st_phases s))[i := c])"
  using assms
  by (cases "ng_status (ph_nodegroups (st_phases s) ! i)")
    (auto simp: nodegroups_execute_def find_active_nodegroup_def apply_timeout_def upd_nodegroup_Ok Let_def
      dest: apply_poll_result_list split: option.splits)

lemma addons_execute_touches:
  assumes "fst (addons_execute w spec s) = Ok (s', r)"
  shows "touches_active as_status (ph_addons (st_phases s)) (ph_addons (st_phases s'))"
proof (cases "find_active_addon (ph_addons (st_phases s))")
  case None
  then show ?thesis
    using assms by (auto simp: addons_execute_def addons_advance_to_next_phase_def touches_active_refl)
next
  case (Some i)
  then show ?thesis
    using addons_execute_list [OF assms Some] touches_active_refl touches_activeI
    unfolding find_active_addon_pos by metis
qed

lemma nodegroups_execute_touches:
  assumes "fst (nodegroups_execute w spec s) = Ok (s', r)"
  shows "touches_active ng_status (ph_nodegroups (st_phases s)) (ph_nodegroups (st_phases s'))"
proof (cases "active_nodegroup (ph_nodegroups (st_phases s))")
  case None
  then show ?thesis
    using assms by (auto simp: nodegroups_execute_def find_active_nodegroup_def touches_active_refl)
next
  case (Some i)
  then show ?thesis
    using nodegroups_execute_list [OF assms Some] touches_active_refl touches_activeI
    unfolding active_nodegroup_pos by metis
qed

lemma addons_execute_no_panic: "fst (addons_execute w spec s) \<noteq> Panic"
proof (cases "find_active_addon (ph_addons (st_phases s))")
  case (Some i)
  then show ?thesis
    using addon_queue.active_Some(1) [OF Some]
    by (cases "as_status (ph_addons (st_phases s) ! i)")
      (auto simp: addons_execute_def rbind_eq_Panic upd_addon_def apply_addon_poll_result_def poll_addon_status_def)
qed (simp add: addons_execute_def)

lemma nodegroups_execute_no_panic: "fst (nodegroups_execute w spec s) \<noteq> Panic"
proof (cases "active_nodegroup (ph_nodegroups (st_phases s))")
  case (Some i)
  then show ?thesis
    using nodegroup_queue.active_Some(1) [OF Some]
    by (cases "ng_status (ph_nodegroups (st_phases s) ! i)")
      (auto simp: nodegroups_execute_def find_active_nodegroup_def rbind_eq_Panic upd_nodegroup_def
        apply_poll_result_def apply_timeout_def Let_def split: option.splits)
qed (simp add: nodegroups_execute_def find_active_nodegroup_def)

text \<open>
  C20. The add-on phase upgrades add-ons strictly one at a time: an execution never panics, asks
  EKS for an update exactly when the first unfinished add-on is pending (and then for that one,
  at its planned version), changes no other entry of the list, and never leaves two add-ons in
  progress.
\<close>

theorem addons_upgrade_one_at_a_time:
  assumes "sequential as_status (ph_addons (st_phases s))"
  shows "fst (addons_execute w spec s) \<noteq> Panic \<and>
    snd (addons_execute w spec s) =
      (case find_active_addon (ph_addons (st_phases s)) of
         None \<Rightarrow> []
       | Some i \<Rightarrow> let a = ph_addons (st_phases s) ! i
                   in if as_status a = CPending
                      then [UpdateAddon (sp_cluster_name spec) (as_name a) (as_target_version a)] else []) \<and>
    (\<forall>s' r. fst (addons_execute w spec s) = Ok (s', r) \<longrightarrow>
       touches_active as_status (ph_addons (st_phases s)) (ph_addons (st_phases s')) \<and>
       sequential as_status (ph_addons (st_phases s')) \<and>
       length (filter (\<lambda>a. as_status a = CInProgress) (ph_addons (st_phases s'))) \<le> 1)"
  using addons_execute_no_panic addons_execute_effects
    touches_active_sequential [OF addons_execute_touches assms] addons_execute_touches
    sequential_in_progress [of as_status] by blast

definition addon_at :: "string \<Rightarrow> ComponentStatus \<Rightarrow> AddonStatus" where
  "addon_at n st = \<lparr>as_name = n, as_current_version = ''v1.0.0'', as_target_version = ''v1.1.0'',
     as_status = st, as_started_at = None, as_completed_at = None\<rparr>"

definition addons_status :: "AddonStatus list \<Rightarrow> EKSUpgradeStatus" where
  "addons_status as = default_status\<lparr>st_phase := Some UpgradingAddons, st_phases := default_phases\<lparr>ph_addons := as\<rparr>\<rparr>"

theorem addons_upgrade_one_at_a_time_witness:
  "snd (addons_execute (world_at no_answer_sdk 0) demo_spec
      (addons_status [addon_at ''coredns'' CCompleted, addon_at ''vpc-cni'' CPending, addon_at ''kube-proxy'' CPending]))
   = [UpdateAddon ''prod'' ''vpc-cni'' ''v1.1.0'']"
  using addons_upgrade_one_at_a_time [of "addons_status [addon_at ''coredns'' CCompleted, addon_at ''vpc-cni'' CPending,
      addon_at ''kube-proxy'' CPending]" "world_at no_answer_sdk 0" demo_spec]
  by (simp add: addons_status_def addon_at_def sequential_def find_active_addon_def demo_spec_def)

text \<open>
  The node group phase upgrades node groups strictly one at a time, in the sense of the
  add-on phase.
\<close>

theorem nodegroups_upgrade_one_at_a_time:
  assumes "sequential ng_status (ph_nodegroups (st_phases s))"
  shows "fst (nodegroups_execute w spec s) \<noteq> Panic \<and>
    snd (nodegroups_execute w spec s) =
      (case active_nodegroup (ph_nodegroups (st_phases s)) of
         None \<Rightarrow> []
       | Some i \<Rightarrow> let n = ph_nodegroups (st_phases s) ! i
                   in if ng_status n = CPending
                      then [UpdateNodegroupVersion (sp_cluster_name spec) (ng_name n) (ng_target_version n)] else []) \<and>
    (\<forall>s' r. fst (nodegroups_execute w spec s) = Ok (s', r) \<longrightarrow>
       touches_active ng_status (ph_nodegroups (st_phases s)) (ph_nodegroups (st_phases s')) \<and>
       sequential ng_status (ph_nodegroups (st_phases s')) \<and>
       length (filter (\<lambda>n. ng_status n = CInProgress) (ph_nodegroups (st_phases s'))) \<le> 1)"
  using nodegroups_execute_no_panic nodegroups_execute_effects
    touches_active_sequential [OF nodegroups_execute_touches assms] nodegroups_execute_touches
    sequential_in_progress [of ng_status] by blast

definition nodegroup_at :: "string \<Rightarrow> ComponentStatus \<Rightarrow> NodegroupStatus" where
  "nodegroup_at n st = \<lparr>ng_name = n, ng_current_version = ''1.33'', ng_target_version = ''1.34'',
     ng_status = st, ng_update_id = None, ng_started_at = None, ng_completed_at = None\<rparr>"

definition nodegroups_status :: "NodegroupStatus list \<Rightarrow> EKSUpgradeStatus" where
  "nodegroups_status ns = default_status\<lparr>st_phase := Some UpgradingNodeGroups, st_phases := default_phases\<lparr>ph_nodegroups := ns\<rparr>\<rparr>"

theorem nodegroups_upgrade_one_at_a_time_witness:
  "snd (nodegroups_execute (world_at no_answer_sdk 0) demo_spec
      (nodegroups_status [nodegroup_at ''a'' CInProgress, nodegroup_at ''b'' CPending])) = []"
  using nodegroups_upgrade_one_at_a_time [of "nodegroups_status [nodegroup_at ''a'' CInProgress, nodegroup_at ''b'' CPending]"
      "world_at no_answer_sdk 0" demo_spec]
  by (simp add: nodegroups_status_def nodegroup_at_def sequential_def active_nodegroup_def)

subsection \<open>Draining the list\<close>

text \<open>EKS accepts the update in the first world of a pair and reports the end of it in the second.\<close>

definition addon_cooperates :: "EKSUpgradeSpec \<Rightarrow> world \<times> world \<Rightarrow> bool" where
  "addon_cooperates spec ab \<longleftrightarrow>
     (\<forall>n v. \<exists>u. sdk_update_addon (w_sdk (fst ab)) (sp_cluster_name spec) n v = Inr u) \<and>
     (\<forall>n. \<exists>a. sdk_describe_addon (w_sdk (snd ab)) (sp_cluster_name spec) n = Inr (Some a) \<and> sa_status a = Some ''ACTIVE'')"

definition nodegroup_cooperates :: "EKSUpgradeSpec \<Rightarrow> world \<times> world \<Rightarrow> bool" where
  "nodegroup_cooperates spec ab \<longleftrightarrow>
     (\<forall>n v. \<exists>u. sdk_update_nodegroup_version (w_sdk (fst ab)) (sp_cluster_name spec) n v = Inr u) \<and>
     (\<forall>n u. sdk_describe_update (w_sdk (snd ab)) (sp_cluster_name spec) (Some n) u = Inr (Some ''Successful'')) \<and>
     num_minutes (w_now (snd ab) - w_now (fst ab)) <
       as_i64 (case sp_timeouts spec of None \<Rightarrow> 60 | Some t \<Rightarrow> tc_nodegroup_minutes t)"

definition addon_request :: "EKSUpgradeSpec \<Rightarrow> AddonStatus \<Rightarrow> effect" where
  "addon_request spec a = UpdateAddon (sp_cluster_name spec) (as_name a) (as_target_version a)"

definition nodegroup_request :: "EKSUpgradeSpec \<Rightarrow> NodegroupStatus \<Rightarrow> effect" where
  "nodegroup_request spec n = UpdateNodegroupVersion (sp_cluster_name spec) (ng_name n) (ng_target_version n)"

lemma addons_pair:
  assumes i: "find_active_addon (ph_addons (st_phases s)) = Some i"
    and p: "as_status (ph_addons (st_phases s) ! i) = CPending" and coop: "addon_cooperates spec (a, b)"
  shows "\<exists>s' c. run_handler addons_execute spec [a, b] s = (Ok s', [addon_request spec (ph_addons (st_phases s) ! i)]) \<and>
    ph_addons (st_phases s') = (ph_addons (st_phases s))[i := c] \<and> addon_finished c \<and> same_plan s s'"
proof -
  let ?as = "ph_addons (st_phases s)"
  define c1 where "c1 = (?as ! i)\<lparr>as_status := CInProgress, as_started_at := Some (w_now a)\<rparr>"
  define c2 where "c2 = c1\<lparr>as_status := CCompleted, as_completed_at := Some (w_now b)\<rparr>"
  define s1 where "s1 = upd_phases (\<lambda>p. p\<lparr>ph_addons := (ph_addons p)[i := c1]\<rparr>) s"
  define s2 where "s2 = upd_phases (\<lambda>p. p\<lparr>ph_addons := (ph_addons p)[i := c2]\<rparr>) s1"
  have len: "i < length ?as" by (rule addon_queue.active_Some(1) [OF i])
  from coop obtain u where u: "sdk_update_addon (w_sdk a) (sp_cluster_name spec) (as_name (?as ! i)) (as_target_version (?as ! i)) = Inr u"
    unfolding addon_cooperates_def fst_conv by blast
  from coop obtain r where r: "sdk_describe_addon (w_sdk b) (sp_cluster_name spec) (as_name (?as ! i)) = Inr (Some r)"
      "sa_status r = Some ''ACTIVE''"
    unfolding addon_cooperates_def snd_conv by blast
  have a: "addons_execute a spec s = (Ok (s1, Some ADDON_POLL_INTERVAL), [addon_request spec (?as ! i)])"
    using i p len u by (simp add: addons_execute_def index_def update_addon_def iobind_def emit_def lift_def ret_def
        upd_addon_def s1_def c1_def addon_request_def)
  have i1: "find_active_addon (ph_addons (st_phases s1)) = Some i"
    using addon_queue.active_keep [OF i, of c1] by (simp add: s1_def c1_def addon_finished_def)
  have c1: "ph_addons (st_phases s1) ! i = c1" "i < length (ph_addons (st_phases s1))"
    using len by (simp_all add: s1_def)
  have c1_sel: "as_status c1 = CInProgress" "as_name c1 = as_name (?as ! i)" by (simp_all add: c1_def)
  have b: "addons_execute b spec s1 = (Ok (s2, Some 0), [])"
    using i1 c1 c1_sel r by (simp add: addons_execute_def index_def poll_addon_status_def apply_addon_poll_result_def iobind_def
        lift_def unwrap_or_def upd_addon_def s2_def c2_def)
  have "same_plan s s2" using len by (simp add: same_plan_def s2_def s1_def c2_def c1_def map_list_update_same)
  moreover have "ph_addons (st_phases s2) = ?as[i := c2]" by (simp add: s2_def s1_def)
  moreover have "addon_finished c2" by (simp add: c2_def addon_finished_def)
  ultimately show ?thesis using a b by (intro exI [of _ s2] exI [of _ c2]) (simp add: iobind_def ret_def)
qed

lemma nodegroups_pair:
  assumes i: "active_nodegroup (ph_nodegroups (st_phases s)) = Some i"
    and p: "ng_status (ph_nodegroups (st_phases s) ! i) = CPending" and coop: "nodegroup_cooperates spec (a, b)"
  shows "\<exists>s' c. run_handler nodegroups_execute spec [a, b] s = (Ok s', [nodegroup_request spec (ph_nodegroups (st_phases s) ! i)]) \<and>
    ph_nodegroups (st_phases s') = (ph_nodegroups (st_phases s))[i := c] \<and> nodegroup_finished c \<and> same_plan s s'"
proof -
  let ?ns = "ph_nodegroups (st_phases s)"
  have len: "i < length ?ns" by (rule nodegroup_queue.active_Some(1) [OF i])
  from coop obtain u where u: "sdk_update_nodegroup_version (w_sdk a) (sp_cluster_name spec) (ng_name (?ns ! i)) (ng_target_version (?ns ! i)) = Inr u"
    unfolding nodegroup_cooperates_def fst_conv by blast
  define c1 where "c1 = (?ns ! i)\<lparr>ng_status := CInProgress, ng_update_id := Some (unwrap_or_default u), ng_started_at := Some (w_now a)\<rparr>"
  define c2 where "c2 = c1\<lparr>ng_status := CCompleted, ng_update_id := None, ng_started_at := None, ng_completed_at := Some (w_now b)\<rparr>"
  define s1 where "s1 = upd_phases (\<lambda>p. p\<lparr>ph_nodegroups := (ph_nodegroups p)[i := c1]\<rparr>) s"
  define s2 where "s2 = upd_phases (\<lambda>p. p\<lparr>ph_nodegroups := (ph_nodegroups p)[i := c2]\<rparr>) s1"
  have r: "sdk_describe_update (w_sdk b) (sp_cluster_name spec) (Some n) v = Inr (Some ''Successful'')" for n v
    using coop by (simp add: nodegroup_cooperates_def)
  have intime: "ng_timed_out (w_now b) (case sp_timeouts spec of None \<Rightarrow> 60 | Some t \<Rightarrow> tc_nodegroup_minutes t) c1 = None"
    using coop by (simp add: nodegroup_cooperates_def ng_timed_out_def c1_def)
  have a: "nodegroups_execute a spec s = (Ok (s1, Some NG_POLL_INTERVAL), [nodegroup_request spec (?ns ! i)])"
    using i p len u by (simp add: nodegroups_execute_def find_active_nodegroup_def index_def update_nodegroup_version_def
        iobind_def emit_def lift_def ret_def upd_nodegroup_def s1_def c1_def nodegroup_request_def)
  have i1: "active_nodegroup (ph_nodegroups (st_phases s1)) = Some i"
    using nodegroup_queue.active_keep [OF i, of c1] by (simp add: s1_def c1_def nodegroup_finished_def)
  have c1: "ph_nodegroups (st_phases s1) ! i = c1" "i < length (ph_nodegroups (st_phases s1))"
    using len by (simp_all add: s1_def)
  have c1_sel: "ng_status c1 = CInProgress" by (simp add: c1_def)
  have b: "nodegroups_execute b spec s1 = (Ok (s2, Some 0), [])"
    using i1 c1 c1_sel r intime by (simp add: nodegroups_execute_def find_active_nodegroup_def index_def poll_nodegroup_update_def
        apply_poll_result_def iobind_def lift_def unwrap_or_def upd_nodegroup_def s2_def c2_def)
  have "same_plan s s2" using len by (simp add: same_plan_def s2_def s1_def c2_def c1_def map_list_update_same)
  moreover have "ph_nodegroups (st_phases s2) = ?ns[i := c2]" by (simp add: s2_def s1_def)
  moreover have "nodegroup_finished c2" by (simp add: c2_def nodegroup_finished_def)
  ultimately show ?thesis using a b by (intro exI [of _ s2] exI [of _ c2]) (simp add: iobind_def ret_def)
qed

interpretation addon_drain: component_phase addon_finished find_active_addon "\<lambda>s. ph_addons (st_phases s)"
  "\<lambda>a. as_status a = CPending" addon_request addons_execute after_addons addon_cooperates
proof
  fix w spec and s :: EKSUpgradeStatus assume "find_active_addon (ph_addons (st_phases s)) = None"
  then show "addons_execute w spec s = (Ok (transition_to (w_now w) (after_addons s (sp_upgrade_mode spec)) s, None), [])"
    by (simp add: addons_execute_def addons_advance_to_next_phase_def ret_def)
next
  fix s s' mode assume "same_plan s s'"
  then show "after_addons s' mode = after_addons s mode" using same_plan_route [of s s' UpgradingAddons] by simp
qed (use addons_pair in simp_all)

interpretation nodegroup_drain: component_phase nodegroup_finished active_nodegroup "\<lambda>s. ph_nodegroups (st_phases s)"
  "\<lambda>n. ng_status n = CPending" nodegroup_request nodegroups_execute after_nodegroups nodegroup_cooperates
proof
  fix w spec and s :: EKSUpgradeStatus assume "active_nodegroup (ph_nodegroups (st_phases s)) = None"
  then show "nodegroups_execute w spec s = (Ok (transition_to (w_now w) (after_nodegroups s (sp_upgrade_mode spec)) s, None), [])"
    by (simp add: nodegroups_execute_def find_active_nodegroup_def ret_def)
next
  fix s s' mode assume "same_plan s s'"
  then show "after_nodegroups s' mode = after_nodegroups s mode" using same_plan_route [of s s' UpgradingNodeGroups] by simp
qed (use nodegroups_pair in simp_all)

text \<open>
  Starting from pending and finished add-ons, and with an EKS that accepts each update and
  then reports the add-on active, the add-on phase asks for exactly the unfinished add-ons, each
  once, in list order and at the planned version; two reconciles per add-on and one more later
  every add-on is finished and the resource is in the phase the routing table names.
\<close>

theorem addons_phase_completes:
  assumes "\<forall>a \<in> set (ph_addons (st_phases s)). addon_finished a \<or> as_status a = CPending"
    and "length pairs = length (filter (\<lambda>a. \<not> addon_finished a) (ph_addons (st_phases s)))"
    and "list_all (addon_cooperates spec) pairs"
  shows "\<exists>s'. run_handler addons_execute spec (concat (map (\<lambda>(a, b). [a, b]) pairs) @ [w]) s =
      (Ok s', map (addon_request spec) (filter (\<lambda>a. \<not> addon_finished a) (ph_addons (st_phases s))))
    \<and> st_phase s' = Some (after_addons s (sp_upgrade_mode spec))
    \<and> (\<forall>a \<in> set (ph_addons (st_phases s')). addon_finished a)"
  using addon_drain.drains [of s pairs spec w] assms
  unfolding addon_queue.remaining_def addon_queue.active_None by blast

definition active_addon_sdk :: eks_sdk where
  "active_addon_sdk = no_answer_sdk\<lparr>sdk_update_addon := (\<lambda>_ _ _. Inr (Some ''u-1'')),
     sdk_describe_addon := (\<lambda>_ n. Inr (Some \<lparr>sa_addon_name = Some n, sa_addon_version = Some ''v1.1.0'', sa_status = Some ''ACTIVE''\<rparr>))\<rparr>"

theorem addons_phase_completes_witness:
  "\<exists>s'. run_handler addons_execute demo_spec
      [world_at active_addon_sdk 0, world_at active_addon_sdk 1, world_at active_addon_sdk 2]
      (addons_status [addon_at ''coredns'' CSkipped, addon_at ''vpc-cni'' CPending]) =
        (Ok s', [UpdateAddon ''prod'' ''vpc-cni'' ''v1.1.0'']) \<and> st_phase s' = Some Completed"
proof -
  have coop: "list_all (addon_cooperates demo_spec) [(world_at active_addon_sdk 0, world_at active_addon_sdk 1)]"
    by (simp add: addon_cooperates_def world_at_def active_addon_sdk_def)
  show ?thesis
    using addons_phase_completes [of "addons_status [addon_at ''coredns'' CSkipped, addon_at ''vpc-cni'' CPending]"
        "[(world_at active_addon_sdk 0, world_at active_addon_sdk 1)]" demo_spec "world_at active_addon_sdk 2"] coop
    by (auto simp: addons_status_def addon_at_def addon_finished_def addon_request_def demo_spec_def
        has_nodegroups_def has_karpenter_def default_phases_def simp del: run_handler.simps)
qed

text \<open>
  C19. Starting from pending and finished node groups, and with an EKS that accepts each update and
  reports it successful within the time limit, the node group phase asks for exactly the
  unfinished node groups, each once, in list order and at the planned version, finishes them all
  and leaves for the phase the routing table names.
\<close>

theorem nodegroups_phase_completes:
  assumes "\<forall>n \<in> set (ph_nodegroups (st_phases s)). nodegroup_finished n \<or> ng_status n = CPending"
    and "length pairs = length (filter (\<lambda>n. \<not> nodegroup_finished n) (ph_nodegroups (st_phases s)))"
    and "list_all (nodegroup_cooperates spec) pairs"
  shows "\<exists>s'. run_handler nodegroups_execute spec (concat (map (\<lambda>(a, b). [a, b]) pairs) @ [w]) s =
      (Ok s', map (nodegroup_request spec) (filter (\<lambda>n. \<not> nodegroup_finished n) (ph_nodegroups (st_phases s))))
    \<and> st_phase s' = Some (after_nodegroups s (sp_upgrade_mode spec))
    \<and> (\<forall>n \<in> set (ph_nodegroups (st_phases s')). nodegroup_finished n)"
  using nodegroup_drain.drains [of s pairs spec w] assms
  unfolding nodegroup_queue.remaining_def nodegroup_queue.active_None by blast

definition granting_nodegroup_sdk :: eks_sdk where
  "granting_nodegroup_sdk = no_answer_sdk\<lparr>sdk_update_nodegroup_version := (\<lambda>_ _ _. Inr (Some ''u-1'')),
     sdk_describe_update := (\<lambda>_ _ _. Inr (Some ''Successful''))\<rparr>"

theorem nodegroups_phase_completes_witness:
  "\<exists>s'. run_handler nodegroups_execute demo_spec
      [world_at granting_nodegroup_sdk 0, world_at granting_nodegroup_sdk 600000000000, world_at granting_nodegroup_sdk 630000000000]
      (nodegroups_status [nodegroup_at ''a'' CCompleted, nodegroup_at ''b'' CPending]) =
        (Ok s', [UpdateNodegroupVersion ''prod'' ''b'' ''1.34'']) \<and> st_phase s' = Some Completed"
proof -
  have coop: "list_all (nodegroup_cooperates demo_spec)
      [(world_at granting_nodegroup_sdk 0, world_at granting_nodegroup_sdk 600000000000)]"
    by (simp add: nodegroup_cooperates_def world_at_def granting_nodegroup_sdk_def demo_spec_def num_minutes_def
        num_seconds_def trunc_div_def as_i64_def)
  show ?thesis
    using nodegroups_phase_completes [of "nodegroups_status [nodegroup_at ''a'' CCompleted, nodegroup_at ''b'' CPending]"
        "[(world_at granting_nodegroup_sdk 0, world_at granting_nodegroup_sdk 600000000000)]" demo_spec
        "world_at granting_nodegroup_sdk 630000000000"] coop
    by (auto simp: nodegroups_status_def nodegroup_at_def nodegroup_finished_def nodegroup_request_def demo_spec_def
        has_karpenter_def default_phases_def simp del: run_handler.simps)
qed

end
