(* ===== verification/Kuo_Planning.thy ===== *)
theory Kuo_Planning
  imports Kuo_Karpenter Kuo_Addon Kuo_ControlPlane Kuo_Components
begin

section \<open>Planning phase (eks/upgrade.rs, phases/planning.rs)\<close>

text \<open>
  Planning reads the cluster, computes the control plane path, the add-on and node group changes
  and the Karpenter pools, and writes them into the status as the work list of the later phases.
\<close>

subsection \<open>The plan (eks/upgrade.rs)\<close>

record UpgradePlan =
  up_current_version :: string
  up_upgrade_path :: "string list"
  up_addon_upgrades :: "AddonUpgrade list"
  up_nodegroup_upgrades :: "NodeGroupInfo list"

definition plan_is_empty :: "UpgradePlan \<Rightarrow> bool" where
  "plan_is_empty p \<longleftrightarrow> up_upgrade_path p = [] \<and> up_addon_upgrades p = [] \<and> up_nodegroup_upgrades p = []"

definition control_plane_path :: "UpgradeMode \<Rightarrow> string \<Rightarrow> string \<Rightarrow> string list kuo_res" where
  "control_plane_path mode current target =
     (case mode of Forward \<Rightarrow> calculate_upgrade_path current target | Rollback \<Rightarrow> calculate_rollback_path current target)"

definition plan_addons :: "UpgradeMode \<Rightarrow> eks_sdk \<Rightarrow> string \<Rightarrow> string \<Rightarrow> (string \<rightharpoonup> string) \<Rightarrow> AddonUpgrade PlanResult kuo_res" where
  "plan_addons mode =
     (case mode of Forward \<Rightarrow> plan_addon_upgrades | Rollback \<Rightarrow> plan_addon_rollbacks)"

definition create_upgrade_plan ::
    "EksClient \<Rightarrow> string \<Rightarrow> string \<Rightarrow> (string \<rightharpoonup> string) \<Rightarrow> UpgradeMode \<Rightarrow> UpgradePlan kuo_res" where
  "create_upgrade_plan client cluster_name target_version addon_versions mode =
     rbind (describe_cluster client cluster_name) (\<lambda>found.
     rbind (ok_or found (Kuo (ClusterNotFound cluster_name))) (\<lambda>cluster.
     rbind (control_plane_path mode (ci_version cluster) target_version) (\<lambda>upgrade_path.
     rbind (plan_addons mode (ec_client client) cluster_name target_version addon_versions) (\<lambda>addon_result.
     rbind (plan_nodegroup_upgrades (ec_client client) cluster_name target_version) (\<lambda>nodegroup_result.
     Ok \<lparr>up_current_version = ci_version cluster, up_upgrade_path = upgrade_path,
         up_addon_upgrades = pr_upgrades addon_result, up_nodegroup_upgrades = pr_upgrades nodegroup_result\<rparr>)))))"

subsection \<open>The phase (phases/planning.rs)\<close>

definition reject_consecutive_rollback :: "timestamp \<Rightarrow> EKSUpgradeSpec \<Rightarrow> EKSUpgradeStatus \<Rightarrow> EKSUpgradeStatus option" where
  "reject_consecutive_rollback now spec s =
     (if \<not> is_consecutive_rollback (sp_upgrade_mode spec) (st_last_transition s) then None
      else
        (let last_to = (case st_last_transition s of None \<Rightarrow> ''unknown'' | Some t \<Rightarrow> tr_to_version t);
             msg = ''Consecutive rollback rejected: the previous transition already rolled back to '' @ last_to @
               ''. EKS only permits rolling back to a version the cluster was recently upgraded from, so rolling back further to '' @
               sp_target_version spec @ '' is not possible. Roll forward before rolling back again.''
         in Some (set_condition now ''Ready'' ''False'' ''ConsecutiveRollbackRejected'' (Some msg) (set_failed now msg s))))"

fun plan_pools :: "kube_api \<Rightarrow> nat option \<Rightarrow> string list \<Rightarrow> KarpenterPoolStatus list kuo_res" where
  "plan_pools client target_minor [] = Ok []"
| "plan_pools client target_minor (name # names) =
     rbind (case target_minor of
              Some minor \<Rightarrow>
                rbind (resolve_stale client name minor []) (\<lambda>(claims, stale).
                Ok (if length stale \<le> u32_max then length stale else u32_max))
            | None \<Rightarrow> Ok 0) (\<lambda>total_nodes.
     rbind (plan_pools client target_minor names) (\<lambda>pools.
     Ok (\<lparr>kp_name = name, kp_status = CPending, kp_total_nodes = total_nodes, kp_replaced_nodes = 0,
          kp_completed_node_claims = [], kp_replacements = [], kp_current_batch = []\<rparr> # pools)))"

definition plan_karpenter :: "world \<Rightarrow> EKSUpgradeSpec \<Rightarrow> KarpenterPoolStatus list kuo_res" where
  "plan_karpenter w spec =
     (case sp_karpenter_node_pools spec of
        None \<Rightarrow> Ok []
      | Some cfg \<Rightarrow>
          if \<not> kc_enabled cfg then Ok []
          else rbind (target_client w spec) (\<lambda>client.
               rbind (if selects_all cfg then list_nodepool_names client else Ok (kc_node_pools cfg)) (\<lambda>names.
               plan_pools client (parse_minor (sp_target_version spec)) names)))"

definition lifecycle_info :: "VersionLifecycle list \<Rightarrow> string \<Rightarrow> VersionLifecycleInfo option" where
  "lifecycle_info lifecycles ver =
     map_option (\<lambda>l. \<lparr>vl_version = vc_version l, vl_version_status = vc_status l,
                      vl_end_of_standard_support_date = vc_end_of_standard_support l,
                      vl_end_of_extended_support_date = vc_end_of_extended_support l\<rparr>)
       (find (\<lambda>l. vc_version l = ver) lifecycles)"

definition fetch_version_lifecycle :: "EksClient \<Rightarrow> timestamp \<Rightarrow> string \<Rightarrow> string \<Rightarrow> LifecycleStatus" where
  "fetch_version_lifecycle client now current_version target_version =
     (let versions = (if current_version = target_version then [current_version] else [current_version, target_version])
      in case describe_cluster_versions client versions of
           Ok lifecycles \<Rightarrow>
             \<lparr>lc_last_checked_time = now, lc_current_version = lifecycle_info lifecycles current_version,
              lc_target_version = lifecycle_info lifecycles target_version, lc_error = None\<rparr>
         | Err e \<Rightarrow>
             \<lparr>lc_last_checked_time = now, lc_current_version = None, lc_target_version = None,
              lc_error = Some (''Failed to describe cluster versions: '' @ error_to_string e)\<rparr>
         | Panic \<Rightarrow>
             \<lparr>lc_last_checked_time = now, lc_current_version = None, lc_target_version = None, lc_error = None\<rparr>)"

definition planned_addon :: "AddonUpgrade \<Rightarrow> AddonStatus" where
  "planned_addon u = \<lparr>as_name = ad_name (fst u), as_current_version = ad_current_version (fst u),
     as_target_version = snd u, as_status = CPending, as_started_at = None, as_completed_at = None\<rparr>"

definition planned_nodegroup :: "EKSUpgradeSpec \<Rightarrow> NodeGroupInfo \<Rightarrow> NodegroupStatus" where
  "planned_nodegroup spec ng = \<lparr>ng_name = ni_name ng, ng_current_version = ni_current_version ng,
     ng_target_version = sp_target_version spec, ng_status = CPending, ng_update_id = None,
     ng_started_at = None, ng_completed_at = None\<rparr>"

definition plan_phases :: "EKSUpgradeSpec \<Rightarrow> UpgradePlan \<Rightarrow> KarpenterPoolStatus list \<Rightarrow> PhaseStatuses \<Rightarrow> PhaseStatuses" where
  "plan_phases spec plan pools ph =
     (let total_steps = as_u32 (length (up_upgrade_path plan));
          source_version = (case Option.bind (ph_planning ph) pl_source_version of
                              Some v \<Rightarrow> Some v | None \<Rightarrow> Some (up_current_version plan))
      in ph\<lparr>ph_planning := Some \<lparr>pl_source_version = source_version, pl_upgrade_path = up_upgrade_path plan\<rparr>,
            ph_control_plane := Some \<lparr>cp_current_step = (if total_steps > 0 then 1 else 0), cp_total_steps = total_steps,
              cp_target = None, cp_update_id = None, cp_started_at = None, cp_completed_at = None\<rparr>,
            ph_addons := map planned_addon (up_addon_upgrades plan),
            ph_nodegroups := map (planned_nodegroup spec) (up_nodegroup_upgrades plan),
            ph_karpenter_node_pools :=
              (case sp_karpenter_node_pools spec of
                 Some cfg \<Rightarrow>
                   if pools \<noteq> [] then
                     Some \<lparr>ks_strategy = strategy_to_string (kc_strategy cfg), ks_active_pool = None,
                           ks_total_nodes = 0, ks_replaced_nodes = 0, ks_pools = pools\<rparr>
                   else ph_karpenter_node_pools ph
               | None \<Rightarrow> ph_karpenter_node_pools ph)\<rparr>)"

definition UP_TO_DATE_MESSAGE :: string where
  "UP_TO_DATE_MESSAGE = ''All components already at target version''"

definition planned_status :: "world \<Rightarrow> EKSUpgradeSpec \<Rightarrow> UpgradePlan \<Rightarrow> KarpenterPoolStatus list \<Rightarrow> EKSUpgradeStatus \<Rightarrow> EKSUpgradeStatus" where
  "planned_status w spec plan pools s =
     (let s1 = (upd_phases (plan_phases spec plan pools) s)
                 \<lparr>st_current_version := Some (up_current_version plan),
                  st_lifecycle := Some (fetch_version_lifecycle (eks_client w spec) (w_now w)
                                          (up_current_version plan) (sp_target_version spec))\<rparr>
      in if plan_is_empty plan \<and> pools = [] then
           set_condition (w_now w) ''Ready'' ''True'' ''AlreadyUpToDate'' (Some UP_TO_DATE_MESSAGE)
             ((set_phase (w_now w) Completed s1)\<lparr>st_message := Some UP_TO_DATE_MESSAGE\<rparr>)
         else set_condition (w_now w) ''Ready'' ''False'' ''UpgradeInProgress'' None
                (set_phase (w_now w) PreflightChecking s1))"

definition planning_execute :: "world \<Rightarrow> EKSUpgradeSpec \<Rightarrow> EKSUpgradeStatus \<Rightarrow> EKSUpgradeStatus kuo_res" where
  "planning_execute w spec s =
     (case reject_consecutive_rollback (w_now w) spec s of
        Some rejected \<Rightarrow> Ok rejected
      | None \<Rightarrow>
          rbind (create_upgrade_plan (eks_client w spec) (sp_cluster_name spec) (sp_target_version spec)
                   (case sp_addon_versions spec of Some m \<Rightarrow> m | None \<Rightarrow> Map.empty) (sp_upgrade_mode spec)) (\<lambda>plan.
          rbind (plan_karpenter w spec) (\<lambda>pools.
          Ok (planned_status w spec plan pools s))))"

subsection \<open>Totality\<close>

lemma create_upgrade_plan_no_panic [simp]: "create_upgrade_plan ec c t m mode \<noteq> Panic"
  by (cases mode) (auto simp: create_upgrade_plan_def control_plane_path_def plan_addons_def rbind_eq_Panic)

lemma plan_pools_no_panic [simp]: "plan_pools client m names \<noteq> Panic"
  by (induction names) (auto simp: rbind_eq_Panic split: option.splits)

lemma plan_karpenter_no_panic [simp]: "plan_karpenter w spec \<noteq> Panic"
  by (auto simp: plan_karpenter_def rbind_eq_Panic split: option.splits)

lemma planning_execute_no_panic [simp]: "planning_execute w spec s \<noteq> Panic"
  by (auto simp: planning_execute_def rbind_eq_Panic Let_def split: option.splits)

subsection \<open>What a plan contains\<close>

lemma plan_pools_pending:
  "plan_pools client m names = Ok pools \<Longrightarrow>
     map kp_name pools = names \<and> list_all (\<lambda>p. kp_status p = CPending \<and> kp_current_batch p = []) pools"
  by (induction names arbitrary: pools) (auto split: option.splits)

lemma create_upgrade_plan_Ok:
  assumes "create_upgrade_plan ec c t m mode = Ok plan"
  shows "\<exists>cluster ngs. describe_cluster ec c = Ok (Some cluster) \<and> up_current_version plan = ci_version cluster \<and>
    control_plane_path mode (ci_version cluster) t = Ok (up_upgrade_path plan) \<and>
    list_nodegroups (ec_client ec) c = Ok ngs \<and>
    up_nodegroup_upgrades plan = filter (\<lambda>ng. ni_version ng \<noteq> Some t) ngs"
  using assms plan_nodegroup_loop_spec [of t _ new_plan_result]
  by (auto simp: create_upgrade_plan_def plan_nodegroup_upgrades_def)

lemma planning_execute_Ok:
  assumes "planning_execute w spec s = Ok s'"
    and "\<not> is_consecutive_rollback (sp_upgrade_mode spec) (st_last_transition s)"
  obtains plan pools where
    "create_upgrade_plan (eks_client w spec) (sp_cluster_name spec) (sp_target_version spec)
       (case sp_addon_versions spec of Some m \<Rightarrow> m | None \<Rightarrow> Map.empty) (sp_upgrade_mode spec) = Ok plan"
    "plan_karpenter w spec = Ok pools"
    "st_phases s' = plan_phases spec plan pools (st_phases s)"
    "st_current_version s' = Some (up_current_version plan)"
    "st_phase s' = Some (if plan_is_empty plan \<and> pools = [] then Completed else PreflightChecking)"
    "st_last_transition s' = st_last_transition s" "st_observed_generation s' = st_observed_generation s"
    "st_identity s' = st_identity s"
proof -
  have run: "planning_execute w spec s =
      rbind (create_upgrade_plan (eks_client w spec) (sp_cluster_name spec) (sp_target_version spec)
        (case sp_addon_versions spec of Some m \<Rightarrow> m | None \<Rightarrow> Map.empty) (sp_upgrade_mode spec)) (\<lambda>plan.
      rbind (plan_karpenter w spec) (\<lambda>pools. Ok (planned_status w spec plan pools s)))"
    using assms(2)
    by (simp add: planning_execute_def reject_consecutive_rollback_def del: is_consecutive_rollback.simps)
  from assms(1) obtain plan pools where p: "create_upgrade_plan (eks_client w spec) (sp_cluster_name spec) (sp_target_version spec)
       (case sp_addon_versions spec of Some m \<Rightarrow> m | None \<Rightarrow> Map.empty) (sp_upgrade_mode spec) = Ok plan"
    "plan_karpenter w spec = Ok pools" and s': "s' = planned_status w spec plan pools s"
    unfolding run by auto
  show thesis by (rule that [OF p]) (simp_all add: s' planned_status_def Let_def)
qed

lemma plan_phases_sel [simp]:
  "ph_addons (plan_phases spec plan pools ph) = map planned_addon (up_addon_upgrades plan)"
  "ph_nodegroups (plan_phases spec plan pools ph) = map (planned_nodegroup spec) (up_nodegroup_upgrades plan)"
  "map_option pl_upgrade_path (ph_planning (plan_phases spec plan pools ph)) = Some (up_upgrade_path plan)"
  "ph_preflight (plan_phases spec plan pools ph) = ph_preflight ph"
  by (simp_all add: plan_phases_def Let_def)

definition unstarted_pool :: "KarpenterPoolStatus \<Rightarrow> bool" where
  "unstarted_pool p \<longleftrightarrow> kp_status p = CPending \<and> kp_current_batch p = [] \<and> kp_completed_node_claims p = [] \<and>
     kp_replacements p = [] \<and> kp_replaced_nodes p = 0"

lemma plan_pools_unstarted: "plan_pools client m names = Ok pools \<Longrightarrow> list_all unstarted_pool pools"
  by (induction names arbitrary: pools) (auto simp: unstarted_pool_def split: option.splits)

lemma plan_karpenter_unstarted:
  assumes "plan_karpenter w spec = Ok pools"
  shows "list_all unstarted_pool pools" "pools \<noteq> [] \<Longrightarrow> sp_karpenter_node_pools spec \<noteq> None"
  using assms by (auto simp: plan_karpenter_def plan_pools_unstarted split: option.splits if_splits)


definition one_nodegroup_sdk :: eks_sdk where
  "one_nodegroup_sdk = no_answer_sdk\<lparr>
     sdk_describe_cluster := (\<lambda>c. Inr (Some \<lparr>sc_name = Some c, sc_version = Some ''1.33'', sc_endpoint = None, sc_ca_data = None,
       sc_deletion_protection = Some True\<rparr>)),
     sdk_list_addons := (\<lambda>_. Inr []), sdk_list_nodegroups := (\<lambda>_. Inr [''workers'']),
     sdk_describe_nodegroup := (\<lambda>_ n. Inr (Some \<lparr>sn_nodegroup_name = Some n, sn_version = Some ''1.33''\<rparr>)),
     sdk_update_cluster_version := (\<lambda>_ _. Inr (Some ''u-1'')),
     sdk_update_nodegroup_version := (\<lambda>_ _ _. Inr (Some ''u-2'')),
     sdk_describe_update := (\<lambda>_ _ _. Inr (Some ''Successful''))\<rparr>"


text \<open>
  A rollback that follows a recorded rollback is rejected before anything is read from AWS:
  whatever the environment answers, planning produces the failed status, and it is the only way
  planning produces one.
\<close>

theorem consecutive_rollback_rejected:
  "(is_consecutive_rollback (sp_upgrade_mode spec) (st_last_transition s) \<longrightarrow>
      (\<exists>s'. planning_execute w spec s = Ok s' \<and> st_phase s' = Some Failed \<and> st_phases s' = st_phases s \<and>
            (\<exists>c. get_condition ''Ready'' s' = Some c \<and> uc_reason c = ''ConsecutiveRollbackRejected''))) \<and>
   (\<forall>s'. planning_execute w spec s = Ok s' \<and> st_phase s' = Some Failed \<longrightarrow>
      is_consecutive_rollback (sp_upgrade_mode spec) (st_last_transition s))"
proof (cases "is_consecutive_rollback (sp_upgrade_mode spec) (st_last_transition s)")
  case True
  then obtain m where "reject_consecutive_rollback (w_now w) spec s =
      Some (set_condition (w_now w) ''Ready'' ''False'' ''ConsecutiveRollbackRejected'' (Some m) (set_failed (w_now w) m s))"
    by (simp add: reject_consecutive_rollback_def Let_def del: is_consecutive_rollback.simps)
  then show ?thesis
    using True by (auto simp: planning_execute_def simp del: is_consecutive_rollback.simps)
next
  case False
  then show ?thesis
    by (auto elim!: planning_execute_Ok simp del: is_consecutive_rollback.simps split: if_splits)
qed

theorem consecutive_rollback_rejected_witness:
  "\<exists>s'. planning_execute (world_at no_answer_sdk 0) (demo_spec\<lparr>sp_upgrade_mode := Rollback, sp_target_version := ''1.32''\<rparr>)
      (default_status\<lparr>st_last_transition := Some \<lparr>tr_mode = Rollback, tr_to_version = ''1.33'', tr_completed_at = 0\<rparr>\<rparr>) = Ok s'
    \<and> st_phase s' = Some Failed"
  using consecutive_rollback_rejected [of "demo_spec\<lparr>sp_upgrade_mode := Rollback, sp_target_version := ''1.32''\<rparr>"
      "default_status\<lparr>st_last_transition := Some \<lparr>tr_mode = Rollback, tr_to_version = ''1.33'', tr_completed_at = 0\<rparr>\<rparr>"
      "world_at no_answer_sdk 0"]
  by auto

end
