(* ===== verification/Kuo_Preflight.thy ===== *)
theory Kuo_Preflight
  imports Kuo_World
begin

section \<open>Preflight phase (phases/preflight.rs, phases/preflight/checks.rs)\<close>

text \<open>
  The checks that gate an upgrade: EKS insights, deletion protection, disruption budgets and the
  Karpenter probes. A check whose probe fails is recorded as skipped; a failed check fails the
  resource; a dry run stops here.
\<close>

subsection \<open>Check results\<close>

datatype CheckCategory = Mandatory

datatype CheckStatus = Pass | Fail

record PreflightCheckResult =
  cr_check_name :: string
  cr_category :: CheckCategory
  cr_status :: CheckStatus
  cr_summary :: string
  cr_resources :: "string list"

record SkippedCheck =
  sk_name :: string
  sk_reason :: string

record PreflightResults =
  pf_results :: "PreflightCheckResult list"
  pf_skipped :: "SkippedCheck list"

definition check_deletion_protection :: "bool \<Rightarrow> PreflightCheckResult" where
  "check_deletion_protection enabled =
     \<lparr>cr_check_name = ''EKS Deletion Protection'', cr_category = Mandatory,
      cr_status = (if enabled then Pass else Fail),
      cr_summary = (if enabled then ''Deletion protection is enabled'' else ''Deletion protection is disabled''),
      cr_resources = []\<rparr>"

definition check_cluster_insights :: "InsightsSummary \<Rightarrow> PreflightCheckResult" where
  "check_cluster_insights summary =
     (let tail = show_nat (is_total_findings summary) @ '' total: '' @ show_nat (is_warning_count summary) @ '' warning, '' @
                 show_nat (is_passing_count summary) @ '' passing, '' @ show_nat (is_info_count summary) @ '' info)''
      in \<lparr>cr_check_name = ''EKS Cluster Insights'', cr_category = Mandatory,
          cr_status = (if has_critical_blockers summary then Fail else Pass),
          cr_summary =
            (if has_critical_blockers summary
             then show_nat (is_critical_count summary) @ '' critical insight(s) found that may block upgrade ('' @ tail
             else ''No critical insights ('' @ tail),
          cr_resources =
            concat (map (\<lambda>f. map (\<lambda>r. ir_resource_type r @ '':'' @ ir_resource_id r) (if_resources f))
              (filter (\<lambda>f. if_severity f = ''ERROR'' \<or> if_severity f = ''CRITICAL'') (is_findings summary)))\<rparr>)"

definition check_karpenter_v1_api :: "bool \<Rightarrow> PreflightCheckResult" where
  "check_karpenter_v1_api available =
     \<lparr>cr_check_name = ''Karpenter v1 API'', cr_category = Mandatory,
      cr_status = (if available then Pass else Fail),
      cr_summary = (if available then ''Karpenter v1 API is served''
        else ''Karpenter v1 API (NodePool/NodeClaim/EC2NodeClass) not found; v1beta1 and earlier are unsupported''),
      cr_resources = []\<rparr>"

definition check_karpenter_ami_selector :: "nat \<Rightarrow> string list \<Rightarrow> PreflightCheckResult" where
  "check_karpenter_ami_selector checked pinned_pools =
     \<lparr>cr_check_name = ''Karpenter AMI Selector'', cr_category = Mandatory,
      cr_status = (if pinned_pools = [] then Pass else Fail),
      cr_summary =
        (if pinned_pools = []
         then ''All target NodePools resolve their AMI via alias @latest ('' @ show_nat checked @ '' nodepools)''
         else show_nat (length pinned_pools) @ '' of '' @ show_nat checked @
              '' NodePool(s) pin a fixed AMI instead of alias @latest. Replacing nodes would reprovision the same version''),
      cr_resources = pinned_pools\<rparr>"

definition check_pdb_drain_deadlock :: "PdbSummary \<Rightarrow> PreflightCheckResult" where
  "check_pdb_drain_deadlock summary =
     \<lparr>cr_check_name = ''PDB Drain Deadlock'', cr_category = Mandatory,
      cr_status = (if has_blocking_pdbs summary then Fail else Pass),
      cr_summary =
        (if has_blocking_pdbs summary
         then show_nat (blocking_count summary) @ '' of '' @ show_nat (ps_total_pdbs summary) @
              '' PodDisruptionBudgets block node drain because they allow zero disruptions''
         else ''No PodDisruptionBudget blocks node drain, '' @ show_nat (ps_total_pdbs summary) @ '' checked''),
      cr_resources = ps_blocking summary\<rparr>"

definition skip_deletion_protection :: "string \<Rightarrow> SkippedCheck" where
  "skip_deletion_protection reason = \<lparr>sk_name = ''EKS Deletion Protection'', sk_reason = reason\<rparr>"

definition skip_cluster_insights :: "string \<Rightarrow> SkippedCheck" where
  "skip_cluster_insights reason = \<lparr>sk_name = ''EKS Cluster Insights'', sk_reason = reason\<rparr>"

definition skip_pdb_drain_deadlock :: "string \<Rightarrow> SkippedCheck" where
  "skip_pdb_drain_deadlock reason = \<lparr>sk_name = ''PDB Drain Deadlock'', sk_reason = reason\<rparr>"

definition skip_karpenter :: "string \<Rightarrow> SkippedCheck" where
  "skip_karpenter reason = \<lparr>sk_name = ''Karpenter NodePools'', sk_reason = reason\<rparr>"

definition mandatory_failed :: "PreflightCheckResult \<Rightarrow> bool" where
  "mandatory_failed c \<longleftrightarrow> cr_category c = Mandatory \<and> cr_status c = Fail"

definition has_mandatory_failures :: "PreflightResults \<Rightarrow> bool" where
  "has_mandatory_failures p = list_ex mandatory_failed (pf_results p)"

definition mandatory_failure_reasons :: "PreflightResults \<Rightarrow> string list" where
  "mandatory_failure_reasons p =
     map (\<lambda>c. if cr_resources c = [] then ''['' @ cr_check_name c @ ''] '' @ cr_summary c
              else ''['' @ cr_check_name c @ ''] '' @ cr_summary c @ '': '' @ join '', '' (cr_resources c))
       (filter mandatory_failed (pf_results p))"

definition push_check :: "PreflightCheckResult \<Rightarrow> PreflightResults \<Rightarrow> PreflightResults" where
  "push_check c p = p\<lparr>pf_results := pf_results p @ [c]\<rparr>"

definition push_skip :: "SkippedCheck \<Rightarrow> PreflightResults \<Rightarrow> PreflightResults" where
  "push_skip s p = p\<lparr>pf_skipped := pf_skipped p @ [s]\<rparr>"

fun status_verb :: "string \<Rightarrow> string" where
  "status_verb st = (if st = ''Pass'' then ''passed'' else if st = ''Fail'' then ''failed'' else ''was skipped'')"

definition build_check_statuses :: "PreflightResults \<Rightarrow> PreflightCheckStatus list" where
  "build_check_statuses p =
     map (\<lambda>c. \<lparr>pc_name = cr_check_name c, pc_status = (case cr_status c of Pass \<Rightarrow> ''Pass'' | Fail \<Rightarrow> ''Fail''),
               pc_message = cr_summary c, pc_resources = cr_resources c\<rparr>) (pf_results p) @
     map (\<lambda>s. \<lparr>pc_name = sk_name s, pc_status = ''Skip'', pc_message = sk_reason s, pc_resources = []\<rparr>) (pf_skipped p)"

subsection \<open>Karpenter checks\<close>

fun ami_loop :: "kube_api \<Rightarrow> string list \<Rightarrow> string list \<Rightarrow> PreflightResults \<Rightarrow> string list \<times> PreflightResults" where
  "ami_loop kc [] pinned p = (pinned, p)"
| "ami_loop kc (np # names) pinned p =
     (case nodepool_ami_terms kc np of
        Ok terms \<Rightarrow> ami_loop kc names (if is_pinned_ami terms then pinned @ [np] else pinned) p
      | _ \<Rightarrow> ami_loop kc names pinned (push_skip (skip_karpenter ''unable to read EC2NodeClass'') p))"

definition run_karpenter_checks :: "kube_api \<Rightarrow> KarpenterNodePoolsConfig \<Rightarrow> PreflightResults \<Rightarrow> PreflightResults" where
  "run_karpenter_checks kc cfg p =
     (case v1_available kc of
        Ok True \<Rightarrow>
          (let p1 = push_check (check_karpenter_v1_api True) p
           in case (if selects_all cfg then list_nodepool_names kc else Ok (kc_node_pools cfg)) of
                Ok names \<Rightarrow>
                  (let (pinned, p2) = ami_loop kc names [] p1
                   in push_check (check_karpenter_ami_selector (length names) pinned) p2)
              | _ \<Rightarrow> push_skip (skip_karpenter ''unable to list NodePools'') p1)
      | Ok False \<Rightarrow> push_check (check_karpenter_v1_api False) p
      | _ \<Rightarrow> push_skip (skip_karpenter ''Karpenter API probe failed'') p)"

subsection \<open>The phase\<close>

fun insights_category :: "UpgradeMode \<Rightarrow> string" where
  "insights_category Forward = ''UPGRADE_READINESS''"
| "insights_category Rollback = ''ROLLBACK_READINESS''"

definition insights_check :: "world \<Rightarrow> EKSUpgradeSpec \<Rightarrow> PreflightResults \<Rightarrow> PreflightResults" where
  "insights_check w spec p =
     (case check_insights_readiness (w_sdk w) (sp_cluster_name spec) (insights_category (sp_upgrade_mode spec)) of
        Ok (is_ready, summary) \<Rightarrow> push_check (check_cluster_insights summary) p
      | _ \<Rightarrow> push_skip (skip_cluster_insights ''EKS Insights API unavailable'') p)"

definition protection_check :: "ClusterInfo \<Rightarrow> PreflightResults \<Rightarrow> PreflightResults" where
  "protection_check cluster p =
     (case ci_deletion_protection cluster of
        Some enabled \<Rightarrow> push_check (check_deletion_protection enabled) p
      | None \<Rightarrow> push_skip (skip_deletion_protection ''unable to determine'') p)"

definition pdb_check :: "world \<Rightarrow> EKSUpgradeSpec \<Rightarrow> EKSUpgradeStatus \<Rightarrow> PreflightResults \<Rightarrow> PreflightResults" where
  "pdb_check w spec s p =
     (if ph_nodegroups (st_phases s) \<noteq> [] then
        (case target_client w spec of
           Ok kc \<Rightarrow>
             (case check_pdbs kc of
                Ok summary \<Rightarrow> push_check (check_pdb_drain_deadlock summary) p
              | _ \<Rightarrow> push_skip (skip_pdb_drain_deadlock ''Kubernetes API unavailable'') p)
         | _ \<Rightarrow> push_skip (skip_pdb_drain_deadlock ''Kubernetes API unavailable'') p)
      else push_skip (skip_pdb_drain_deadlock ''no managed node group upgrades'') p)"

definition karpenter_check :: "world \<Rightarrow> EKSUpgradeSpec \<Rightarrow> PreflightResults \<Rightarrow> PreflightResults" where
  "karpenter_check w spec p =
     (case sp_karpenter_node_pools spec of
        None \<Rightarrow> p
      | Some cfg \<Rightarrow>
          if kc_enabled cfg then
            (case target_client w spec of
               Ok kc \<Rightarrow> run_karpenter_checks kc cfg p
             | _ \<Rightarrow> push_skip (skip_karpenter ''Kubernetes API unavailable'') p)
          else p)"

definition preflight_results :: "world \<Rightarrow> EKSUpgradeSpec \<Rightarrow> EKSUpgradeStatus \<Rightarrow> PreflightResults kuo_res" where
  "preflight_results w spec s =
     (let p1 = insights_check w spec \<lparr>pf_results = [], pf_skipped = []\<rparr>
      in rbind (describe_cluster (eks_client w spec) (sp_cluster_name spec)) (\<lambda>found.
         rbind (ok_or found (Kuo (ClusterNotFound (sp_cluster_name spec)))) (\<lambda>cluster.
         Ok (karpenter_check w spec (pdb_check w spec s (protection_check cluster p1))))))"

definition DRY_RUN_MESSAGE :: string where
  "DRY_RUN_MESSAGE = ''Dry-run: preflight passed, plan generated but not executed''"

definition preflight_execute :: "world \<Rightarrow> EKSUpgradeSpec \<Rightarrow> EKSUpgradeStatus \<Rightarrow> EKSUpgradeStatus kuo_res" where
  "preflight_execute w spec s =
     rbind (preflight_results w spec s) (\<lambda>p.
     let s1 = upd_phases (\<lambda>ph. ph\<lparr>ph_preflight := Some \<lparr>pf_checks = build_check_statuses p\<rparr>\<rparr>) s
     in if has_mandatory_failures p then
          Ok (set_failed (w_now w) (''Preflight check failed: '' @ join ''; '' (mandatory_failure_reasons p)) s1)
        else if sp_dry_run spec then
          Ok (set_condition (w_now w) ''Ready'' ''True'' ''DryRunCompleted'' (Some DRY_RUN_MESSAGE)
                ((set_phase (w_now w) Completed s1)\<lparr>st_message := Some DRY_RUN_MESSAGE\<rparr>))
        else Ok (transition_to (w_now w) (after_preflight s1 (sp_upgrade_mode spec)) s1))"

subsection \<open>What the gate decides\<close>

lemma has_mandatory_failures_push [simp]:
  "has_mandatory_failures (push_check c p) \<longleftrightarrow> has_mandatory_failures p \<or> mandatory_failed c"
  "has_mandatory_failures (push_skip k p) = has_mandatory_failures p"
  "\<not> has_mandatory_failures \<lparr>pf_results = [], pf_skipped = ks\<rparr>"
  by (simp_all add: has_mandatory_failures_def push_check_def push_skip_def disj_commute)

lemma mandatory_failed_checks [simp]:
  "mandatory_failed (check_deletion_protection b) \<longleftrightarrow> \<not> b"
  "mandatory_failed (check_cluster_insights sm) \<longleftrightarrow> has_critical_blockers sm"
  "mandatory_failed (check_karpenter_v1_api b) \<longleftrightarrow> \<not> b"
  "mandatory_failed (check_karpenter_ami_selector n ps) \<longleftrightarrow> ps \<noteq> []"
  "mandatory_failed (check_pdb_drain_deadlock pd) \<longleftrightarrow> has_blocking_pdbs pd"
  by (simp_all add: mandatory_failed_def check_deletion_protection_def check_cluster_insights_def
      check_karpenter_v1_api_def check_karpenter_ami_selector_def check_pdb_drain_deadlock_def Let_def)

text \<open>The specification: four independent reasons to block.\<close>

definition insights_block :: "world \<Rightarrow> EKSUpgradeSpec \<Rightarrow> bool" where
  "insights_block w spec =
     (case sdk_list_insights (w_sdk w) (sp_cluster_name spec) (insights_category (sp_upgrade_mode spec)) of
        Inr xs \<Rightarrow> list_ex (\<lambda>i. is_critical_status (insight_status_text i)) xs
      | Inl _ \<Rightarrow> False)"

definition pdbs_block :: "world \<Rightarrow> EKSUpgradeSpec \<Rightarrow> EKSUpgradeStatus \<Rightarrow> bool" where
  "pdbs_block w spec s \<longleftrightarrow> ph_nodegroups (st_phases s) \<noteq> [] \<and>
     (case target_client w spec of
        Ok kc \<Rightarrow> (case k_list_pdbs kc of Inr pdbs \<Rightarrow> list_ex (\<lambda>d. pdb_blocking_id d \<noteq> None) pdbs | Inl _ \<Rightarrow> False)
      | _ \<Rightarrow> False)"

definition target_pools :: "kube_api \<Rightarrow> KarpenterNodePoolsConfig \<Rightarrow> string list" where
  "target_pools kc cfg =
     (if selects_all cfg then (case list_nodepool_names kc of Ok ns \<Rightarrow> ns | _ \<Rightarrow> []) else kc_node_pools cfg)"

definition pool_pinned :: "kube_api \<Rightarrow> string \<Rightarrow> bool" where
  "pool_pinned kc np = (case nodepool_ami_terms kc np of Ok terms \<Rightarrow> is_pinned_ami terms | _ \<Rightarrow> False)"

definition karpenter_block :: "world \<Rightarrow> EKSUpgradeSpec \<Rightarrow> bool" where
  "karpenter_block w spec =
     (case sp_karpenter_node_pools spec of
        None \<Rightarrow> False
      | Some cfg \<Rightarrow> kc_enabled cfg \<and>
          (case target_client w spec of
             Ok kc \<Rightarrow> v1_available kc = Ok False \<or>
               v1_available kc = Ok True \<and>
                 list_ex (pool_pinned kc) (target_pools kc cfg)
           | _ \<Rightarrow> False))"

lemma filter_map_empty: "filter_map f xs = [] \<longleftrightarrow> (\<forall>x \<in> set xs. f x = None)"
  by (induction xs) (auto split: option.splits)

lemma insights_check_failures:
  "has_mandatory_failures (insights_check w spec p) \<longleftrightarrow> has_mandatory_failures p \<or> insights_block w spec"
proof (cases "sdk_list_insights (w_sdk w) (sp_cluster_name spec) (insights_category (sp_upgrade_mode spec))")
  case (Inr xs)
  have "has_critical_blockers (list_insights_loop (w_sdk w) (sp_cluster_name spec) xs empty_insights
          \<lparr>is_total_findings := n\<rparr>) \<longleftrightarrow> list_ex (\<lambda>i. is_critical_status (insight_status_text i)) xs" for n
    by (auto simp: has_critical_blockers_def list_insights_loop_counts empty_insights_def filter_empty_conv list_ex_iff)
  then show ?thesis
    using Inr by (simp add: insights_check_def insights_block_def check_insights_readiness_def list_insights_def Let_def)
qed (simp add: insights_check_def insights_block_def check_insights_readiness_def list_insights_def)

lemma pdb_check_failures:
  "has_mandatory_failures (pdb_check w spec s p) \<longleftrightarrow> has_mandatory_failures p \<or> pdbs_block w spec s"
proof (cases "target_client w spec")
  case (Ok kc)
  then show ?thesis
    by (cases "k_list_pdbs kc")
      (auto simp: pdb_check_def pdbs_block_def check_pdbs_def has_blocking_pdbs_def filter_map_empty list_ex_iff)
qed (simp_all add: pdb_check_def pdbs_block_def)

lemma protection_check_failures:
  "has_mandatory_failures (protection_check c p) \<longleftrightarrow> has_mandatory_failures p \<or> ci_deletion_protection c = Some False"
  by (auto simp: protection_check_def split: option.splits)

lemma ami_loop_failures:
  "ami_loop kc names pinned p = (pinned', p') \<Longrightarrow>
     has_mandatory_failures p' = has_mandatory_failures p \<and>
     pinned' = pinned @ filter (pool_pinned kc) names"
  by (induction kc names pinned p rule: ami_loop.induct) (auto simp: pool_pinned_def split: res.splits if_splits)

lemma run_karpenter_checks_failures:
  "has_mandatory_failures (run_karpenter_checks kc cfg p) \<longleftrightarrow> has_mandatory_failures p \<or>
     v1_available kc = Ok False \<or>
     v1_available kc = Ok True \<and>
       list_ex (pool_pinned kc) (target_pools kc cfg)"
proof (cases "v1_available kc = Ok True")
  case True
  show ?thesis
  proof (cases "if selects_all cfg then list_nodepool_names kc else Ok (kc_node_pools cfg)")
    case (Ok names)
    then have "target_pools kc cfg = names" by (auto simp: target_pools_def split: if_splits)
    then show ?thesis
      using True Ok
      by (auto simp: run_karpenter_checks_def Let_def list_ex_iff filter_empty_conv split: prod.splits dest!: ami_loop_failures)
  next
    case (Err e)
    then have "target_pools kc cfg = []" by (auto simp: target_pools_def split: if_splits)
    then show ?thesis using True Err by (simp add: run_karpenter_checks_def Let_def)
  qed (simp split: if_splits)
qed (auto simp: run_karpenter_checks_def split: res.splits bool.splits)

lemma karpenter_check_failures:
  "has_mandatory_failures (karpenter_check w spec p) \<longleftrightarrow> has_mandatory_failures p \<or> karpenter_block w spec"
  by (auto simp: karpenter_check_def karpenter_block_def run_karpenter_checks_failures split: option.splits res.splits)

lemma preflight_results_failures:
  assumes "preflight_results w spec s = Ok p"
  shows "\<exists>c. describe_cluster (eks_client w spec) (sp_cluster_name spec) = Ok (Some c) \<and>
    (has_mandatory_failures p \<longleftrightarrow>
       insights_block w spec \<or> ci_deletion_protection c = Some False \<or> pdbs_block w spec s \<or> karpenter_block w spec)"
  using assms
  by (auto simp: preflight_results_def Let_def karpenter_check_failures pdb_check_failures protection_check_failures
      insights_check_failures)

lemma preflight_decision:
  assumes "preflight_execute w spec s = Ok s'"
  shows "\<exists>c. describe_cluster (eks_client w spec) (sp_cluster_name spec) = Ok (Some c) \<and>
    (let blocked = insights_block w spec \<or> ci_deletion_protection c = Some False \<or> pdbs_block w spec s \<or> karpenter_block w spec
     in st_phase s' = Some (if blocked then Failed else if sp_dry_run spec then Completed
                            else first_with_work s (work_order (sp_upgrade_mode spec))))"
proof -
  from assms obtain p where p: "preflight_results w spec s = Ok p"
    by (auto simp: preflight_execute_def)
  let ?s1 = "upd_phases (\<lambda>ph. ph\<lparr>ph_preflight := Some \<lparr>pf_checks = build_check_statuses p\<rparr>\<rparr>) s"
  have "after_preflight ?s1 mode = first_with_work s (work_order mode)" for mode
    by (cases mode) (simp_all add: first_with_work_def has_cp_steps_def has_addons_def has_nodegroups_def has_karpenter_def)
  moreover from assms p have "s' = (if has_mandatory_failures p
      then set_failed (w_now w) (''Preflight check failed: '' @ join ''; '' (mandatory_failure_reasons p)) ?s1
      else if sp_dry_run spec
      then set_condition (w_now w) ''Ready'' ''True'' ''DryRunCompleted'' (Some DRY_RUN_MESSAGE)
             ((set_phase (w_now w) Completed ?s1)\<lparr>st_message := Some DRY_RUN_MESSAGE\<rparr>)
      else transition_to (w_now w) (after_preflight ?s1 (sp_upgrade_mode spec)) ?s1)"
    by (simp add: preflight_execute_def Let_def split: if_splits)
  ultimately show ?thesis
    using preflight_results_failures [OF p] by (auto simp: Let_def)
qed

text \<open>The budgets that allow no disruption, which the documentation says always block.\<close>

definition zero_budgets :: "world \<Rightarrow> EKSUpgradeSpec \<Rightarrow> pdb_object list" where
  "zero_budgets w spec =
     (case target_client w spec of
        Ok kc \<Rightarrow> (case k_list_pdbs kc of
            Inr pdbs \<Rightarrow> filter (\<lambda>d. case pdb_status d of Some (allowed, expected) \<Rightarrow> allowed = 0 | None \<Rightarrow> False) pdbs
          | Inl _ \<Rightarrow> [])
      | _ \<Rightarrow> [])"

definition expects_no_pods :: "pdb_object \<Rightarrow> bool" where
  "expects_no_pods d \<longleftrightarrow> (case pdb_status d of Some (allowed, expected) \<Rightarrow> expected \<le> 0 | None \<Rightarrow> False)"

lemma pdbs_block_zero_budgets:
  "pdbs_block w spec s \<longleftrightarrow> ph_nodegroups (st_phases s) \<noteq> [] \<and> \<not> list_all expects_no_pods (zero_budgets w spec)"
proof -
  have "pdb_blocking_id d \<noteq> None \<longleftrightarrow>
      (case pdb_status d of Some (allowed, expected) \<Rightarrow> allowed = 0 | None \<Rightarrow> False) \<and> \<not> expects_no_pods d" for d
    by (auto simp: pdb_blocking_id_def expects_no_pods_def split: option.splits)
  then show ?thesis
    by (auto simp: pdbs_block_def zero_budgets_def list_ex_iff list_all_iff split: res.splits sum.splits)
qed


definition protected_sdk :: "bool option \<Rightarrow> eks_sdk" where
  "protected_sdk protection = no_answer_sdk\<lparr>sdk_describe_cluster := (\<lambda>c. Inr (Some \<lparr>sc_name = Some c, sc_version = Some ''1.33'',
     sc_endpoint = None, sc_ca_data = None, sc_deletion_protection = protection\<rparr>))\<rparr>"

lemma protected_sdk_cluster:
  "describe_cluster (eks_client (world_at (protected_sdk b) now) spec) c =
     Ok (Some \<lparr>ci_name = c, ci_version = ''1.33'', ci_region = sp_region spec, ci_endpoint = None, ci_ca_data = None,
               ci_deletion_protection = b\<rparr>)"
  by (simp add: describe_cluster_def eks_client_def world_at_def protected_sdk_def unwrap_or_default_def)

lemma preflight_execute_Ok:
  assumes "describe_cluster (eks_client w spec) (sp_cluster_name spec) = Ok (Some c)"
  shows "\<exists>s'. preflight_execute w spec s = Ok s'"
  using assms by (simp add: preflight_execute_def preflight_results_def Let_def)


text \<open>
  The disruption-budget check guards node groups only. A plan whose only work is Karpenter node
  replacement, which drains nodes just the same, passes preflight whatever disruption budgets the
  cluster has.
\<close>

theorem karpenter_only_plan_ignores_disruption_budgets:
  assumes "describe_cluster (eks_client w spec) (sp_cluster_name spec) = Ok (Some c)"
    and "ci_deletion_protection c \<noteq> Some False" and "\<not> insights_block w spec" and "\<not> karpenter_block w spec"
    and "sp_upgrade_mode spec = Forward" and "\<not> sp_dry_run spec"
    and "has_karpenter s" and "\<not> has_cp_steps s" and "\<not> has_addons s" and "\<not> has_nodegroups s"
  shows "\<exists>s'. preflight_execute w spec s = Ok s' \<and> st_phase s' = Some UpgradingKarpenterNodePools"
proof -
  let ?p = "karpenter_check w spec (pdb_check w spec s (protection_check c (insights_check w spec \<lparr>pf_results = [], pf_skipped = []\<rparr>)))"
  have p: "preflight_results w spec s = Ok ?p"
    using assms(1) by (simp add: preflight_results_def)
  have "\<not> pdbs_block w spec s" using assms(10) by (simp add: pdbs_block_def has_nodegroups_def)
  then have "\<not> has_mandatory_failures ?p"
    using assms(2-4) by (simp add: karpenter_check_failures pdb_check_failures protection_check_failures insights_check_failures)
  moreover have "has_karpenter (upd_phases (\<lambda>ph. ph\<lparr>ph_preflight := x\<rparr>) s)" "\<not> has_cp_steps (upd_phases (\<lambda>ph. ph\<lparr>ph_preflight := x\<rparr>) s)"
      "\<not> has_addons (upd_phases (\<lambda>ph. ph\<lparr>ph_preflight := x\<rparr>) s)" "\<not> has_nodegroups (upd_phases (\<lambda>ph. ph\<lparr>ph_preflight := x\<rparr>) s)" for x
    using assms(7-10) by (simp_all add: has_karpenter_def has_cp_steps_def has_addons_def has_nodegroups_def)
  ultimately show ?thesis
    using p assms(5,6) by (simp add: preflight_execute_def Let_def)
qed

definition deadlocked_kube :: kube_api where
  "deadlocked_kube = silent_kube\<lparr>k_list_pdbs := Inr [\<lparr>pdb_namespace = Some ''payments'', pdb_name = Some ''worker'', pdb_status = Some (0, 3)\<rparr>]\<rparr>"

definition karpenter_only_status :: EKSUpgradeStatus where
  "karpenter_only_status = default_status\<lparr>st_phases := default_phases\<lparr>ph_karpenter_node_pools :=
     Some \<lparr>ks_strategy = ''Replace'', ks_active_pool = None, ks_total_nodes = 0, ks_replaced_nodes = 0,
       ks_pools = [\<lparr>kp_name = ''default'', kp_status = CPending, kp_total_nodes = 2, kp_replaced_nodes = 0,
         kp_completed_node_claims = [], kp_replacements = [], kp_current_batch = []\<rparr>]\<rparr>\<rparr>\<rparr>"

theorem karpenter_only_plan_ignores_disruption_budgets_witness:
  "(\<exists>summary. check_pdbs deadlocked_kube = Ok summary \<and> has_blocking_pdbs summary) \<and>
   (\<exists>s'. preflight_execute ((world_at (protected_sdk (Some True)) 0)\<lparr>w_in_cluster := deadlocked_kube\<rparr>) demo_spec karpenter_only_status = Ok s'
     \<and> st_phase s' = Some UpgradingKarpenterNodePools)"
proof
  show "\<exists>summary. check_pdbs deadlocked_kube = Ok summary \<and> has_blocking_pdbs summary"
    by (simp add: check_pdbs_def deadlocked_kube_def has_blocking_pdbs_def pdb_blocking_id_def)
  show "\<exists>s'. preflight_execute ((world_at (protected_sdk (Some True)) 0)\<lparr>w_in_cluster := deadlocked_kube\<rparr>) demo_spec karpenter_only_status = Ok s'
     \<and> st_phase s' = Some UpgradingKarpenterNodePools"
    by (intro karpenter_only_plan_ignores_disruption_budgets
        [of _ _ "\<lparr>ci_name = ''prod'', ci_version = ''1.33'', ci_region = ''eu-west-1'', ci_endpoint = None, ci_ca_data = None,
               ci_deletion_protection = Some True\<rparr>"])
      (simp_all add: describe_cluster_def eks_client_def unwrap_or_default_def demo_spec_def insights_block_def karpenter_block_def world_at_def protected_sdk_def
        no_answer_sdk_def Let_def karpenter_only_status_def has_karpenter_def has_cp_steps_def has_addons_def has_nodegroups_def
        default_phases_def)
qed

lemma preflight_execute_no_panic [simp]: "preflight_execute w spec s \<noteq> Panic"
  by (auto simp: preflight_execute_def preflight_results_def rbind_eq_Panic Let_def)

lemma same_plan_preflight [simp]: "same_plan s0 (upd_phases (\<lambda>ph. ph\<lparr>ph_preflight := x\<rparr>) s) = same_plan s0 s"
  by (simp add: same_plan_def)

lemma same_plan_message [simp]: "same_plan s0 (s\<lparr>st_message := m\<rparr>) = same_plan s0 s"
  by (simp add: same_plan_def)

lemma preflight_execute_same_plan: "preflight_execute w spec s = Ok s' \<Longrightarrow> same_plan s s'"
  by (auto simp: preflight_execute_def Let_def split: if_splits)

end
