(* ===== verification/Kuo_Notify.thy ===== *)
theory Kuo_Notify
  imports Kuo_Status
begin

section \<open>Notifications (render.rs, notify.rs, notify/slack.rs)\<close>

text \<open>
  The text of the Slack notifications and whether one is sent. Sending is an HTTP request whose
  result the code ignores; a notification is modelled by the message it carries.
\<close>

subsection \<open>Rendering\<close>

text \<open>The UTF-8 encoding of the arrow between two versions.\<close>

definition ARROW :: string where
  "ARROW = '' '' @ [CHR 0xE2, CHR 0x86, CHR 0x92] @ '' ''"

fun phase_to_string :: "UpgradePhase \<Rightarrow> string" where
  "phase_to_string Pending = ''Pending''"
| "phase_to_string Planning = ''Planning''"
| "phase_to_string PreflightChecking = ''PreflightChecking''"
| "phase_to_string UpgradingControlPlane = ''UpgradingControlPlane''"
| "phase_to_string UpgradingAddons = ''UpgradingAddons''"
| "phase_to_string UpgradingNodeGroups = ''UpgradingNodeGroups''"
| "phase_to_string UpgradingKarpenterNodePools = ''UpgradingKarpenterNodePools''"
| "phase_to_string RollingBackNodeGroups = ''RollingBackNodeGroups''"
| "phase_to_string RollingBackAddons = ''RollingBackAddons''"
| "phase_to_string RollingBackControlPlane = ''RollingBackControlPlane''"
| "phase_to_string Completed = ''Completed''"
| "phase_to_string Failed = ''Failed''"

definition render_upgrade_path :: "EKSUpgradeSpec \<Rightarrow> EKSUpgradeStatus \<Rightarrow> string" where
  "render_upgrade_path spec s =
     (let planning = ph_planning (st_phases s);
          source = (case Option.bind planning pl_source_version of
                      Some v \<Rightarrow> v
                    | None \<Rightarrow> (case st_current_version s of Some v \<Rightarrow> v | None \<Rightarrow> ''unknown''));
          path = (case planning of None \<Rightarrow> [] | Some p \<Rightarrow> join ARROW (pl_upgrade_path p))
      in if path = [] then source @ ARROW @ sp_target_version spec else source @ ARROW @ path)"

definition render_mode :: "EKSUpgradeSpec \<Rightarrow> string" where
  "render_mode spec = (if sp_dry_run spec then ''Dry Run'' else ''Live Upgrade'')"

definition render_duration :: "timestamp \<Rightarrow> timestamp \<Rightarrow> string" where
  "render_duration start finish =
     (let secs = nat \<bar>num_seconds (finish - start)\<bar>
      in show_nat (secs div 60) @ ''m '' @ show_nat (secs mod 60) @ ''s'')"

definition run_duration :: "EKSUpgradeStatus \<Rightarrow> string" where
  "run_duration s =
     (case (st_started_at s, st_completed_at s) of
        (Some start, Some finish) \<Rightarrow> render_duration start finish
      | _ \<Rightarrow> ''unknown'')"

subsection \<open>Messages\<close>

record SlackMessage =
  sm_header :: string
  sm_fields :: "(string \<times> string) list"
  sm_context :: string

definition should_notify :: "EKSUpgradeSpec \<Rightarrow> bool" where
  "should_notify spec =
     (case sp_notification spec of
        None \<Rightarrow> False
      | Some config \<Rightarrow> if sp_dry_run spec then nc_on_dry_run config else nc_on_upgrade config)"

definition sent_by :: "string \<Rightarrow> string" where
  "sent_by resource_name = ''Sent by kuo via EKSUpgrade/'' @ resource_name"

definition planned_pools :: "EKSUpgradeStatus \<Rightarrow> KarpenterNodePoolsStatus option" where
  "planned_pools s =
     Option.bind (ph_karpenter_node_pools (st_phases s)) (\<lambda>k. if ks_pools k = [] then None else Some k)"

definition build_started_message :: "string \<Rightarrow> EKSUpgradeSpec \<Rightarrow> EKSUpgradeStatus \<Rightarrow> SlackMessage" where
  "build_started_message resource_name spec s =
     (let enabled = Option.bind (sp_karpenter_node_pools spec) (\<lambda>k. if kc_enabled k then Some k else None);
          phases = join ARROW ([''Planning'', ''Preflight'', ''ControlPlane'', ''Addons'', ''NodeGroups''] @
                     (if enabled \<noteq> None then [''KarpenterNodePools''] else []));
          base = [(''Cluster'', sp_cluster_name spec), (''Region'', sp_region spec),
                  (''Target Version'', sp_target_version spec), (''Mode'', render_mode spec),
                  (''Upgrade Path'', render_upgrade_path spec s), (''Phases'', phases)];
          extra = (case enabled of
                     None \<Rightarrow> []
                   | Some kp \<Rightarrow>
                       (case planned_pools s of
                          Some k \<Rightarrow>
                            [(''Karpenter NodePools'', show_nat (length (ks_pools k))),
                             (''Karpenter Nodes To Replace'', show_nat (as_u32 (sum_list (map kp_total_nodes (ks_pools k)))))]
                        | None \<Rightarrow>
                            [(''Karpenter NodePools'',
                              if selects_all kp then ''all'' else show_nat (length (kc_node_pools kp)))]))
      in \<lparr>sm_header = ''EKS Upgrade Started'', sm_fields = base @ extra, sm_context = sent_by resource_name\<rparr>)"

definition build_completed_message :: "string \<Rightarrow> EKSUpgradeSpec \<Rightarrow> EKSUpgradeStatus \<Rightarrow> SlackMessage" where
  "build_completed_message resource_name spec s =
     \<lparr>sm_header = ''EKS Upgrade Completed'',
      sm_fields =
        [(''Cluster'', sp_cluster_name spec), (''Mode'', render_mode spec), (''Upgrade Path'', render_upgrade_path spec s)] @
        (case planned_pools s of
           None \<Rightarrow> []
         | Some kp \<Rightarrow>
             [(''Karpenter NodePools'', show_nat (length (ks_pools kp))),
              (''Karpenter Nodes Replaced'', show_nat (ks_replaced_nodes kp) @ ''/'' @ show_nat (ks_total_nodes kp))]) @
        [(''Duration'', run_duration s)],
      sm_context = sent_by resource_name\<rparr>"

definition build_failed_message :: "string \<Rightarrow> EKSUpgradeSpec \<Rightarrow> EKSUpgradeStatus \<Rightarrow> string \<Rightarrow> SlackMessage" where
  "build_failed_message resource_name spec s err =
     \<lparr>sm_header = ''EKS Upgrade Failed'',
      sm_fields =
        [(''Cluster'', sp_cluster_name spec), (''Mode'', render_mode spec),
         (''Failed Phase'', case st_phase s of None \<Rightarrow> ''Unknown'' | Some p \<Rightarrow> phase_to_string p),
         (''Duration'', run_duration s), (''Error'', err)],
      sm_context = sent_by resource_name\<rparr>"

lemma render_duration_sym: "render_duration a b = render_duration b a"
proof -
  have "\<bar>num_seconds (a - b)\<bar> = \<bar>num_seconds (b - a)\<bar>"
    by (simp add: num_seconds_def trunc_div_def abs_mult abs_minus_commute sgn_if)
  then show ?thesis by (simp add: render_duration_def)
qed

lemma phase_to_string_inject [simp]: "phase_to_string p = phase_to_string q \<longleftrightarrow> p = q"
  by (cases p; cases q) simp_all

end
