(* ===== verification/Kuo_Controller.thy ===== *)
theory Kuo_Controller
  imports Kuo_Planning Kuo_Preflight Kuo_Notify
begin

section \<open>The reconcile loop (controller.rs, status.rs)\<close>

text \<open>
  One reconcile of an EKSUpgrade resource: the terminal-phase and idle guards, the AWS session and
  identity checks, the dispatch to the phase handler, and the status patch with its events and
  notifications. The API server applies every status patch as a JSON merge patch, so a field that
  serde leaves out of the patch keeps its stored value; \<open>merge_status\<close> is that merge on the status
  record, following the \<^verbatim>\<open>skip_serializing_if\<close> attributes of crd/status.rs. Metrics and Grafana
  annotations are not modelled.
\<close>

subsection \<open>The stored resource and the environment\<close>

record EKSUpgrade =
  ob_name :: "string option"
  ob_generation :: "int option"
  ob_spec :: EKSUpgradeSpec
  ob_status :: "EKSUpgradeStatus option"

text \<open>
  What one reconcile meets: the world of the handlers, whether an AWS session and the caller
  identity can be had (an error is its message), whether the patch of the identity and the
  final patch are accepted, and whether a Slack webhook is configured.
\<close>

record env =
  en_world :: world
  en_aws_client :: "string option"  \<comment> \<open>the error of \<^verbatim>\<open>AwsClients::new\<close>, if it fails\<close>
  en_identity :: "string + AwsIdentity"
  en_identity_patch :: bool
  en_patch :: bool
  en_slack :: bool

datatype Action = AwaitChange | Requeue nat | Aborted

record kube_event =
  ke_warning :: bool
  ke_reason :: string
  ke_message :: string

record outcome =
  oc_status :: "EKSUpgradeStatus option"
  oc_action :: Action
  oc_effects :: "effect list"
  oc_events :: "kube_event list"
  oc_slack :: "SlackMessage list"

subsection \<open>Merge patches\<close>

text \<open>An optional object: absent keeps the stored one, present merges into it.\<close>

definition merge_object :: "('a \<Rightarrow> 'a \<Rightarrow> 'a) \<Rightarrow> 'a option \<Rightarrow> 'a option \<Rightarrow> 'a option" where
  "merge_object f old new =
     (case new of None \<Rightarrow> old | Some n \<Rightarrow> Some (case old of None \<Rightarrow> n | Some x \<Rightarrow> f x n))"

definition merge_planning :: "PlanningStatus \<Rightarrow> PlanningStatus \<Rightarrow> PlanningStatus" where
  "merge_planning old new =
     \<lparr>pl_source_version = keep_none (pl_source_version old) (pl_source_version new),
      pl_upgrade_path = keep_empty (pl_upgrade_path old) (pl_upgrade_path new)\<rparr>"

definition merge_preflight :: "PreflightStatus \<Rightarrow> PreflightStatus \<Rightarrow> PreflightStatus" where
  "merge_preflight old new = \<lparr>pf_checks = keep_empty (pf_checks old) (pf_checks new)\<rparr>"

definition merge_control_plane :: "ControlPlaneStatus \<Rightarrow> ControlPlaneStatus \<Rightarrow> ControlPlaneStatus" where
  "merge_control_plane old new = new\<lparr>cp_completed_at := keep_none (cp_completed_at old) (cp_completed_at new)\<rparr>"

definition merge_karpenter :: "KarpenterNodePoolsStatus \<Rightarrow> KarpenterNodePoolsStatus \<Rightarrow> KarpenterNodePoolsStatus" where
  "merge_karpenter old new =
     new\<lparr>ks_strategy := keep_empty (ks_strategy old) (ks_strategy new),
         ks_pools := keep_empty (ks_pools old) (ks_pools new)\<rparr>"

definition merge_phases :: "PhaseStatuses \<Rightarrow> PhaseStatuses \<Rightarrow> PhaseStatuses" where
  "merge_phases old new =
     \<lparr>ph_planning = merge_object merge_planning (ph_planning old) (ph_planning new),
      ph_preflight = merge_object merge_preflight (ph_preflight old) (ph_preflight new),
      ph_control_plane = merge_object merge_control_plane (ph_control_plane old) (ph_control_plane new),
      ph_addons = keep_empty (ph_addons old) (ph_addons new),
      ph_nodegroups = keep_empty (ph_nodegroups old) (ph_nodegroups new),
      ph_karpenter_node_pools = merge_object merge_karpenter (ph_karpenter_node_pools old) (ph_karpenter_node_pools new)\<rparr>"

definition merge_version_info :: "VersionLifecycleInfo \<Rightarrow> VersionLifecycleInfo \<Rightarrow> VersionLifecycleInfo" where
  "merge_version_info old new =
     new\<lparr>vl_end_of_standard_support_date := keep_none (vl_end_of_standard_support_date old) (vl_end_of_standard_support_date new),
         vl_end_of_extended_support_date := keep_none (vl_end_of_extended_support_date old) (vl_end_of_extended_support_date new)\<rparr>"

definition merge_lifecycle :: "LifecycleStatus \<Rightarrow> LifecycleStatus \<Rightarrow> LifecycleStatus" where
  "merge_lifecycle old new =
     \<lparr>lc_last_checked_time = lc_last_checked_time new,
      lc_current_version = merge_object merge_version_info (lc_current_version old) (lc_current_version new),
      lc_target_version = merge_object merge_version_info (lc_target_version old) (lc_target_version new),
      lc_error = keep_none (lc_error old) (lc_error new)\<rparr>"

definition merge_status :: "EKSUpgradeStatus \<Rightarrow> EKSUpgradeStatus \<Rightarrow> EKSUpgradeStatus" where
  "merge_status old new =
     \<lparr>st_phase = keep_none (st_phase old) (st_phase new),
      st_current_version = keep_none (st_current_version old) (st_current_version new),
      st_progress = keep_none (st_progress old) (st_progress new),
      st_phases = merge_phases (st_phases old) (st_phases new),
      st_conditions = keep_empty (st_conditions old) (st_conditions new),
      st_started_at = keep_none (st_started_at old) (st_started_at new),
      st_observed_generation = st_observed_generation new,
      st_message = keep_none (st_message old) (st_message new),
      st_completed_at = keep_none (st_completed_at old) (st_completed_at new),
      st_identity = keep_none (st_identity old) (st_identity new),
      st_lifecycle = merge_object merge_lifecycle (st_lifecycle old) (st_lifecycle new),
      st_last_transition = keep_none (st_last_transition old) (st_last_transition new)\<rparr>"

text \<open>\<^verbatim>\<open>status::patch_status\<close> on the stored status; a refused patch leaves it alone.\<close>

definition patch_status :: "bool \<Rightarrow> EKSUpgradeStatus option \<Rightarrow> EKSUpgradeStatus \<Rightarrow> EKSUpgradeStatus option" where
  "patch_status accepted stored new =
     (if accepted then Some (merge_status (case stored of None \<Rightarrow> default_status | Some s \<Rightarrow> s) new) else stored)"

text \<open>
  \<^verbatim>\<open>reset_status_patch\<close> applied to the stored status: what the patch nulls or replaces. The
  progress, the identity, the last transition and the Karpenter pools are absent from the patch.
\<close>

definition apply_reset :: "EKSUpgradeStatus \<Rightarrow> int \<Rightarrow> EKSUpgradeStatus" where
  "apply_reset current generation =
     current\<lparr>st_phase := Some Pending, st_current_version := None, st_message := None, st_started_at := None,
       st_completed_at := None, st_lifecycle := None, st_observed_generation := generation,
       st_conditions := filter (\<lambda>c. uc_type c = ''AWSAuthenticated'') (st_conditions current),
       st_phases := (st_phases current)\<lparr>ph_planning := None, ph_preflight := None, ph_control_plane := None,
         ph_addons := [], ph_nodegroups := []\<rparr>\<rparr>"

subsection \<open>Guards\<close>

definition has_active_update :: "EKSUpgradeStatus \<Rightarrow> bool" where
  "has_active_update s \<longleftrightarrow>
     Option.bind (ph_control_plane (st_phases s)) cp_update_id \<noteq> None \<or>
     list_ex (\<lambda>ng. ng_update_id ng \<noteq> None) (ph_nodegroups (st_phases s))"

definition polling_phases :: "UpgradePhase list" where
  "polling_phases = [Planning, PreflightChecking, UpgradingControlPlane, UpgradingAddons, UpgradingNodeGroups,
     RollingBackNodeGroups, RollingBackAddons, RollingBackControlPlane]"

definition skip_reconcile :: "EKSUpgradeStatus \<Rightarrow> UpgradePhase \<Rightarrow> int \<Rightarrow> bool" where
  "skip_reconcile s phase generation \<longleftrightarrow>
     st_observed_generation s \<ge> generation \<and> phase \<noteq> Pending \<and> \<not> has_active_update s \<and> phase \<notin> set polling_phases"

subsection \<open>Dispatch\<close>

definition with_requeue :: "EKSUpgradeStatus kuo_res \<Rightarrow> (EKSUpgradeStatus \<times> requeue) kuo_io" where
  "with_requeue r = lift (rbind r (\<lambda>s. Ok (s, Some 0)))"

fun dispatch :: "UpgradePhase \<Rightarrow> phase_step" where
  "dispatch Pending w spec s =
     ret (set_phase (w_now w) Planning (s\<lparr>st_started_at := Some (w_now w)\<rparr>), Some 0)"
| "dispatch Planning w spec s = with_requeue (planning_execute w spec s)"
| "dispatch PreflightChecking w spec s = with_requeue (preflight_execute w spec s)"
| "dispatch UpgradingControlPlane w spec s = cp_execute w spec s"
| "dispatch RollingBackControlPlane w spec s = cp_execute w spec s"
| "dispatch UpgradingAddons w spec s = addons_execute w spec s"
| "dispatch RollingBackAddons w spec s = addons_execute w spec s"
| "dispatch UpgradingNodeGroups w spec s = nodegroups_execute w spec s"
| "dispatch RollingBackNodeGroups w spec s = nodegroups_execute w spec s"
| "dispatch UpgradingKarpenterNodePools w spec s = karpenter_execute w spec s"
| "dispatch Completed w spec s = ret (s, None)"
| "dispatch Failed w spec s = ret (s, None)"

subsection \<open>After the handler\<close>

definition finish_status :: "timestamp \<Rightarrow> EKSUpgradeSpec \<Rightarrow> int \<Rightarrow> EKSUpgradeStatus \<Rightarrow> EKSUpgradeStatus" where
  "finish_status now spec generation s =
     (let s1 = s\<lparr>st_observed_generation := generation\<rparr>;
          s2 = s1\<lparr>st_progress := compute_progress s1\<rparr>
      in if st_phase s2 = Some Completed
         then s2\<lparr>st_last_transition := Some \<lparr>tr_mode = sp_upgrade_mode spec, tr_to_version = sp_target_version spec,
                                            tr_completed_at = now\<rparr>\<rparr>
         else s2)"

definition transition_notices :: "env \<Rightarrow> string \<Rightarrow> EKSUpgradeSpec \<Rightarrow> UpgradePhase \<Rightarrow> EKSUpgradeStatus \<Rightarrow> SlackMessage list" where
  "transition_notices e name spec old_phase s =
     (if old_phase = Planning \<and> st_phase s = Some PreflightChecking \<and> en_slack e \<and> should_notify spec
      then [build_started_message name spec s] else [])"

definition terminal_events :: "EKSUpgradeStatus \<Rightarrow> kube_event list" where
  "terminal_events s =
     (if st_phase s = Some Completed then
        [\<lparr>ke_warning = False, ke_reason = ''UpgradeCompleted'', ke_message = unwrap_or ''Upgrade completed successfully'' (st_message s)\<rparr>]
      else if st_phase s = Some Failed then
        [\<lparr>ke_warning = True, ke_reason = ''UpgradeFailed'', ke_message = unwrap_or ''Upgrade failed'' (st_message s)\<rparr>]
      else [])"

definition terminal_notices :: "env \<Rightarrow> string \<Rightarrow> EKSUpgradeSpec \<Rightarrow> EKSUpgradeStatus \<Rightarrow> SlackMessage list" where
  "terminal_notices e name spec s =
     (if \<not> (en_slack e \<and> should_notify spec) then []
      else if st_phase s = Some Completed then [build_completed_message name spec s]
      else if st_phase s = Some Failed
      then [build_failed_message name spec s (unwrap_or ''Upgrade failed'' (st_message s))]
      else [])"

definition requeue_action :: "requeue \<Rightarrow> Action" where
  "requeue_action r = (case r of None \<Rightarrow> AwaitChange | Some d \<Rightarrow> if d = 0 then Requeue 100 else Requeue d)"

definition start_events :: "UpgradePhase \<Rightarrow> EKSUpgradeSpec \<Rightarrow> kube_event list" where
  "start_events phase spec =
     (if phase = Pending
      then [\<lparr>ke_warning = False, ke_reason = ''UpgradeStarted'',
             ke_message = ''Starting upgrade of '' @ sp_cluster_name spec @ '' to '' @ sp_target_version spec\<rparr>]
      else [])"

definition finish_ok :: "env \<Rightarrow> string \<Rightarrow> EKSUpgradeSpec \<Rightarrow> int \<Rightarrow> UpgradePhase \<Rightarrow> EKSUpgradeStatus \<Rightarrow> EKSUpgradeStatus option \<Rightarrow>
    effect list \<Rightarrow> EKSUpgradeStatus \<times> requeue \<Rightarrow> outcome" where
  "finish_ok e name spec generation phase current stored fx sr =
     (let s = finish_status (w_now (en_world e)) spec generation (fst sr)
      in if \<not> en_patch e then
           \<lparr>oc_status = stored, oc_action = Requeue 5000, oc_effects = fx, oc_events = start_events phase spec, oc_slack = []\<rparr>
         else
           \<lparr>oc_status = patch_status True stored s, oc_action = requeue_action (snd sr), oc_effects = fx,
            oc_events = start_events phase spec @
              map (\<lambda>ev. \<lparr>ke_warning = False, ke_reason = re_reason ev, ke_message = re_message ev\<rparr>)
                (replacement_events (ph_karpenter_node_pools (st_phases current)) (ph_karpenter_node_pools (st_phases s))) @
              terminal_events s,
            oc_slack = transition_notices e name spec phase s @ terminal_notices e name spec s\<rparr>)"

definition finish_err :: "env \<Rightarrow> string \<Rightarrow> EKSUpgradeSpec \<Rightarrow> int \<Rightarrow> EKSUpgradeStatus \<Rightarrow> EKSUpgradeStatus option \<Rightarrow>
    effect list \<Rightarrow> error \<Rightarrow> outcome" where
  "finish_err e name spec generation current stored fx err =
     (let now = w_now (en_world e);
          s = current\<lparr>st_observed_generation := generation\<rparr>
      in if error_is_transient err then
           \<lparr>oc_status = patch_status (en_patch e) stored
              (set_condition now ''Ready'' ''False'' ''TransientError'' (Some (error_to_string err)) s),
            oc_action = Requeue 10000, oc_effects = fx, oc_events = [], oc_slack = []\<rparr>
         else
           (let s1 = set_failed now (error_to_string err) s
            in \<lparr>oc_status = patch_status (en_patch e) stored s1, oc_action = AwaitChange, oc_effects = fx,
                oc_events = [\<lparr>ke_warning = True, ke_reason = ''UpgradeFailed'', ke_message = error_to_string err\<rparr>],
                oc_slack = (if en_slack e \<and> should_notify spec
                            then [build_failed_message name spec s1 (error_to_string err)] else [])\<rparr>))"

subsection \<open>Reconcile\<close>

definition quiet :: "EKSUpgradeStatus option \<Rightarrow> Action \<Rightarrow> outcome" where
  "quiet stored act = \<lparr>oc_status = stored, oc_action = act, oc_effects = [], oc_events = [], oc_slack = []\<rparr>"

definition auth_failed :: "timestamp \<Rightarrow> string \<Rightarrow> string \<Rightarrow> string \<Rightarrow> int \<Rightarrow> EKSUpgradeStatus \<Rightarrow> EKSUpgradeStatus" where
  "auth_failed now message reason detail generation current =
     (set_condition now ''AWSAuthenticated'' ''False'' reason (Some detail) (set_failed now message current))
       \<lparr>st_observed_generation := generation\<rparr>"

definition identity_verified :: "timestamp \<Rightarrow> AwsIdentity \<Rightarrow> int \<Rightarrow> EKSUpgradeStatus \<Rightarrow> EKSUpgradeStatus" where
  "identity_verified now identity generation current =
     (set_condition now ''AWSAuthenticated'' ''True'' ''IdentityVerified'' (Some (''account='' @ ai_account_id identity)) current)
       \<lparr>st_identity := Some identity, st_observed_generation := generation\<rparr>"

definition run_phase :: "env \<Rightarrow> string \<Rightarrow> EKSUpgradeSpec \<Rightarrow> int \<Rightarrow> UpgradePhase \<Rightarrow> EKSUpgradeStatus \<Rightarrow> EKSUpgradeStatus option \<Rightarrow> outcome" where
  "run_phase e name spec generation phase current stored =
     (let r = dispatch phase (en_world e) spec current
      in case fst r of
           Ok sr \<Rightarrow> finish_ok e name spec generation phase current stored (snd r) sr
         | Err err \<Rightarrow>
             (let oc = finish_err e name spec generation current stored (snd r) err
              in oc\<lparr>oc_events := start_events phase spec @ oc_events oc\<rparr>)
         | Panic \<Rightarrow> \<lparr>oc_status = stored, oc_action = Aborted, oc_effects = snd r, oc_events = [], oc_slack = []\<rparr>)"

definition reconcile :: "env \<Rightarrow> EKSUpgrade \<Rightarrow> outcome" where
  "reconcile e obj =
     (let name = unwrap_or ''unknown'' (ob_name obj);
          spec = ob_spec obj;
          current = unwrap_or default_status (ob_status obj);
          phase = unwrap_or Pending (st_phase current);
          generation = unwrap_or 0 (ob_generation obj);
          now = w_now (en_world e)
      in if phase = Completed \<or> phase = Failed then
           (if st_observed_generation current < generation then
              (if en_patch e then quiet (Some (apply_reset current generation)) (Requeue 100)
               else quiet (ob_status obj) (Requeue 5000))
            else quiet (ob_status obj) AwaitChange)
         else if skip_reconcile current phase generation then quiet (ob_status obj) AwaitChange
         else
           (case en_aws_client e of
              Some err \<Rightarrow>
                quiet (patch_status (en_patch e) (ob_status obj)
                         (auth_failed now (''AWS client error: '' @ err) ''AuthenticationFailed'' err generation current))
                  (Requeue 60000)
            | None \<Rightarrow>
                (if st_identity current \<noteq> None then run_phase e name spec generation phase current (ob_status obj)
                 else
                   (case en_identity e of
                      Inl err \<Rightarrow>
                        quiet (patch_status (en_patch e) (ob_status obj)
                                 (auth_failed now (''AWS authentication failed: '' @ err) ''IdentityVerificationFailed'' err
                                    generation current))
                          (Requeue 60000)
                    | Inr identity \<Rightarrow>
                        run_phase e name spec generation phase current
                          (patch_status (en_identity_patch e) (ob_status obj)
                             (identity_verified now identity generation current))))))"

definition error_policy :: "EKSUpgrade \<Rightarrow> string \<Rightarrow> Action" where
  "error_policy obj err = Requeue 30000"

subsection \<open>Which path a reconcile takes\<close>

definition obj_status :: "EKSUpgrade \<Rightarrow> EKSUpgradeStatus" where
  "obj_status obj = unwrap_or default_status (ob_status obj)"

definition obj_phase :: "EKSUpgrade \<Rightarrow> UpgradePhase" where
  "obj_phase obj = unwrap_or Pending (st_phase (obj_status obj))"

definition obj_generation :: "EKSUpgrade \<Rightarrow> int" where
  "obj_generation obj = unwrap_or 0 (ob_generation obj)"

definition obj_name :: "EKSUpgrade \<Rightarrow> string" where
  "obj_name obj = unwrap_or ''unknown'' (ob_name obj)"

definition terminal :: "UpgradePhase \<Rightarrow> bool" where
  "terminal p \<longleftrightarrow> p = Completed \<or> p = Failed"

text \<open>The status stored when the handler starts: the identity patch may have been applied.\<close>

definition stored_before_phase :: "env \<Rightarrow> EKSUpgrade \<Rightarrow> EKSUpgradeStatus option" where
  "stored_before_phase e obj =
     (case (st_identity (obj_status obj), en_identity e) of
        (None, Inr identity) \<Rightarrow>
          patch_status (en_identity_patch e) (ob_status obj)
            (identity_verified (w_now (en_world e)) identity (obj_generation obj) (obj_status obj))
      | _ \<Rightarrow> ob_status obj)"

definition authenticated :: "env \<Rightarrow> EKSUpgrade \<Rightarrow> bool" where
  "authenticated e obj \<longleftrightarrow> en_aws_client e = None \<and> (st_identity (obj_status obj) = None \<longrightarrow> (\<exists>i. en_identity e = Inr i))"

definition executes :: "env \<Rightarrow> EKSUpgrade \<Rightarrow> bool" where
  "executes e obj \<longleftrightarrow> \<not> terminal (obj_phase obj) \<and>
     \<not> skip_reconcile (obj_status obj) (obj_phase obj) (obj_generation obj) \<and> authenticated e obj"

lemma reconcile_executes:
  assumes "executes e obj"
  shows "reconcile e obj = run_phase e (obj_name obj) (ob_spec obj) (obj_generation obj) (obj_phase obj) (obj_status obj)
    (stored_before_phase e obj)"
  using assms
  by (auto simp: executes_def terminal_def authenticated_def reconcile_def obj_status_def obj_phase_def obj_generation_def
      obj_name_def stored_before_phase_def Let_def split: option.splits sum.splits)

lemma reconcile_not_executes:
  assumes "\<not> executes e obj"
  shows "oc_effects (reconcile e obj) = []" "oc_events (reconcile e obj) = []" "oc_slack (reconcile e obj) = []"
    "oc_action (reconcile e obj) \<noteq> Aborted"
  using assms
  by (auto simp: executes_def terminal_def authenticated_def reconcile_def obj_status_def obj_phase_def obj_generation_def
      quiet_def Let_def split: option.splits sum.splits)

lemma reconcile_effects:
  "oc_effects (reconcile e obj) =
     (if executes e obj then snd (dispatch (obj_phase obj) (en_world e) (ob_spec obj) (obj_status obj)) else [])"
proof (cases "executes e obj")
  case True
  then show ?thesis
    by (auto simp: reconcile_executes run_phase_def finish_ok_def finish_err_def Let_def split: res.splits)
qed (simp add: reconcile_not_executes)

lemma reconcile_aborts_iff:
  "oc_action (reconcile e obj) = Aborted \<longleftrightarrow>
     executes e obj \<and> fst (dispatch (obj_phase obj) (en_world e) (ob_spec obj) (obj_status obj)) = Panic"
proof (cases "executes e obj")
  case True
  then show ?thesis
    by (auto simp: reconcile_executes run_phase_def finish_ok_def finish_err_def requeue_action_def Let_def
        split: res.splits option.splits if_splits)
qed (simp add: reconcile_not_executes)

text \<open>
  A resource in a terminal phase is left alone until its spec changes: nothing is requested
  and nothing is stored. When the generation has moved, the run state is cleared and the phase is
  \<open>Pending\<close> again, while the verified identity and the recorded last transition survive; a refused
  patch changes nothing and is retried.
\<close>

theorem terminal_resource_idles_or_resets:
  assumes "terminal (obj_phase obj)"
  shows "oc_effects (reconcile e obj) = [] \<and>
    (obj_generation obj \<le> st_observed_generation (obj_status obj) \<longrightarrow>
       oc_status (reconcile e obj) = ob_status obj \<and> oc_action (reconcile e obj) = AwaitChange) \<and>
    (st_observed_generation (obj_status obj) < obj_generation obj \<longrightarrow>
       (if en_patch e
        then \<exists>s. oc_status (reconcile e obj) = Some s \<and> oc_action (reconcile e obj) = Requeue 100 \<and>
               st_phase s = Some Pending \<and> st_observed_generation s = obj_generation obj \<and>
               ph_planning (st_phases s) = None \<and> ph_control_plane (st_phases s) = None \<and>
               ph_addons (st_phases s) = [] \<and> ph_nodegroups (st_phases s) = [] \<and>
               st_identity s = st_identity (obj_status obj) \<and> st_last_transition s = st_last_transition (obj_status obj)
        else oc_status (reconcile e obj) = ob_status obj \<and> oc_action (reconcile e obj) = Requeue 5000))"
  using assms
  by (auto simp: terminal_def reconcile_def obj_status_def obj_phase_def obj_generation_def quiet_def apply_reset_def Let_def)

definition demo_identity :: AwsIdentity where
  "demo_identity = \<lparr>ai_account_id = ''123456789012'', ai_arn = ''arn:aws:sts::123456789012:assumed-role/kuo''\<rparr>"

definition demo_obj :: "EKSUpgradeSpec \<Rightarrow> EKSUpgradeStatus \<Rightarrow> EKSUpgrade" where
  "demo_obj spec s = \<lparr>ob_name = Some ''staging'', ob_generation = Some 2, ob_spec = spec, ob_status = Some s\<rparr>"

definition demo_env :: "eks_sdk \<Rightarrow> env" where
  "demo_env sdk = \<lparr>en_world = world_at sdk 0, en_aws_client = None, en_identity = Inr demo_identity,
     en_identity_patch = True, en_patch = True, en_slack = True\<rparr>"

lemma demo_obj_sel [simp]:
  "obj_status (demo_obj spec s) = s" "obj_generation (demo_obj spec s) = 2" "ob_spec (demo_obj spec s) = spec"
  "ob_status (demo_obj spec s) = Some s" "obj_phase (demo_obj spec s) = unwrap_or Pending (st_phase s)"
  by (simp_all add: obj_status_def obj_generation_def obj_phase_def demo_obj_def unwrap_or_def)

lemma demo_env_sel [simp]:
  "en_world (demo_env sdk) = world_at sdk 0" "en_patch (demo_env sdk)" "en_slack (demo_env sdk)"
  "authenticated (demo_env sdk) obj"
  by (simp_all add: demo_env_def authenticated_def)

theorem terminal_resource_idles_or_resets_witness:
  "\<exists>s. oc_status (reconcile (demo_env no_answer_sdk) (demo_obj demo_spec (default_status\<lparr>st_phase := Some Failed, st_observed_generation := 1\<rparr>))) = Some s
     \<and> st_phase s = Some Pending"
  using terminal_resource_idles_or_resets [of "demo_obj demo_spec (default_status\<lparr>st_phase := Some Failed, st_observed_generation := 1\<rparr>)"
      "demo_env no_answer_sdk"]
  by (auto simp: terminal_def unwrap_or_def)

subsection \<open>The Karpenter phase\<close>

text \<open>
  C36. The Karpenter phase is missing from the list of polling phases, so a resource that has
  reached it and whose spec has not changed since is never worked on: whatever the environment
  answers, the reconcile requests nothing, stores nothing and waits for a change.
\<close>

theorem karpenter_phase_stalls:
  assumes "obj_phase obj = UpgradingKarpenterNodePools"
    and "obj_generation obj \<le> st_observed_generation (obj_status obj)" and "\<not> has_active_update (obj_status obj)"
  shows "reconcile e obj = quiet (ob_status obj) AwaitChange"
  using assms
  by (auto simp: reconcile_def obj_status_def obj_phase_def obj_generation_def skip_reconcile_def polling_phases_def Let_def)

theorem karpenter_phase_stalls_witness:
  "reconcile (demo_env no_answer_sdk) (demo_obj (karpenter_spec ''1'') ((demo_pools_status [demo_pool])\<lparr>st_observed_generation := 2\<rparr>)) =
     quiet (Some ((demo_pools_status [demo_pool])\<lparr>st_observed_generation := 2\<rparr>)) AwaitChange"
  using karpenter_phase_stalls [of "demo_obj (karpenter_spec ''1'') ((demo_pools_status [demo_pool])\<lparr>st_observed_generation := 2\<rparr>)"
      "demo_env no_answer_sdk"]
  by (simp add: demo_pools_status_def unwrap_or_def has_active_update_def default_phases_def)

text \<open>
  Removing the Karpenter configuration from the spec of a resource that is in the Karpenter
  phase aborts the operator, and does so again after every restart, because the stored status is
  unchanged.
\<close>

theorem removing_karpenter_config_aborts_the_operator:
  assumes "obj_phase obj = UpgradingKarpenterNodePools" and "sp_karpenter_node_pools (ob_spec obj) = None"
    and "st_observed_generation (obj_status obj) < obj_generation obj"
    and "en_aws_client e = None" and "st_identity (obj_status obj) \<noteq> None"
  shows "oc_action (reconcile e obj) = Aborted \<and> oc_status (reconcile e obj) = ob_status obj"
proof -
  have "executes e obj"
    using assms by (auto simp: executes_def terminal_def skip_reconcile_def authenticated_def)
  then show ?thesis
    using assms by (auto simp: reconcile_executes run_phase_def karpenter_execute_def stored_before_phase_def Let_def)
qed

theorem removing_karpenter_config_aborts_the_operator_witness:
  "oc_action (reconcile (demo_env no_answer_sdk)
      (demo_obj demo_spec ((demo_pools_status [demo_pool])\<lparr>st_observed_generation := 1, st_identity := Some demo_identity\<rparr>))) = Aborted"
  using removing_karpenter_config_aborts_the_operator
    [of "demo_obj demo_spec ((demo_pools_status [demo_pool])\<lparr>st_observed_generation := 1, st_identity := Some demo_identity\<rparr>)"
      "demo_env no_answer_sdk"]
  by (simp add: demo_pools_status_def unwrap_or_def demo_env_def demo_spec_def)

subsection \<open>Reports\<close>

lemma dispatch_phase_some:
  "fst (dispatch p w spec s) = Ok (s', r) \<Longrightarrow> st_phase s = Some p \<or> p = Pending \<Longrightarrow> st_phase s' \<noteq> None"
proof -
  assume ok: "fst (dispatch p w spec s) = Ok (s', r)" and p: "st_phase s = Some p \<or> p = Pending"
  have h: "handler_next after spec s s' \<Longrightarrow> st_phase s \<noteq> None \<Longrightarrow> st_phase s' \<noteq> None" for after
    by (auto simp: handler_next_def)
  show "st_phase s' \<noteq> None"
  proof (cases p)
    case Planning
    then show ?thesis
      using ok by (auto simp: with_requeue_def planning_execute_def reject_consecutive_rollback_def planned_status_def Let_def
          simp del: is_consecutive_rollback.simps split: if_splits option.splits)
  next
    case PreflightChecking
    then show ?thesis using ok by (auto simp: with_requeue_def preflight_execute_def Let_def split: if_splits)
  qed (use ok p h [OF control_plane.exec_next] h [OF addons.exec_next] h [OF nodegroups.exec_next] h [OF karpenter.exec_next] in
      \<open>auto split: if_splits\<close>)
qed

text \<open>
  The Slack message of a failed run never names the phase that failed: its field
  \<open>Failed Phase\<close> is always \<open>Failed\<close>, because the message is built from the status that already
  has the terminal phase.
\<close>

theorem failed_notification_names_no_phase:
  assumes "m \<in> set (oc_slack (reconcile e obj))" and "sm_header m = ''EKS Upgrade Failed''"
  shows "(''Failed Phase'', ''Failed'') \<in> set (sm_fields m)"
proof -
  have "executes e obj" using assms(1) by (metis reconcile_not_executes(3) list.set(1) empty_iff)
  then show ?thesis
    using assms
    by (auto simp: reconcile_executes run_phase_def finish_ok_def finish_err_def transition_notices_def terminal_notices_def
        build_started_message_def build_completed_message_def build_failed_message_def Let_def split: res.splits if_splits)
qed

theorem failed_notification_names_no_phase_witness:
  "\<exists>m. m \<in> set (oc_slack (reconcile (demo_env no_answer_sdk)
      (demo_obj (demo_spec\<lparr>sp_notification := Some \<lparr>nc_on_upgrade = True, nc_on_dry_run = True\<rparr>\<rparr>)
        ((addons_status [addon_at ''vpc-cni'' CFailed])\<lparr>st_observed_generation := 2\<rparr>)))) \<and> (''Failed Phase'', ''Failed'') \<in> set (sm_fields m)"
proof -
  let ?spec = "demo_spec\<lparr>sp_notification := Some \<lparr>nc_on_upgrade = True, nc_on_dry_run = True\<rparr>\<rparr>"
  let ?obj = "demo_obj ?spec ((addons_status [addon_at ''vpc-cni'' CFailed])\<lparr>st_observed_generation := 2\<rparr>)"
  have ex: "executes (demo_env no_answer_sdk) ?obj"
    by (simp add: executes_def terminal_def skip_reconcile_def polling_phases_def addons_status_def unwrap_or_def)
  have "\<exists>m. m \<in> set (oc_slack (reconcile (demo_env no_answer_sdk) ?obj)) \<and> sm_header m = ''EKS Upgrade Failed''"
    unfolding reconcile_executes [OF ex]
    by (simp add: run_phase_def finish_ok_def addons_status_def addon_at_def unwrap_or_def addons_execute_def find_active_addon_def
        index_def terminal_notices_def transition_notices_def finish_status_def should_notify_def demo_spec_def
        build_failed_message_def Let_def)
  then show ?thesis using failed_notification_names_no_phase by blast
qed

subsection \<open>AWS rejections and refused patches\<close>

definition marked_error :: "sdk_error \<Rightarrow> bool" where
  "marked_error err = list_ex (\<lambda>p. contains p (to_lowercase (sdk_display err @ '' '' @ sdk_debug err))) (credential_markers @ region_markers)"

lemma cp_execute_rejected:
  assumes "cp_wf s" and "ph_control_plane (st_phases s) = Some cp" and "cp_current_step cp \<le> cp_total_steps cp"
    and "cp_update_id cp = None"
    and "sdk_update_cluster_version (w_sdk w) (sp_cluster_name spec) (path_of s ! (cp_current_step cp - 1)) = Inl err"
  shows "fst (cp_execute w spec s) = Err (aws_err client_module err)"
proof -
  have "cp_current_step cp - Suc 0 < length (path_of s)" "cp_current_step cp \<noteq> 0"
    using assms(1,2,3) by (auto simp: cp_wf_def)
  then show ?thesis
    using assms by (auto simp: cp_execute_def index_def path_of_def update_cluster_version_def eks_client_def Let_def)
qed

lemma keep_refl [simp]: "keep_none x x = x" "keep_empty xs xs = xs" "keep_none x (Some y) = Some y"
  by (simp_all add: keep_none_def keep_empty_def split: option.splits)

lemma merge_object_refl: "(\<And>x. f x x = x) \<Longrightarrow> merge_object f x x = x"
  by (simp add: merge_object_def split: option.splits)

lemma merge_phases_refl [simp]: "merge_phases p p = p"
  by (simp add: merge_phases_def merge_object_refl merge_planning_def merge_preflight_def merge_control_plane_def merge_karpenter_def)

lemma merge_status_condition:
  fixes s0 g
  defines "s \<equiv> s0\<lparr>st_observed_generation := g\<rparr>"
  shows "st_phase (merge_status s0 (set_condition t ty st r m s)) = st_phase s0"
    and "st_phases (merge_status s0 (set_condition t ty st r m s)) = st_phases s0"
    and "st_identity (merge_status s0 (set_condition t ty st r m s)) = st_identity s0"
    and "get_condition ty (merge_status s0 (set_condition t ty st r m s)) = get_condition ty (set_condition t ty st r m s)"
proof -
  have "st_conditions (merge_status s0 (set_condition t ty st r m s)) = st_conditions (set_condition t ty st r m s)"
    by (simp add: merge_status_def keep_empty_def set_condition_def)
  then show "get_condition ty (merge_status s0 (set_condition t ty st r m s)) = get_condition ty (set_condition t ty st r m s)"
    unfolding get_condition_def by simp
qed (simp_all add: merge_status_def s_def)

definition rejects_step :: "string \<Rightarrow> string \<Rightarrow> env \<Rightarrow> bool" where
  "rejects_step cluster version e \<longleftrightarrow> en_aws_client e = None \<and>
     (case sdk_update_cluster_version (w_sdk (en_world e)) cluster version of
        Inl err \<Rightarrow> \<not> marked_error err
      | Inr _ \<Rightarrow> False)"

definition awaits_step :: "ControlPlaneStatus \<Rightarrow> EKSUpgrade \<Rightarrow> bool" where
  "awaits_step cp obj \<longleftrightarrow> obj_phase obj \<in> {UpgradingControlPlane, RollingBackControlPlane} \<and>
     st_identity (obj_status obj) \<noteq> None \<and> cp_wf (obj_status obj) \<and>
     ph_control_plane (st_phases (obj_status obj)) = Some cp \<and>
     cp_current_step cp \<le> cp_total_steps cp \<and> cp_update_id cp = None"

text \<open>
  A sequence of reconciles of one resource, each in an environment of its own and each reading
  the status the one before it left in the API server.
\<close>

fun reconciles :: "env list \<Rightarrow> EKSUpgrade \<Rightarrow> outcome list" where
  "reconciles [] obj = []"
| "reconciles (e # es) obj =
     (let oc = reconcile e obj in oc # reconciles es (obj\<lparr>ob_status := oc_status oc\<rparr>))"

text \<open>
  One rejected reconcile: the request, the delay, the condition, and a stored status that still
  waits for the same step.
\<close>

lemma rejected_reconcile:
  assumes aw: "awaits_step cp obj" and rej: "rejects_step (sp_cluster_name (ob_spec obj)) version e"
    and v: "version = path_of (obj_status obj) ! (cp_current_step cp - 1)"
  defines "oc \<equiv> reconcile e obj"
  shows "oc_effects oc = [UpdateClusterVersion (sp_cluster_name (ob_spec obj)) version]"
    and "oc_action oc = Requeue 10000"
    and "oc_events oc = start_events (obj_phase obj) (ob_spec obj)"
    and "\<exists>s. oc_status oc = Some s \<and> st_phase s = st_phase (obj_status obj) \<and> st_phases s = st_phases (obj_status obj) \<and>
      st_identity s = st_identity (obj_status obj) \<and>
      (en_patch e \<longrightarrow> (\<exists>c. get_condition ''Ready'' s = Some c \<and> uc_status c = ''False'' \<and> uc_reason c = ''TransientError''))"
proof -
  let ?s = "obj_status obj"
  from aw have ph: "obj_phase obj \<in> {UpgradingControlPlane, RollingBackControlPlane}" and ident: "st_identity ?s \<noteq> None"
    and wf: "cp_wf ?s" and cp: "ph_control_plane (st_phases ?s) = Some cp" and le: "cp_current_step cp \<le> cp_total_steps cp"
    and idle: "cp_update_id cp = None"
    by (auto simp: awaits_step_def)
  obtain s0 where s0: "ob_status obj = Some s0" "?s = s0"
    using ident by (cases "ob_status obj") (auto simp: obj_status_def unwrap_or_def default_status_def)
  from rej obtain err where up: "sdk_update_cluster_version (w_sdk (en_world e)) (sp_cluster_name (ob_spec obj))
      (path_of ?s ! (cp_current_step cp - 1)) = Inl err" and nm: "\<not> marked_error err" and cl: "en_aws_client e = None"
    unfolding v by (auto simp: rejects_step_def split: sum.splits)
  have ex: "executes e obj"
    using ph ident cl by (auto simp: executes_def terminal_def skip_reconcile_def polling_phases_def authenticated_def)
  have d: "dispatch (obj_phase obj) (en_world e) (ob_spec obj) ?s = cp_execute (en_world e) (ob_spec obj) ?s"
    using ph by auto
  have err: "fst (cp_execute (en_world e) (ob_spec obj) ?s) = Err (aws_err client_module err)"
    by (rule cp_execute_rejected [OF wf cp le idle up])
  have tr: "error_is_transient (aws_err client_module err)"
    using nm by (simp add: aws_err_transient_iff marked_error_def)
  have sb: "stored_before_phase e obj = Some s0"
    using ident s0 by (auto simp: stored_before_phase_def split: option.splits)
  have fx: "snd (cp_execute (en_world e) (ob_spec obj) ?s) = [UpdateClusterVersion (sp_cluster_name (ob_spec obj)) version]"
    using cp_execute_effects [OF wf cp, of "en_world e" "ob_spec obj"] le idle v by simp
  have run: "oc = (finish_err e (obj_name obj) (ob_spec obj) (obj_generation obj) s0 (Some s0)
      [UpdateClusterVersion (sp_cluster_name (ob_spec obj)) version] (aws_err client_module err))
        \<lparr>oc_events := start_events (obj_phase obj) (ob_spec obj)\<rparr>"
    unfolding oc_def reconcile_executes [OF ex] run_phase_def d err fx sb s0(2) [symmetric]
    using tr err fx by (simp add: finish_err_def Let_def)
  show "oc_effects oc = [UpdateClusterVersion (sp_cluster_name (ob_spec obj)) version]"
    and "oc_action oc = Requeue 10000" and "oc_events oc = start_events (obj_phase obj) (ob_spec obj)"
    using tr by (simp_all add: run finish_err_def Let_def)
  show "\<exists>s. oc_status oc = Some s \<and> st_phase s = st_phase ?s \<and> st_phases s = st_phases ?s \<and>
      st_identity s = st_identity ?s \<and>
      (en_patch e \<longrightarrow> (\<exists>c. get_condition ''Ready'' s = Some c \<and> uc_status c = ''False'' \<and> uc_reason c = ''TransientError''))"
    using tr s0(2) by (simp add: run finish_err_def patch_status_def merge_status_condition Let_def)
qed

lemma awaits_step_kept:
  assumes "awaits_step cp obj" and "st_phase s = st_phase (obj_status obj)"
    and "st_phases s = st_phases (obj_status obj)" and "st_identity s = st_identity (obj_status obj)"
  shows "awaits_step cp (obj\<lparr>ob_status := Some s\<rparr>)" and "path_of s = path_of (obj_status obj)"
  using assms by (auto simp: awaits_step_def obj_phase_def obj_status_def unwrap_or_def cp_wf_def path_of_def)

text \<open>
  C40. A control plane step that AWS rejects does not fail the resource, it is sent again for as
  long as it is rejected. Premises: the resource is in a control plane phase with its AWS identity
  verified and a well-formed control plane status (\<open>cp_wf\<close>) with a step left that has no update yet;
  and in every reconcile of a sequence of any length the AWS client is built and AWS rejects the
  step's version, with an error whose text names neither credentials nor the region. Then every
  reconcile of the sequence sends that one request and is due again after ten seconds, and the
  status it leaves has the same phase, identity and phase statuses (so the same step) as before,
  and, when the API server accepts the status patch, the condition \<open>Ready\<close> is \<open>False\<close> with the
  reason \<open>TransientError\<close>.
\<close>

theorem rejected_update_is_retried_forever:
  assumes "awaits_step cp obj"
    and "version = path_of (obj_status obj) ! (cp_current_step cp - 1)"
    and "list_all (rejects_step (sp_cluster_name (ob_spec obj)) version) es"
  shows "list_all2 (\<lambda>e oc.
      oc_effects oc = [UpdateClusterVersion (sp_cluster_name (ob_spec obj)) version] \<and> oc_action oc = Requeue 10000 \<and>
      (\<exists>s. oc_status oc = Some s \<and> st_phase s = st_phase (obj_status obj) \<and> st_phases s = st_phases (obj_status obj) \<and>
         st_identity s = st_identity (obj_status obj) \<and>
         (en_patch e \<longrightarrow> (\<exists>c. get_condition ''Ready'' s = Some c \<and> uc_status c = ''False'' \<and> uc_reason c = ''TransientError''))))
    es (reconciles es obj)"
  using assms
proof (induction es arbitrary: obj)
  case (Cons e es)
  have rej: "rejects_step (sp_cluster_name (ob_spec obj)) version e" using Cons.prems(3) by simp
  note one = rejected_reconcile [OF Cons.prems(1) rej Cons.prems(2)]
  obtain s where s: "oc_status (reconcile e obj) = Some s" "st_phase s = st_phase (obj_status obj)"
      "st_phases s = st_phases (obj_status obj)" "st_identity s = st_identity (obj_status obj)"
    using one(4) by blast
  let ?o = "obj\<lparr>ob_status := Some s\<rparr>"
  have os: "obj_status ?o = s" by (simp add: obj_status_def unwrap_or_def)
  note kept = awaits_step_kept [OF Cons.prems(1) s(2-4)]
  have "version = path_of (obj_status ?o) ! (cp_current_step cp - 1)"
    using Cons.prems(2) kept(2) by (simp add: os)
  moreover have "list_all (rejects_step (sp_cluster_name (ob_spec ?o)) version) es"
    using Cons.prems(3) by simp
  ultimately have rest: "list_all2 (\<lambda>e oc.
      oc_effects oc = [UpdateClusterVersion (sp_cluster_name (ob_spec obj)) version] \<and> oc_action oc = Requeue 10000 \<and>
      (\<exists>s. oc_status oc = Some s \<and> st_phase s = st_phase (obj_status obj) \<and> st_phases s = st_phases (obj_status obj) \<and>
         st_identity s = st_identity (obj_status obj) \<and>
         (en_patch e \<longrightarrow> (\<exists>c. get_condition ''Ready'' s = Some c \<and> uc_status c = ''False'' \<and> uc_reason c = ''TransientError''))))
    es (reconciles es ?o)"
    using Cons.IH [OF kept(1)] s(2-4) by (simp add: os)
  show ?case
    using one(1,2,4) rest by (simp only: reconciles.simps Let_def list_all2_Cons s(1))
qed simp

definition conflict_error :: sdk_error where
  "conflict_error = \<lparr>sdk_display = ''service error'', sdk_debug = ''ResourceInUse''\<rparr>"

lemma conflict_not_marked: "\<not> marked_error conflict_error"
  by (simp add: marked_error_def conflict_error_def credential_markers_def region_markers_def str_eval)

definition rejecting_sdk :: eks_sdk where
  "rejecting_sdk = no_answer_sdk\<lparr>sdk_update_cluster_version := (\<lambda>_ _. Inl conflict_error)\<rparr>"

definition two_minors_obj :: EKSUpgrade where
  "two_minors_obj = demo_obj demo_spec (two_minors_status\<lparr>st_observed_generation := 2, st_identity := Some demo_identity\<rparr>)"

definition two_minors_cp :: ControlPlaneStatus where
  "two_minors_cp = \<lparr>cp_current_step = 1, cp_total_steps = 2, cp_target = None, cp_update_id = None,
     cp_started_at = None, cp_completed_at = None\<rparr>"

lemma two_minors_facts:
  "executes (demo_env sdk) two_minors_obj" "obj_phase two_minors_obj = UpgradingControlPlane"
  "cp_wf (obj_status two_minors_obj)" "ph_control_plane (st_phases (obj_status two_minors_obj)) = Some two_minors_cp"
  "path_of (obj_status two_minors_obj) = [''1.33'', ''1.34'']" "st_identity (obj_status two_minors_obj) \<noteq> None"
  "ob_status two_minors_obj \<noteq> None" "ob_spec two_minors_obj = demo_spec"
  by (simp_all add: two_minors_obj_def two_minors_status_def two_minors_cp_def executes_def terminal_def skip_reconcile_def
      polling_phases_def unwrap_or_def cp_wf_def path_of_def u32_max_def)

theorem rejected_update_is_retried_forever_witness:
  "map oc_action (reconciles [demo_env rejecting_sdk, demo_env rejecting_sdk] two_minors_obj) = [Requeue 10000, Requeue 10000] \<and>
   map oc_effects (reconciles [demo_env rejecting_sdk, demo_env rejecting_sdk] two_minors_obj) =
     [[UpdateClusterVersion ''prod'' ''1.33''], [UpdateClusterVersion ''prod'' ''1.33'']]"
proof -
  have "awaits_step two_minors_cp two_minors_obj"
    using two_minors_facts by (simp add: awaits_step_def two_minors_cp_def)
  moreover have "''1.33'' = path_of (obj_status two_minors_obj) ! (cp_current_step two_minors_cp - 1)"
    using two_minors_facts by (simp add: two_minors_cp_def)
  moreover have "list_all (rejects_step (sp_cluster_name (ob_spec two_minors_obj)) ''1.33'')
      [demo_env rejecting_sdk, demo_env rejecting_sdk]"
    using conflict_not_marked by (simp add: rejects_step_def world_at_def rejecting_sdk_def demo_env_def)
  ultimately show ?thesis
    using rejected_update_is_retried_forever [of two_minors_cp two_minors_obj "''1.33''" "[demo_env rejecting_sdk, demo_env rejecting_sdk]"]
      two_minors_facts(8)
    by (auto simp: list_all2_Cons1 demo_spec_def Let_def)
qed

text \<open>
  A status patch that the API server refuses loses the id of the update just started: the
  request has been sent, the stored status does not know it, and the next reconcile of the same
  resource sends the same request again.
\<close>

theorem refused_patch_repeats_the_update:
  assumes "executes e obj" and "executes e' obj"
    and "obj_phase obj \<in> {UpgradingControlPlane, RollingBackControlPlane}"
    and "cp_wf (obj_status obj)" and "ph_control_plane (st_phases (obj_status obj)) = Some cp"
    and "cp_current_step cp \<le> cp_total_steps cp" and "cp_update_id cp = None"
    and "\<not> en_patch e" and "st_identity (obj_status obj) \<noteq> None"
  shows "oc_status (reconcile e obj) = ob_status obj \<and>
    oc_effects (reconcile e obj) = [UpdateClusterVersion (sp_cluster_name (ob_spec obj)) (path_of (obj_status obj) ! (cp_current_step cp - 1))] \<and>
    oc_effects (reconcile e' obj) = oc_effects (reconcile e obj)"
proof -
  have d: "dispatch (obj_phase obj) w spec (obj_status obj) = cp_execute w spec (obj_status obj)" for w spec
    using assms(3) by auto
  have sb: "stored_before_phase e obj = ob_status obj"
    using assms(9) by (auto simp: stored_before_phase_def split: option.splits)
  have "oc_status (reconcile e obj) = ob_status obj"
    using assms(8) cp_execute_no_panic [OF assms(4)]
    unfolding reconcile_executes [OF assms(1)]
    by (auto simp: run_phase_def finish_ok_def finish_err_def patch_status_def sb Let_def split: res.splits)
  then show ?thesis
    using assms(1,2,6,7) by (simp add: reconcile_effects d cp_execute_effects [OF assms(4,5)])
qed

theorem refused_patch_repeats_the_update_witness:
  "oc_effects (reconcile ((demo_env granting_sdk)\<lparr>en_patch := False\<rparr>) two_minors_obj) = [UpdateClusterVersion ''prod'' ''1.33''] \<and>
   oc_effects (reconcile (demo_env granting_sdk) two_minors_obj) = [UpdateClusterVersion ''prod'' ''1.33'']"
proof -
  have "executes ((demo_env granting_sdk)\<lparr>en_patch := False\<rparr>) two_minors_obj"
    using two_minors_facts(1) [of granting_sdk] by (simp add: executes_def authenticated_def)
  with two_minors_facts show ?thesis
    using refused_patch_repeats_the_update [of "(demo_env granting_sdk)\<lparr>en_patch := False\<rparr>" two_minors_obj "demo_env granting_sdk" two_minors_cp]
    by (simp add: two_minors_cp_def demo_spec_def)
qed

subsection \<open>The rollback guard and dry runs\<close>

text \<open>
  A dry run of a rollback counts as a rollback. When it passes preflight and its status is
  stored, the recorded last transition is a rollback, and the real rollback that is requested by
  editing the same resource is then rejected in planning, whatever the environment.
\<close>

theorem dry_run_rollback_blocks_the_real_one:
  assumes "executes e obj" and "obj_phase obj = PreflightChecking" and "en_patch e"
    and "sp_upgrade_mode (ob_spec obj) = Rollback"
    and "preflight_execute (en_world e) (ob_spec obj) (obj_status obj) = Ok s'" and "st_phase s' = Some Completed"
    and "sp_upgrade_mode spec' = Rollback"
  shows "\<exists>t. oc_status (reconcile e obj) = Some t \<and> st_phase t = Some Completed \<and> oc_effects (reconcile e obj) = [] \<and>
    (\<exists>f. planning_execute w spec' (apply_reset t g) = Ok f \<and> st_phase f = Some Failed)"
proof -
  have run: "reconcile e obj = finish_ok e (obj_name obj) (ob_spec obj) (obj_generation obj) PreflightChecking (obj_status obj)
      (stored_before_phase e obj) [] (s', Some 0)"
    using assms(2,5) by (simp add: reconcile_executes [OF assms(1)] run_phase_def with_requeue_def Let_def)
  then obtain t where t: "oc_status (reconcile e obj) = Some t" "st_phase t = Some Completed" "oc_effects (reconcile e obj) = []"
      "\<exists>tr. st_last_transition t = Some tr \<and> tr_mode tr = Rollback"
    using assms(3,4,6)
    by (simp add: finish_ok_def finish_status_def patch_status_def merge_status_def keep_none_def Let_def)
  then have "is_consecutive_rollback (sp_upgrade_mode spec') (st_last_transition (apply_reset t g))"
    using assms(7) by (auto simp: apply_reset_def)
  then have "\<exists>f. planning_execute w spec' (apply_reset t g) = Ok f \<and> st_phase f = Some Failed"
    by (simp add: planning_execute_def reject_consecutive_rollback_def Let_def del: is_consecutive_rollback.simps)
  then show ?thesis using t by blast
qed

theorem dry_run_rollback_blocks_the_real_one_witness:
  "\<exists>t. oc_status (reconcile (demo_env (protected_sdk (Some True)))
       (demo_obj (demo_spec\<lparr>sp_upgrade_mode := Rollback, sp_dry_run := True\<rparr>) (default_status\<lparr>st_phase := Some PreflightChecking\<rparr>))) = Some t \<and>
     (\<exists>f. planning_execute (world_at no_answer_sdk 0) (demo_spec\<lparr>sp_upgrade_mode := Rollback\<rparr>) (apply_reset t 3) = Ok f \<and> st_phase f = Some Failed)"
proof -
  let ?spec = "demo_spec\<lparr>sp_upgrade_mode := Rollback, sp_dry_run := True\<rparr>"
  let ?s = "default_status\<lparr>st_phase := Some PreflightChecking\<rparr>"
  obtain s' where s': "preflight_execute (world_at (protected_sdk (Some True)) 0) ?spec ?s = Ok s'"
    using preflight_execute_Ok [OF protected_sdk_cluster] by blast
  have "\<not> insights_block (world_at (protected_sdk (Some True)) 0) ?spec"
    by (simp add: insights_block_def world_at_def protected_sdk_def no_answer_sdk_def Let_def)
  moreover have "\<not> pdbs_block (world_at (protected_sdk (Some True)) 0) ?spec ?s"
    by (simp add: pdbs_block_def default_status_def default_phases_def)
  moreover have "\<not> karpenter_block (world_at (protected_sdk (Some True)) 0) ?spec"
    by (simp add: karpenter_block_def demo_spec_def)
  ultimately have "st_phase s' = Some Completed"
    using preflight_decision [OF s'] by (auto simp: protected_sdk_cluster Let_def)
  moreover have "executes (demo_env (protected_sdk (Some True))) (demo_obj ?spec ?s)"
    by (simp add: executes_def terminal_def skip_reconcile_def polling_phases_def unwrap_or_def)
  ultimately show ?thesis
    using dry_run_rollback_blocks_the_real_one [of "demo_env (protected_sdk (Some True))" "demo_obj ?spec ?s" s'
        "demo_spec\<lparr>sp_upgrade_mode := Rollback\<rparr>" "world_at no_answer_sdk 0" 3] s'
    by (auto simp: unwrap_or_def)
qed

end
