(* ===== verification/Kuo_Progress.thy ===== *)
theory Kuo_Progress
  imports Kuo_Controller
begin

section \<open>Progress of the work phases\<close>

text \<open>
  What the three handlers that send update requests leave alone, when they leave their phase, and
  which requests must have been sent to get there: the facts the argument about whole runs rests
  on. A plan stands for a set of requests (\<open>planned_requests\<close>); \<open>issued\<close> says which of them the
  status already vouches for.
\<close>

subsection \<open>What each handler touches\<close>

lemma process_update_result_frame:
  assumes "process_update_result now s st step tot v mode = Ok (s', r)"
  shows "st_phases s' = (st_phases s)\<lparr>ph_control_plane := ph_control_plane (st_phases s')\<rparr>"
  using assms
  by (auto simp: process_update_result_def cp_advance_to_next_phase_def upd_cp_def Let_def split: option.splits if_splits)

lemma cp_execute_frame:
  assumes "fst (cp_execute w spec s) = Ok (s', r)"
  shows "st_phases s' = (st_phases s)\<lparr>ph_control_plane := ph_control_plane (st_phases s')\<rparr>"
proof (cases "ph_control_plane (st_phases s)")
  case None
  then show ?thesis using assms by (simp add: cp_execute_def)
next
  case (Some cp)
  show ?thesis
  proof (cases "cp_total_steps cp < cp_current_step cp")
    case True
    then show ?thesis using assms Some by (auto simp: cp_execute_def cp_advance_to_next_phase_def upd_cp_def Let_def)
  next
    case False
    then show ?thesis
      using assms Some
      by (cases "cp_update_id cp"; cases "cp_timed_out (w_now w) spec cp")
        (auto simp: cp_execute_def apply_cp_timeout_def upd_cp_def Let_def dest: process_update_result_frame)
  qed
qed

lemma apply_addon_poll_result_frame:
  assumes "apply_addon_poll_result now s i n x = Ok (s', q)"
  shows "st_phases s' = (st_phases s)\<lparr>ph_addons := ph_addons (st_phases s')\<rparr>"
  using assms by (auto simp: apply_addon_poll_result_def upd_addon_Ok split: if_splits)

lemma addons_execute_frame:
  assumes "fst (addons_execute w spec s) = Ok (s', r)"
  shows "st_phases s' = (st_phases s)\<lparr>ph_addons := ph_addons (st_phases s')\<rparr>"
proof (cases "find_active_addon (ph_addons (st_phases s))")
  case None
  then show ?thesis using assms by (auto simp: addons_execute_def addons_advance_to_next_phase_def)
next
  case (Some i)
  then show ?thesis
    using assms
    by (cases "as_status (ph_addons (st_phases s) ! i)")
      (auto simp: addons_execute_def upd_addon_Ok dest: apply_addon_poll_result_frame)
qed

lemma apply_poll_result_frame:
  assumes "apply_poll_result now s i n x = Ok (s', q)"
  shows "st_phases s' = (st_phases s)\<lparr>ph_nodegroups := ph_nodegroups (st_phases s')\<rparr>"
  using assms by (auto simp: apply_poll_result_def upd_nodegroup_Ok split: if_splits)

lemma nodegroups_execute_frame:
  assumes "fst (nodegroups_execute w spec s) = Ok (s', r)"
  shows "st_phases s' = (st_phases s)\<lparr>ph_nodegroups := ph_nodegroups (st_phases s')\<rparr>"
proof (cases "active_nodegroup (ph_nodegroups (st_phases s))")
  case None
  then show ?thesis using assms by (auto simp: nodegroups_execute_def find_active_nodegroup_def)
next
  case (Some i)
  then show ?thesis
    using assms
    by (cases "ng_status (ph_nodegroups (st_phases s) ! i)")
      (auto simp: nodegroups_execute_def find_active_nodegroup_def upd_nodegroup_Ok apply_timeout_def Let_def
        dest: apply_poll_result_frame split: option.splits)
qed

subsection \<open>When work is finished\<close>

definition cp_done :: "EKSUpgradeStatus \<Rightarrow> bool" where
  "cp_done s = (case ph_control_plane (st_phases s) of
      None \<Rightarrow> False
    | Some cp \<Rightarrow> cp_update_id cp = None \<and> (path_of s = [] \<or> cp_total_steps cp < cp_current_step cp))"

definition addons_done :: "EKSUpgradeStatus \<Rightarrow> bool" where
  "addons_done s = list_all (\<lambda>a. is_done (as_status a)) (ph_addons (st_phases s))"

definition nodegroups_done :: "EKSUpgradeStatus \<Rightarrow> bool" where
  "nodegroups_done s = list_all (\<lambda>n. is_done (ng_status n)) (ph_nodegroups (st_phases s))"

fun phase_done :: "EKSUpgradeStatus \<Rightarrow> UpgradePhase \<Rightarrow> bool" where
  "phase_done s UpgradingControlPlane = cp_done s"
| "phase_done s RollingBackControlPlane = cp_done s"
| "phase_done s UpgradingAddons = addons_done s"
| "phase_done s RollingBackAddons = addons_done s"
| "phase_done s UpgradingNodeGroups = nodegroups_done s"
| "phase_done s RollingBackNodeGroups = nodegroups_done s"
| "phase_done s _ = True"

lemma cp_done_advance:
  assumes "ph_control_plane (st_phases s) = Some cp" and "cp_total_steps cp < cp_current_step cp"
  shows "cp_done (cp_advance_to_next_phase now mode s)"
  using assms by (simp add: cp_done_def)

lemma process_update_result_advances:
  assumes "process_update_result now s st step tot v mode = Ok (s', r)"
    and "ph_control_plane (st_phases s) = Some cp" and "tot = cp_total_steps cp"
  shows "st_phase s' = st_phase s \<or> st_phase s' = Some Failed \<or>
    st_phase s' = Some (after_control_plane s mode) \<and> cp_done s'"
proof (cases "st = ''Successful'' \<and> as_u32 (step + 1) > tot")
  case True
  then show ?thesis
    using assms by (auto simp: process_update_result_def Let_def intro!: cp_done_advance)
next
  case False
  then show ?thesis
    using assms by (auto simp: process_update_result_def Let_def split: if_splits)
qed

lemma cp_execute_advances_when_done:
  assumes "fst (cp_execute w spec s) = Ok (s', r)"
  shows "st_phase s' = st_phase s \<or> st_phase s' = Some Failed \<or>
    st_phase s' = Some (after_control_plane s (sp_upgrade_mode spec)) \<and> cp_done s'"
proof (cases "ph_control_plane (st_phases s)")
  case None
  then show ?thesis using assms by (simp add: cp_execute_def)
next
  case (Some cp)
  show ?thesis
  proof (cases "cp_total_steps cp < cp_current_step cp")
    case True
    then show ?thesis using assms Some by (auto simp: cp_execute_def Let_def intro!: cp_done_advance)
  next
    case False
    then show ?thesis
      using assms Some
      by (cases "cp_update_id cp"; cases "cp_timed_out (w_now w) spec cp")
        (auto simp: cp_execute_def apply_cp_timeout_def Let_def
          dest: process_update_result_advances [OF _ Some refl])
  qed
qed

lemma addons_execute_advances_when_done:
  assumes "fst (addons_execute w spec s) = Ok (s', r)"
  shows "st_phase s' = st_phase s \<or> st_phase s' = Some Failed \<or>
    st_phase s' = Some (after_addons s (sp_upgrade_mode spec)) \<and> addons_done s'"
proof (cases "find_active_addon (ph_addons (st_phases s))")
  case None
  then have "addons_done s" by (auto simp: addons_done_def find_active_addon_pos list_all_iff)
  then show ?thesis using assms None by (auto simp: addons_execute_def addons_advance_to_next_phase_def addons_done_def)
next
  case (Some i)
  then show ?thesis
    using assms
    by (cases "as_status (ph_addons (st_phases s) ! i)")
      (auto simp: addons_execute_def upd_addon_Ok dest: apply_addon_poll_result_contract(2))
qed

lemma nodegroups_execute_advances_when_done:
  assumes "fst (nodegroups_execute w spec s) = Ok (s', r)"
  shows "st_phase s' = st_phase s \<or> st_phase s' = Some Failed \<or>
    st_phase s' = Some (after_nodegroups s (sp_upgrade_mode spec)) \<and> nodegroups_done s'"
proof (cases "active_nodegroup (ph_nodegroups (st_phases s))")
  case None
  then have "nodegroups_done s" by (auto simp: nodegroups_done_def active_nodegroup_pos list_all_iff)
  then show ?thesis using assms None by (auto simp: nodegroups_execute_def find_active_nodegroup_def nodegroups_done_def)
next
  case (Some i)
  then show ?thesis
    using assms
    by (cases "ng_status (ph_nodegroups (st_phases s) ! i)")
      (auto simp: nodegroups_execute_def find_active_nodegroup_def upd_nodegroup_Ok apply_timeout_def Let_def
        dest: apply_poll_result_contract(2) split: option.splits)
qed

subsection \<open>What was asked for\<close>

text \<open>The requests a plan stands for, and the ones that must have been sent by now.\<close>

definition planned_requests :: "EKSUpgradeSpec \<Rightarrow> EKSUpgradeStatus \<Rightarrow> effect set" where
  "planned_requests spec s =
     UpdateClusterVersion (sp_cluster_name spec) ` set (path_of s) \<union>
     addon_request spec ` set (ph_addons (st_phases s)) \<union>
     nodegroup_request spec ` set (ph_nodegroups (st_phases s))"

definition cp_reached :: "ControlPlaneStatus \<Rightarrow> nat" where
  "cp_reached cp = (if cp_update_id cp = None then cp_current_step cp - 1 else cp_current_step cp)"

definition started_issued :: "('c \<Rightarrow> ComponentStatus) \<Rightarrow> ('c \<Rightarrow> effect) \<Rightarrow> 'c list \<Rightarrow> effect set \<Rightarrow> bool" where
  "started_issued st req cs F \<longleftrightarrow> (\<forall>c \<in> set cs. st c \<noteq> CPending \<longrightarrow> req c \<in> F)"

definition cp_issued :: "EKSUpgradeSpec \<Rightarrow> EKSUpgradeStatus \<Rightarrow> effect set \<Rightarrow> bool" where
  "cp_issued spec s F \<longleftrightarrow>
     (\<forall>cp i. ph_control_plane (st_phases s) = Some cp \<longrightarrow> i < cp_reached cp \<longrightarrow> i < length (path_of s) \<longrightarrow>
        UpdateClusterVersion (sp_cluster_name spec) (path_of s ! i) \<in> F)"

definition issued :: "EKSUpgradeSpec \<Rightarrow> EKSUpgradeStatus \<Rightarrow> effect set \<Rightarrow> bool" where
  "issued spec s F \<longleftrightarrow> cp_issued spec s F \<and>
     started_issued as_status (addon_request spec) (ph_addons (st_phases s)) F \<and>
     started_issued ng_status (nodegroup_request spec) (ph_nodegroups (st_phases s)) F"

lemma issued_mono: "issued spec s F \<Longrightarrow> F \<subseteq> G \<Longrightarrow> issued spec s G"
  by (auto simp: issued_def cp_issued_def started_issued_def)

lemma started_issued_step:
  assumes "started_issued st req cs F" and "touches_active st cs cs'" and "F \<subseteq> G"
    and "map key cs' = map key cs" and "\<And>c c'. key c = key c' \<Longrightarrow> req c = req c'"
    and "\<And>i. position (\<lambda>c. \<not> is_done (st c)) cs = Some i \<Longrightarrow> st (cs ! i) = CPending \<Longrightarrow> req (cs ! i) \<in> G"
  shows "started_issued st req cs' G"
  using assms(2)
proof (unfold touches_active_def, elim disjE exE conjE)
  assume "cs' = cs"
  then show ?thesis using assms(1,3) by (auto simp: started_issued_def)
next
  fix i c assume i: "position (\<lambda>c. \<not> is_done (st c)) cs = Some i" and cs': "cs' = cs[i := c]"
  note pos = position_SomeD(1) [OF i]
  have "key c = key (cs ! i)" using arg_cong [OF assms(4), of "\<lambda>ks. ks ! i"] pos cs' by simp
  then have "req c = req (cs ! i)" by (rule assms(5))
  moreover have "req (cs ! i) \<in> G"
    using assms(1,3,6) i pos by (cases "st (cs ! i) = CPending") (auto simp: started_issued_def)
  moreover have "set cs' \<subseteq> insert c (set cs)" unfolding cs' by (rule set_update_subset_insert)
  ultimately show ?thesis using assms(1,3) unfolding started_issued_def by (metis insertE subsetD)
qed

lemma started_issued_all:
  assumes "started_issued st req cs F" and "list_all (\<lambda>c. is_done (st c)) cs"
  shows "req ` set cs \<subseteq> F"
  using assms by (auto simp: started_issued_def list_all_iff is_done_iff)

lemma same_plan_path: "same_plan s s' \<Longrightarrow> path_of s' = path_of s"
  by (simp add: same_plan_def path_of_def)

lemma request_images:
  "addon_request spec ` set as =
     (\<lambda>(n, v). UpdateAddon (sp_cluster_name spec) n v) ` set (map (\<lambda>a. (as_name a, as_target_version a)) as)"
  "nodegroup_request spec ` set ns =
     (\<lambda>(n, v). UpdateNodegroupVersion (sp_cluster_name spec) n v) ` set (map (\<lambda>n. (ng_name n, ng_target_version n)) ns)"
  by (simp_all add: image_image addon_request_def [abs_def] nodegroup_request_def [abs_def])

lemma same_plan_planned_requests:
  assumes "same_plan s s'"
  shows "planned_requests spec s' = planned_requests spec s"
  using assms same_plan_path [OF assms]
  by (simp only: planned_requests_def request_images same_plan_def)

subsection \<open>The plan and its handlers\<close>

text \<open>A node group carries an update id only while its update runs.\<close>

definition ng_idle :: "NodegroupStatus \<Rightarrow> bool" where
  "ng_idle n \<longleftrightarrow> ng_status n = CInProgress \<or> ng_update_id n = None"

lemma ng_idle_done: "ng_idle n \<Longrightarrow> is_done (ng_status n) \<Longrightarrow> ng_update_id n = None"
  by (auto simp: ng_idle_def)

lemma list_all_update: "list_all P xs \<Longrightarrow> P y \<Longrightarrow> list_all P (xs[i := y])"
  using set_update_subset_insert [of xs i y] by (auto simp: list_all_iff)

lemma apply_poll_result_idle:
  assumes "apply_poll_result now s i n x = Ok (s', q)" and "list_all ng_idle (ph_nodegroups (st_phases s))"
  shows "list_all ng_idle (ph_nodegroups (st_phases s'))"
  using assms
  by (auto simp: apply_poll_result_def upd_nodegroup_Ok ng_idle_def intro!: list_all_update split: if_splits)

lemma nodegroups_execute_idle:
  assumes "fst (nodegroups_execute w spec s) = Ok (s', r)" and "list_all ng_idle (ph_nodegroups (st_phases s))"
  shows "list_all ng_idle (ph_nodegroups (st_phases s'))"
proof (cases "active_nodegroup (ph_nodegroups (st_phases s))")
  case None
  then show ?thesis using assms by (auto simp: nodegroups_execute_def find_active_nodegroup_def)
next
  case (Some i)
  then show ?thesis
    using assms
    by (cases "ng_status (ph_nodegroups (st_phases s) ! i)")
      (auto simp: nodegroups_execute_def find_active_nodegroup_def upd_nodegroup_Ok apply_timeout_def ng_idle_def Let_def
        dest: apply_poll_result_idle intro!: list_all_update split: option.splits)
qed

text \<open>What planning leaves behind and every work phase keeps.\<close>

definition plan_ok :: "EKSUpgradeStatus \<Rightarrow> bool" where
  "plan_ok s \<longleftrightarrow> list_all ng_idle (ph_nodegroups (st_phases s)) \<and>
     (\<exists>cp. ph_control_plane (st_phases s) = Some cp \<and> cp_total_steps cp = length (path_of s) \<and>
           (path_of s = [] \<and> cp_update_id cp = None \<or> path_of s \<noteq> [] \<and> cp_wf s))"

lemma cp_execute_keeps:
  assumes "fst (cp_execute w spec s) = Ok (s', r)"
  shows "ph_addons (st_phases s') = ph_addons (st_phases s)" "ph_nodegroups (st_phases s') = ph_nodegroups (st_phases s)"
  using arg_cong [OF cp_execute_frame [OF assms], of ph_addons] arg_cong [OF cp_execute_frame [OF assms], of ph_nodegroups]
  by simp_all

lemma addons_execute_keeps:
  assumes "fst (addons_execute w spec s) = Ok (s', r)"
  shows "ph_control_plane (st_phases s') = ph_control_plane (st_phases s)"
    "ph_nodegroups (st_phases s') = ph_nodegroups (st_phases s)"
  using arg_cong [OF addons_execute_frame [OF assms], of ph_control_plane]
    arg_cong [OF addons_execute_frame [OF assms], of ph_nodegroups]
  by simp_all

lemma nodegroups_execute_keeps:
  assumes "fst (nodegroups_execute w spec s) = Ok (s', r)"
  shows "ph_control_plane (st_phases s') = ph_control_plane (st_phases s)"
    "ph_addons (st_phases s') = ph_addons (st_phases s)"
  using arg_cong [OF nodegroups_execute_frame [OF assms], of ph_control_plane]
    arg_cong [OF nodegroups_execute_frame [OF assms], of ph_addons]
  by simp_all

lemma cp_execute_plan_ok:
  assumes ok: "fst (cp_execute w spec s) = Ok (s', r)" and plan: "plan_ok s" and "path_of s \<noteq> []"
  shows "plan_ok s'"
proof -
  note sp = control_plane.exec_same_plan [OF ok]
  from plan assms(3) obtain cp where cp: "ph_control_plane (st_phases s) = Some cp"
      "cp_total_steps cp = length (path_of s)" "cp_wf s" by (auto simp: plan_ok_def)
  from sp cp(1) obtain cp' where cp': "ph_control_plane (st_phases s') = Some cp'" "cp_total_steps cp' = cp_total_steps cp"
    by (auto simp: same_plan_def)
  then show ?thesis
    using plan cp cp_execute_keeps [OF ok] same_plan_path [OF sp] cp_execute_wf [OF cp(3) ok] assms(3)
    by (auto simp: plan_ok_def)
qed

lemma cp_wf_cong:
  "ph_control_plane (st_phases s') = ph_control_plane (st_phases s) \<Longrightarrow> path_of s' = path_of s \<Longrightarrow> cp_wf s' = cp_wf s"
  by (simp add: cp_wf_def split: option.splits)

lemma addons_execute_plan_ok:
  assumes "fst (addons_execute w spec s) = Ok (s', r)" and "plan_ok s"
  shows "plan_ok s'"
  using assms(2) addons_execute_keeps [OF assms(1)] same_plan_path [OF addons.exec_same_plan [OF assms(1)]] cp_wf_cong [of s' s]
  by (simp add: plan_ok_def)

lemma nodegroups_execute_plan_ok:
  assumes "fst (nodegroups_execute w spec s) = Ok (s', r)" and "plan_ok s"
  shows "plan_ok s'"
  using assms(2) nodegroups_execute_keeps [OF assms(1)] nodegroups_execute_idle [OF assms(1)]
    same_plan_path [OF nodegroups.exec_same_plan [OF assms(1)]] cp_wf_cong [of s' s]
  by (simp add: plan_ok_def)

subsection \<open>Sent requests through a handler\<close>

lemma addons_execute_issued:
  assumes ok: "fst (addons_execute w spec s) = Ok (s', r)" and iss: "issued spec s F"
  shows "issued spec s' (F \<union> set (snd (addons_execute w spec s)))"
proof -
  let ?G = "F \<union> set (snd (addons_execute w spec s))"
  note sp = addons.exec_same_plan [OF ok]
  have "started_issued as_status (addon_request spec) (ph_addons (st_phases s')) ?G"
  proof (rule started_issued_step [where key = "\<lambda>a. (as_name a, as_target_version a)"])
    show "started_issued as_status (addon_request spec) (ph_addons (st_phases s)) F" using iss by (simp add: issued_def)
    show "touches_active as_status (ph_addons (st_phases s)) (ph_addons (st_phases s'))" by (rule addons_execute_touches [OF ok])
    show "map (\<lambda>a. (as_name a, as_target_version a)) (ph_addons (st_phases s')) =
        map (\<lambda>a. (as_name a, as_target_version a)) (ph_addons (st_phases s))" using sp by (simp add: same_plan_def)
  next
    fix i assume "position (\<lambda>c. \<not> is_done (as_status c)) (ph_addons (st_phases s)) = Some i"
      and "as_status (ph_addons (st_phases s) ! i) = CPending"
    then show "addon_request spec (ph_addons (st_phases s) ! i) \<in> ?G"
      by (simp add: addons_execute_effects find_active_addon_pos addon_request_def Let_def)
  qed (auto simp: addon_request_def)
  moreover have "issued spec s ?G" using issued_mono [OF iss] by simp
  ultimately show ?thesis
    using addons_execute_keeps [OF ok] same_plan_path [OF sp] by (simp add: issued_def cp_issued_def)
qed

lemma nodegroups_execute_issued:
  assumes ok: "fst (nodegroups_execute w spec s) = Ok (s', r)" and iss: "issued spec s F"
  shows "issued spec s' (F \<union> set (snd (nodegroups_execute w spec s)))"
proof -
  let ?G = "F \<union> set (snd (nodegroups_execute w spec s))"
  note sp = nodegroups.exec_same_plan [OF ok]
  have "started_issued ng_status (nodegroup_request spec) (ph_nodegroups (st_phases s')) ?G"
  proof (rule started_issued_step [where key = "\<lambda>n. (ng_name n, ng_target_version n)"])
    show "started_issued ng_status (nodegroup_request spec) (ph_nodegroups (st_phases s)) F" using iss by (simp add: issued_def)
    show "touches_active ng_status (ph_nodegroups (st_phases s)) (ph_nodegroups (st_phases s'))"
      by (rule nodegroups_execute_touches [OF ok])
    show "map (\<lambda>n. (ng_name n, ng_target_version n)) (ph_nodegroups (st_phases s')) =
        map (\<lambda>n. (ng_name n, ng_target_version n)) (ph_nodegroups (st_phases s))" using sp by (simp add: same_plan_def)
  next
    fix i assume "position (\<lambda>c. \<not> is_done (ng_status c)) (ph_nodegroups (st_phases s)) = Some i"
      and "ng_status (ph_nodegroups (st_phases s) ! i) = CPending"
    then show "nodegroup_request spec (ph_nodegroups (st_phases s) ! i) \<in> ?G"
      by (simp add: nodegroups_execute_effects active_nodegroup_pos nodegroup_request_def Let_def)
  qed (auto simp: nodegroup_request_def)
  moreover have "issued spec s ?G" using issued_mono [OF iss] by simp
  ultimately show ?thesis
    using nodegroups_execute_keeps [OF ok] same_plan_path [OF sp] by (simp add: issued_def cp_issued_def)
qed

lemma process_update_result_reached:
  assumes "process_update_result now s st (cp_current_step cp) (cp_total_steps cp) v mode = Ok (s', r)"
    and "ph_control_plane (st_phases s) = Some cp" and "cp_update_id cp \<noteq> None" and "cp_current_step cp < u32_max"
  shows "\<exists>cp'. ph_control_plane (st_phases s') = Some cp' \<and> cp_reached cp' \<le> cp_reached cp"
  using assms
  by (auto simp: process_update_result_def cp_reached_def as_u32_def u32_max_def Let_def split: if_splits)

lemma cp_execute_reached:
  assumes ok: "fst (cp_execute w spec s) = Ok (s', r)" and wf: "cp_wf s" and cp: "ph_control_plane (st_phases s) = Some cp"
  shows "\<exists>cp'. ph_control_plane (st_phases s') = Some cp' \<and>
    cp_reached cp' \<le> (if cp_current_step cp \<le> cp_total_steps cp \<and> cp_update_id cp = None then cp_current_step cp else cp_reached cp)"
proof (cases "cp_total_steps cp < cp_current_step cp")
  case True
  then show ?thesis using ok cp by (auto simp: cp_execute_def cp_reached_def Let_def)
next
  case False
  then have lt: "cp_current_step cp < u32_max" using wf cp by (simp add: cp_wf_def)
  show ?thesis
  proof (cases "cp_update_id cp")
    case None
    then show ?thesis using False ok cp by (auto simp: cp_execute_def cp_reached_def Let_def)
  next
    case (Some u)
    then show ?thesis
      using False ok cp lt
      by (cases "cp_timed_out (w_now w) spec cp")
        (auto simp: cp_execute_def apply_cp_timeout_def cp_reached_def [of "cp\<lparr>cp_update_id := None\<rparr>"]
          cp_reached_def [of cp] Let_def dest: process_update_result_reached)
  qed
qed

lemma cp_execute_issued:
  assumes ok: "fst (cp_execute w spec s) = Ok (s', r)" and iss: "issued spec s F" and wf: "cp_wf s"
  shows "issued spec s' (F \<union> set (snd (cp_execute w spec s)))"
proof -
  let ?G = "F \<union> set (snd (cp_execute w spec s))"
  from ok obtain cp where cp: "ph_control_plane (st_phases s) = Some cp"
    by (cases "ph_control_plane (st_phases s)") (auto simp: cp_execute_def)
  note fx = cp_execute_effects [OF wf cp] and path = same_plan_path [OF control_plane.exec_same_plan [OF ok]]
  obtain cp' where cp': "ph_control_plane (st_phases s') = Some cp'"
    "cp_reached cp' \<le> (if cp_current_step cp \<le> cp_total_steps cp \<and> cp_update_id cp = None then cp_current_step cp else cp_reached cp)"
    using cp_execute_reached [OF ok wf cp] by blast
  have "UpdateClusterVersion (sp_cluster_name spec) (path_of s ! i) \<in> ?G" if "i < cp_reached cp'" "i < length (path_of s)" for i
  proof (cases "i < cp_reached cp")
    case True
    then show ?thesis using iss cp that(2) by (auto simp: issued_def cp_issued_def)
  next
    case False
    then have "cp_current_step cp \<le> cp_total_steps cp \<and> cp_update_id cp = None \<and> i = cp_current_step cp - 1"
      using cp'(2) that(1) by (auto simp: cp_reached_def split: if_splits)
    then show ?thesis by (simp add: fx)
  qed
  then have "cp_issued spec s' ?G" using cp'(1) path by (simp add: cp_issued_def)
  moreover have "issued spec s ?G" using issued_mono [OF iss] by simp
  ultimately show ?thesis using cp_execute_keeps [OF ok] by (simp add: issued_def)
qed

lemma cp_done_issued:
  assumes "plan_ok s" and "cp_done s" and "issued spec s F"
  shows "UpdateClusterVersion (sp_cluster_name spec) ` set (path_of s) \<subseteq> F"
proof
  fix f assume "f \<in> UpdateClusterVersion (sp_cluster_name spec) ` set (path_of s)"
  then obtain i where i: "i < length (path_of s)" "f = UpdateClusterVersion (sp_cluster_name spec) (path_of s ! i)"
    by (auto simp: in_set_conv_nth)
  from assms(1,2) i(1) obtain cp where "ph_control_plane (st_phases s) = Some cp" "cp_total_steps cp = length (path_of s)"
    "cp_total_steps cp < cp_current_step cp" "cp_update_id cp = None"
    by (auto simp: plan_ok_def cp_done_def)
  then show "f \<in> F" using assms(3) i by (auto simp: issued_def cp_issued_def cp_reached_def)
qed

text \<open>With every phase done, the requests are the plan.\<close>

lemma all_done_issued:
  assumes "plan_ok s" and "cp_done s" and "addons_done s" and "nodegroups_done s" and "issued spec s F"
  shows "planned_requests spec s \<subseteq> F"
proof -
  have "addon_request spec ` set (ph_addons (st_phases s)) \<subseteq> F"
    by (rule started_issued_all) (use assms(3,5) in \<open>simp_all add: issued_def addons_done_def\<close>)
  moreover have "nodegroup_request spec ` set (ph_nodegroups (st_phases s)) \<subseteq> F"
    by (rule started_issued_all) (use assms(4,5) in \<open>simp_all add: issued_def nodegroups_done_def\<close>)
  ultimately show ?thesis using cp_done_issued [OF assms(1,2,5)] by (simp add: planned_requests_def)
qed

end
