(* ===== verification/Kuo_Runs.thy ===== *)
theory Kuo_Runs
  imports Kuo_Progress
begin

section \<open>Runs of the reconcile loop\<close>

text \<open>
  Sequences of reconciles of one resource whose spec does not change, each in an arbitrary
  environment (AWS and Kubernetes may answer anything, patches may be refused). The invariant
  \<open>run_inv\<close> ties the phase to the work that must be finished before it and to the requests that
  have been sent; every reconcile keeps it, and the safety properties of whole runs follow from it
  by rule induction.
\<close>

subsection \<open>The stored status\<close>

text \<open>The part of the status the run argument looks at; merge patches add stale data only elsewhere.\<close>

definition same_core :: "PhaseStatuses \<Rightarrow> PhaseStatuses \<Rightarrow> bool" where
  "same_core p q \<longleftrightarrow> ph_planning q = ph_planning p \<and>
     map_option (\<lambda>c. (cp_current_step c, cp_total_steps c, cp_update_id c)) (ph_control_plane q) =
     map_option (\<lambda>c. (cp_current_step c, cp_total_steps c, cp_update_id c)) (ph_control_plane p) \<and>
     ph_addons q = ph_addons p \<and> ph_nodegroups q = ph_nodegroups p"

definition fresh :: "EKSUpgradeStatus \<Rightarrow> bool" where
  "fresh s \<longleftrightarrow> ph_planning (st_phases s) = None \<and> ph_control_plane (st_phases s) = None \<and>
     ph_addons (st_phases s) = [] \<and> ph_nodegroups (st_phases s) = []"

lemma same_core_refl [simp]: "same_core p p"
  by (simp add: same_core_def)

lemma same_core_path: "same_core (st_phases s) (st_phases t) \<Longrightarrow> path_of t = path_of s"
  by (simp add: same_core_def path_of_def)

lemma same_core_cp:
  assumes "same_core (st_phases s) (st_phases t)"
  shows "ph_control_plane (st_phases t) = None \<longleftrightarrow> ph_control_plane (st_phases s) = None"
    and "ph_control_plane (st_phases t) = Some c' \<Longrightarrow> \<exists>c. ph_control_plane (st_phases s) = Some c \<and>
      cp_current_step c' = cp_current_step c \<and> cp_total_steps c' = cp_total_steps c \<and> cp_update_id c' = cp_update_id c"
  using assms by (cases "ph_control_plane (st_phases s)"; auto simp: same_core_def)+

lemma same_core_cp_case:
  assumes "same_core (st_phases s) (st_phases t)"
    and "\<And>c c'. cp_current_step c' = cp_current_step c \<Longrightarrow> cp_total_steps c' = cp_total_steps c \<Longrightarrow>
      cp_update_id c' = cp_update_id c \<Longrightarrow> P c' = Q c"
  shows "(case ph_control_plane (st_phases t) of None \<Rightarrow> x | Some c \<Rightarrow> P c) =
    (case ph_control_plane (st_phases s) of None \<Rightarrow> x | Some c \<Rightarrow> Q c)"
  using same_core_cp [OF assms(1)] assms(2) by (cases "ph_control_plane (st_phases t)") fastforce+

lemma plan_ok_case:
  "plan_ok s \<longleftrightarrow> list_all ng_idle (ph_nodegroups (st_phases s)) \<and>
     (case ph_control_plane (st_phases s) of None \<Rightarrow> False
      | Some cp \<Rightarrow> cp_total_steps cp = length (path_of s) \<and>
          (path_of s = [] \<and> cp_update_id cp = None \<or>
           path_of s \<noteq> [] \<and> 1 \<le> cp_current_step cp \<and> cp_total_steps cp < u32_max))"
  by (auto simp: plan_ok_def cp_wf_def split: option.splits)

lemma cp_issued_case:
  "cp_issued spec s F \<longleftrightarrow>
     (case ph_control_plane (st_phases s) of None \<Rightarrow> True
      | Some cp \<Rightarrow> \<forall>i < cp_reached cp. i < length (path_of s) \<longrightarrow>
          UpdateClusterVersion (sp_cluster_name spec) (path_of s ! i) \<in> F)"
  by (auto simp: cp_issued_def split: option.splits)

lemma same_core_facts:
  assumes "same_core (st_phases s) (st_phases t)"
  shows "plan_ok t = plan_ok s" "issued spec t F = issued spec s F" "planned_requests spec t = planned_requests spec s"
    "phase_done t p = phase_done s p" "fresh t = fresh s" "has_cp_steps t = has_cp_steps s"
proof -
  note path = same_core_path [OF assms]
  have lists: "ph_addons (st_phases t) = ph_addons (st_phases s)" "ph_nodegroups (st_phases t) = ph_nodegroups (st_phases s)"
    "ph_planning (st_phases t) = ph_planning (st_phases s)"
    using assms by (simp_all add: same_core_def)
  show "plan_ok t = plan_ok s"
    unfolding plan_ok_case lists path
    by (rule arg_cong2 [where f = "(\<and>)"], rule refl, rule same_core_cp_case [OF assms], simp)
  have "cp_issued spec t F = cp_issued spec s F"
    unfolding cp_issued_case path by (intro same_core_cp_case [OF assms]) (simp add: cp_reached_def)
  then show "issued spec t F = issued spec s F" by (simp add: issued_def lists)
  show "planned_requests spec t = planned_requests spec s" by (simp add: planned_requests_def lists path)
  have "cp_done t = cp_done s"
    unfolding cp_done_def path by (intro same_core_cp_case [OF assms]) simp
  then show "phase_done t p = phase_done s p" by (cases p) (simp_all add: addons_done_def nodegroups_done_def lists)
  show "fresh t = fresh s" using same_core_cp(1) [OF assms] by (simp add: fresh_def lists)
  show "has_cp_steps t = has_cp_steps s" by (simp add: has_cp_steps_def lists)
qed

lemma merge_same_core:
  assumes "ph_planning old = None \<or> ph_planning new = ph_planning old"
    and "ph_control_plane new = None \<Longrightarrow> ph_control_plane old = None"
    and "ph_addons new = [] \<Longrightarrow> ph_addons old = []" and "ph_nodegroups new = [] \<Longrightarrow> ph_nodegroups old = []"
  shows "same_core new (merge_phases old new)"
proof -
  have "merge_object merge_planning (ph_planning old) (ph_planning new) = ph_planning new"
    using assms(1) by (auto simp: merge_object_def merge_planning_def split: option.splits)
  moreover have "map_option (\<lambda>c. (cp_current_step c, cp_total_steps c, cp_update_id c))
      (merge_object merge_control_plane (ph_control_plane old) (ph_control_plane new)) =
      map_option (\<lambda>c. (cp_current_step c, cp_total_steps c, cp_update_id c)) (ph_control_plane new)"
    using assms(2) by (auto simp: merge_object_def merge_control_plane_def split: option.splits)
  ultimately show ?thesis
    using assms(3,4) by (auto simp: same_core_def merge_phases_def keep_empty_def)
qed

lemma merge_same_plan:
  assumes "same_plan s s'"
  shows "same_core (st_phases s') (merge_phases (st_phases s) (st_phases s'))"
  using assms by (intro merge_same_core) (auto simp: same_plan_def)

subsection \<open>One reconcile\<close>

definition stored_after :: "env \<Rightarrow> EKSUpgrade \<Rightarrow> EKSUpgradeStatus" where
  "stored_after e obj = unwrap_or default_status (oc_status (reconcile e obj))"

text \<open>
  The four things a reconcile can do to the stored status: leave phase and plan alone, fail the
  resource, reset a finished one, or store what the handler of the phase returned.
\<close>

definition kept :: "EKSUpgrade \<Rightarrow> EKSUpgradeStatus \<Rightarrow> bool" where
  "kept obj t \<longleftrightarrow> st_phases t = st_phases (obj_status obj) \<and> unwrap_or Pending (st_phase t) = obj_phase obj \<and>
     (st_observed_generation t = st_observed_generation (obj_status obj) \<or> st_observed_generation t = obj_generation obj)"

definition gave_up :: "EKSUpgrade \<Rightarrow> EKSUpgradeStatus \<Rightarrow> bool" where
  "gave_up obj t \<longleftrightarrow> st_phases t = st_phases (obj_status obj) \<and> st_phase t = Some Failed \<and>
     st_observed_generation t = obj_generation obj"

definition advanced :: "env \<Rightarrow> EKSUpgrade \<Rightarrow> EKSUpgradeStatus \<Rightarrow> bool" where
  "advanced e obj t \<longleftrightarrow> executes e obj \<and>
     (\<exists>s' r. fst (dispatch (obj_phase obj) (en_world e) (ob_spec obj) (obj_status obj)) = Ok (s', r) \<and>
        st_phases t = merge_phases (st_phases (obj_status obj)) (st_phases s') \<and>
        st_phase t = keep_none (st_phase (obj_status obj)) (st_phase s') \<and>
        st_observed_generation t = obj_generation obj)"

lemma merge_status_sel [simp]:
  "st_phases (merge_status a b) = merge_phases (st_phases a) (st_phases b)"
  "st_phase (merge_status a b) = keep_none (st_phase a) (st_phase b)"
  "st_observed_generation (merge_status a b) = st_observed_generation b"
  by (simp_all add: merge_status_def)

lemma patched_default: "(case st of None \<Rightarrow> default_status | Some s \<Rightarrow> s) = unwrap_or default_status st"
  by (simp add: unwrap_or_def split: option.splits)

lemma stored_before_phase_facts:
  assumes "executes e obj"
  shows "st_phases (unwrap_or default_status (stored_before_phase e obj)) = st_phases (obj_status obj)"
    "st_phase (unwrap_or default_status (stored_before_phase e obj)) = st_phase (obj_status obj)"
    "st_observed_generation (unwrap_or default_status (stored_before_phase e obj)) = st_observed_generation (obj_status obj) \<or>
     st_observed_generation (unwrap_or default_status (stored_before_phase e obj)) = obj_generation obj"
  by (auto simp: stored_before_phase_def patch_status_def patched_default identity_verified_def obj_status_def
      unwrap_or_def [of default_status "Some x" for x] split: option.splits sum.splits)

lemma finish_status_sel [simp]:
  "st_phases (finish_status now spec g s) = st_phases s" "st_phase (finish_status now spec g s) = st_phase s"
  "st_observed_generation (finish_status now spec g s) = g"
  by (simp_all add: finish_status_def Let_def)

lemma reconcile_executes_step:
  assumes "executes e obj"
  shows "kept obj (stored_after e obj) \<or> gave_up obj (stored_after e obj) \<or> advanced e obj (stored_after e obj)"
proof -
  let ?d = "dispatch (obj_phase obj) (en_world e) (ob_spec obj) (obj_status obj)"
  note st = stored_before_phase_facts [OF assms]
  have some: "unwrap_or default_status (Some x) = x" for x by (simp add: unwrap_or_def)
  show ?thesis
  proof (cases "fst ?d")
    case (Ok sr)
    then show ?thesis
      using st assms
      by (cases sr) (auto simp: stored_after_def reconcile_executes run_phase_def finish_ok_def patch_status_def patched_default some
          advanced_def kept_def obj_phase_def Let_def)
  next
    case (Err err)
    then show ?thesis
      using st assms
      by (auto simp: stored_after_def reconcile_executes run_phase_def finish_err_def patch_status_def patched_default some
          gave_up_def kept_def obj_phase_def Let_def)
  next
    case Panic
    then show ?thesis
      using st assms by (auto simp: stored_after_def reconcile_executes run_phase_def kept_def obj_phase_def Let_def)
  qed
qed

lemma reconcile_step:
  "kept obj (stored_after e obj) \<or> gave_up obj (stored_after e obj) \<or> advanced e obj (stored_after e obj) \<or>
   terminal (obj_phase obj) \<and> st_observed_generation (obj_status obj) < obj_generation obj \<and>
   stored_after e obj = apply_reset (obj_status obj) (obj_generation obj)"
proof (cases "executes e obj")
  case True
  then show ?thesis using reconcile_executes_step by blast
next
  case False
  have some: "unwrap_or default_status (Some x) = x" for x by (simp add: unwrap_or_def)
  from False show ?thesis
    by (auto simp: executes_def terminal_def authenticated_def reconcile_def quiet_def stored_after_def kept_def gave_up_def
        auth_failed_def patch_status_def patched_default some obj_status_def obj_phase_def obj_generation_def Let_def
        split: option.splits sum.splits)
qed

subsection \<open>The invariant\<close>

fun effect_phase :: "UpgradeMode \<Rightarrow> effect \<Rightarrow> UpgradePhase" where
  "effect_phase Forward (UpdateClusterVersion c v) = UpgradingControlPlane"
| "effect_phase Forward (UpdateAddon c n v) = UpgradingAddons"
| "effect_phase Forward (UpdateNodegroupVersion c n v) = UpgradingNodeGroups"
| "effect_phase Rollback (UpdateClusterVersion c v) = RollingBackControlPlane"
| "effect_phase Rollback (UpdateAddon c n v) = RollingBackAddons"
| "effect_phase Rollback (UpdateNodegroupVersion c n v) = RollingBackNodeGroups"
| "effect_phase _ (DeleteNodeClaim n) = UpgradingKarpenterNodePools"

definition earlier :: "UpgradeMode \<Rightarrow> UpgradePhase \<Rightarrow> UpgradePhase list" where
  "earlier mode p = takeWhile (\<lambda>q. q \<noteq> p) (work_order mode)"

definition phase_rank :: "UpgradeMode \<Rightarrow> UpgradePhase \<Rightarrow> nat" where
  "phase_rank mode p = length (earlier mode p)"

definition in_order :: "UpgradeMode \<Rightarrow> UpgradePhase \<Rightarrow> effect list \<Rightarrow> bool" where
  "in_order mode p fx \<longleftrightarrow> sorted (map (\<lambda>f. phase_rank mode (effect_phase mode f)) fx) \<and>
     (\<forall>f \<in> set fx. phase_rank mode (effect_phase mode f) \<le> phase_rank mode p)"

definition status_phase :: "EKSUpgradeStatus \<Rightarrow> UpgradePhase" where
  "status_phase s = unwrap_or Pending (st_phase s)"

definition working :: "UpgradePhase \<Rightarrow> bool" where
  "working p \<longleftrightarrow> p \<notin> {Pending, Planning, PreflightChecking, Completed, Failed}"

definition unplanned :: "UpgradePhase \<Rightarrow> bool" where
  "unplanned p \<longleftrightarrow> p = Pending \<or> p = Planning"

definition unstarted :: "UpgradePhase \<Rightarrow> bool" where
  "unstarted p \<longleftrightarrow> p = Pending \<or> p = Planning \<or> p = PreflightChecking"

definition cp_phase :: "UpgradePhase \<Rightarrow> bool" where
  "cp_phase p \<longleftrightarrow> p = UpgradingControlPlane \<or> p = RollingBackControlPlane"

lemmas phase_classes = unplanned_def unstarted_def cp_phase_def working_def

definition run_inv :: "EKSUpgradeSpec \<Rightarrow> int \<Rightarrow> EKSUpgradeStatus \<Rightarrow> effect list \<Rightarrow> bool" where
  "run_inv spec g s fx \<longleftrightarrow>
     (let p = status_phase s; mode = sp_upgrade_mode spec in
       (p \<noteq> Pending \<longrightarrow> g \<le> st_observed_generation s) \<and>
       (unplanned p \<longrightarrow> fresh s) \<and>
       (unstarted p \<or> sp_dry_run spec \<longrightarrow> fx = []) \<and>
       set fx \<subseteq> planned_requests spec s \<and> in_order mode p fx \<and>
       (\<not> unplanned p \<and> p \<noteq> Failed \<longrightarrow> plan_ok s \<and> issued spec s (set fx)) \<and>
       (working p \<longrightarrow> p \<in> set (work_order mode) \<and> \<not> sp_dry_run spec) \<and>
       (cp_phase p \<longrightarrow> has_cp_steps s) \<and>
       (working p \<or> p = Completed \<and> \<not> sp_dry_run spec \<longrightarrow> (\<forall>q \<in> set (earlier mode p). phase_done s q)))"

lemma earlier_Completed [simp]: "earlier mode Completed = work_order mode"
  by (cases mode) (simp_all add: earlier_def)

lemma run_invD:
  assumes "run_inv spec g s fx"
  shows "status_phase s \<noteq> Pending \<Longrightarrow> g \<le> st_observed_generation s"
    "unplanned (status_phase s) \<Longrightarrow> fresh s"
    "unstarted (status_phase s) \<Longrightarrow> fx = []" "sp_dry_run spec \<Longrightarrow> fx = []"
    "set fx \<subseteq> planned_requests spec s" "in_order (sp_upgrade_mode spec) (status_phase s) fx"
    "\<not> unplanned (status_phase s) \<Longrightarrow> status_phase s \<noteq> Failed \<Longrightarrow> plan_ok s"
    "\<not> unplanned (status_phase s) \<Longrightarrow> status_phase s \<noteq> Failed \<Longrightarrow> issued spec s (set fx)"
    "working (status_phase s) \<Longrightarrow> status_phase s \<in> set (work_order (sp_upgrade_mode spec))"
    "working (status_phase s) \<Longrightarrow> \<not> sp_dry_run spec"
    "cp_phase (status_phase s) \<Longrightarrow> has_cp_steps s"
    "working (status_phase s) \<Longrightarrow> q \<in> set (earlier (sp_upgrade_mode spec) (status_phase s)) \<Longrightarrow> phase_done s q"
    "status_phase s = Completed \<Longrightarrow> \<not> sp_dry_run spec \<Longrightarrow> q \<in> set (work_order (sp_upgrade_mode spec)) \<Longrightarrow> phase_done s q"
  using assms by (simp_all add: run_inv_def Let_def)

lemma no_work_done:
  assumes "plan_ok s" and "\<not> has_work s q"
  shows "phase_done s q"
proof -
  have "path_of s = [] \<longleftrightarrow> \<not> has_cp_steps s" for s by (simp add: path_of_def has_cp_steps_def split: option.splits)
  then show ?thesis
    using assms by (cases q) (auto simp: plan_ok_def cp_done_def addons_done_def nodegroups_done_def has_addons_def has_nodegroups_def)
qed

lemma route_earlier:
  assumes "p = PreflightChecking \<or> p \<in> set (work_order mode)" and "q \<in> set (earlier mode (route p s mode))"
  shows "p \<noteq> PreflightChecking \<and> (q \<in> set (earlier mode p) \<or> q = p) \<or> \<not> has_work s q"
  using assms by (cases mode) (auto simp: earlier_def after_karpenter_def split: if_splits)

lemma route_rank:
  assumes "p \<in> set (work_order mode)"
  shows "phase_rank mode p \<le> phase_rank mode (route p s mode)"
  using assms by (cases mode) (auto simp: phase_rank_def earlier_def after_karpenter_def)

lemma rank_terminal [simp]: "phase_rank mode q \<le> phase_rank mode Failed" "phase_rank mode q \<le> phase_rank mode Completed"
  by (cases mode; simp add: phase_rank_def earlier_def)+

lemma in_order_mono: "in_order mode p fx \<Longrightarrow> phase_rank mode p \<le> phase_rank mode q \<Longrightarrow> in_order mode q fx"
  using le_trans by (fastforce simp: in_order_def)

lemma in_order_append:
  assumes "in_order mode p fx" and "\<And>f. f \<in> set gx \<Longrightarrow> effect_phase mode f = p"
  shows "in_order mode p (fx @ gx)"
proof -
  have "map (\<lambda>f. phase_rank mode (effect_phase mode f)) gx = replicate (length gx) (phase_rank mode p)"
    using assms(2) by (simp add: map_eq_conv list_eq_iff_nth_eq)
  then show ?thesis using assms by (auto simp: in_order_def sorted_append)
qed

lemma working_route:
  assumes "p = PreflightChecking \<or> p \<in> set (work_order mode)"
  shows "route p s mode = Completed \<or> working (route p s mode) \<and> route p s mode \<in> set (work_order mode) \<and>
    (route p s mode \<in> {UpgradingControlPlane, RollingBackControlPlane} \<longrightarrow> has_cp_steps s)"
  using assms by (cases mode) (auto simp: working_def after_karpenter_def split: if_splits)

subsection \<open>Every reconcile keeps the invariant\<close>

text \<open>
  The step counter is 32 bits wide; the highest possible target minor is left out so that the
  counter can pass the length of the path.
\<close>

definition small_target :: "EKSUpgradeSpec \<Rightarrow> bool" where
  "small_target spec \<longleftrightarrow>
     (case parse_k8s_version (sp_target_version spec) of Ok (major, minor) \<Rightarrow> minor < u32_max | _ \<Rightarrow> True)"

lemma control_plane_path_length:
  assumes "control_plane_path mode c (sp_target_version spec) = Ok path" and "small_target spec"
  shows "length path < u32_max"
  using assms
  by (cases mode)
    (auto simp: control_plane_path_def small_target_def calculate_upgrade_path_Ok calculate_rollback_path_Ok u32_max_def
      simp del: upt_Suc)

lemma pending_issued:
  assumes "ph_control_plane (st_phases s) = Some cp" and "cp_current_step cp \<le> 1" and "cp_update_id cp = None"
    and "list_all (\<lambda>a. as_status a = CPending) (ph_addons (st_phases s))"
    and "list_all (\<lambda>n. ng_status n = CPending) (ph_nodegroups (st_phases s))"
  shows "issued spec s F"
  using assms by (auto simp: issued_def cp_issued_def started_issued_def cp_reached_def list_all_iff)

lemma planning_execute_plan:
  assumes ok: "planning_execute w spec s = Ok s'" and small: "small_target spec"
    and nc: "\<not> is_consecutive_rollback (sp_upgrade_mode spec) (st_last_transition s)"
  shows "plan_ok s' \<and> issued spec s' F \<and>
    (st_phase s' = Some PreflightChecking \<or> st_phase s' = Some Completed \<and> (\<forall>q. phase_done s' q))"
proof -
  from planning_execute_Ok [OF ok nc] obtain plan pools where
    plan: "create_upgrade_plan (eks_client w spec) (sp_cluster_name spec) (sp_target_version spec)
       (case sp_addon_versions spec of Some m \<Rightarrow> m | None \<Rightarrow> Map.empty) (sp_upgrade_mode spec) = Ok plan"
    and ph: "st_phases s' = plan_phases spec plan pools (st_phases s)"
    and phase: "st_phase s' = Some (if plan_is_empty plan \<and> pools = [] then Completed else PreflightChecking)" .
  have path: "path_of s' = up_upgrade_path plan" by (simp add: path_of_def ph plan_phases_def Let_def)
  have len: "length (path_of s') < u32_max"
    using create_upgrade_plan_Ok [OF plan] control_plane_path_length [OF _ small] path by auto
  obtain cp where cp: "ph_control_plane (st_phases s') = Some cp" "cp_total_steps cp = length (path_of s')"
      "cp_update_id cp = None" "cp_current_step cp = (if path_of s' = [] then 0 else 1)"
    using len by (auto simp: ph plan_phases_def path as_u32_def u32_max_def Let_def)
  have lists: "list_all (\<lambda>a. as_status a = CPending) (ph_addons (st_phases s'))"
    "list_all (\<lambda>n. ng_status n = CPending) (ph_nodegroups (st_phases s'))" "list_all ng_idle (ph_nodegroups (st_phases s'))"
    by (simp_all add: ph planned_addon_def planned_nodegroup_def ng_idle_def list_all_iff)
  have good: "plan_ok s'" using cp len lists(3) by (auto simp: plan_ok_def cp_wf_def)
  moreover have "issued spec s' F" by (rule pending_issued [OF cp(1) _ cp(3) lists(1,2)]) (simp add: cp(4))
  moreover have "\<forall>q. phase_done s' q" if "plan_is_empty plan"
  proof
    fix q
    have "\<not> has_work s' q \<or> phase_done s' q"
      using that by (cases q) (auto simp: plan_is_empty_def has_cp_steps_def has_addons_def has_nodegroups_def ph plan_phases_def Let_def)
    then show "phase_done s' q" using no_work_done [OF good] by blast
  qed
  ultimately show ?thesis using phase by auto
qed

lemma planning_rejected:
  assumes "planning_execute w spec s = Ok s'" and "is_consecutive_rollback (sp_upgrade_mode spec) (st_last_transition s)"
  shows "st_phase s' = Some Failed" and "st_phases s' = st_phases s"
  using assms by (auto simp: planning_execute_def reject_consecutive_rollback_def Let_def simp del: is_consecutive_rollback.simps)

text \<open>The Karpenter phase is never executed while the spec stays the same.\<close>

lemma karpenter_not_executed:
  assumes "run_inv (ob_spec obj) (obj_generation obj) (obj_status obj) fx" and "obj_phase obj = UpgradingKarpenterNodePools"
  shows "\<not> executes e obj"
proof -
  let ?s = "obj_status obj"
  have p: "status_phase ?s = UpgradingKarpenterNodePools" using assms(2) by (simp add: status_phase_def obj_phase_def)
  then have inv: "obj_generation obj \<le> st_observed_generation ?s" "plan_ok ?s"
      "UpgradingKarpenterNodePools \<in> set (work_order (sp_upgrade_mode (ob_spec obj)))"
      "\<forall>q \<in> set (earlier (sp_upgrade_mode (ob_spec obj)) UpgradingKarpenterNodePools). phase_done ?s q"
    using run_invD [OF assms(1)] by (simp_all add: phase_classes)
  from inv(3) have "sp_upgrade_mode (ob_spec obj) = Forward" by (cases "sp_upgrade_mode (ob_spec obj)") simp_all
  with inv(4) have "cp_done ?s" "nodegroups_done ?s" by (simp_all add: earlier_def)
  moreover have "\<forall>n \<in> set (ph_nodegroups (st_phases ?s)). ng_update_id n = None"
    using \<open>nodegroups_done ?s\<close> inv(2) by (simp add: nodegroups_done_def plan_ok_def list_all_iff ng_idle_done)
  ultimately have "\<not> has_active_update ?s"
    by (auto simp: has_active_update_def cp_done_def list_ex_iff split: option.splits)
  then show ?thesis
    using inv(1) assms(2) by (simp add: executes_def skip_reconcile_def polling_phases_def)
qed

lemma run_inv_wf:
  assumes "run_inv spec g s fx" and "cp_phase (status_phase s)"
  shows "plan_ok s" "cp_wf s" "path_of s \<noteq> []" "\<exists>cp. ph_control_plane (st_phases s) = Some cp \<and> cp_total_steps cp = length (path_of s)"
proof -
  show "plan_ok s" using run_invD(7) [OF assms(1)] assms(2) by (auto simp: phase_classes)
  moreover show "path_of s \<noteq> []"
    using run_invD(11) [OF assms] by (auto simp: has_cp_steps_def path_of_def split: option.splits)
  ultimately show "cp_wf s" "\<exists>cp. ph_control_plane (st_phases s) = Some cp \<and> cp_total_steps cp = length (path_of s)"
    by (auto simp: plan_ok_def)
qed

lemma obj_phase_status [simp]: "status_phase (obj_status obj) = obj_phase obj"
  by (simp add: status_phase_def obj_phase_def)

lemma nth_request_planned:
  "i < length (ph_addons (st_phases s)) \<Longrightarrow> addon_request spec (ph_addons (st_phases s) ! i) \<in> planned_requests spec s"
  "j < length (ph_nodegroups (st_phases s)) \<Longrightarrow> nodegroup_request spec (ph_nodegroups (st_phases s) ! j) \<in> planned_requests spec s"
  by (simp_all add: planned_requests_def)

lemma addons_effects_planned: "set (snd (addons_execute w spec s)) \<subseteq> planned_requests spec s"
  using nth_request_planned(1) addon_queue.active_Some(1)
  by (auto simp: addons_execute_effects addon_request_def Let_def split: option.splits)

lemma nodegroups_effects_planned: "set (snd (nodegroups_execute w spec s)) \<subseteq> planned_requests spec s"
  using nth_request_planned(2) nodegroup_queue.active_Some(1)
  by (auto simp: nodegroups_execute_effects nodegroup_request_def Let_def split: option.splits)

lemma cp_effects_planned:
  assumes "cp_wf s" and "ph_control_plane (st_phases s) = Some cp"
  shows "set (snd (cp_execute w spec s)) \<subseteq> planned_requests spec s"
  using assms by (auto simp: cp_execute_effects [OF assms] planned_requests_def cp_wf_def)

lemma run_inv_effects:
  assumes inv: "run_inv (ob_spec obj) (obj_generation obj) (obj_status obj) fx" and f: "f \<in> set (oc_effects (reconcile e obj))"
  shows "working (obj_phase obj)" "f \<in> planned_requests (ob_spec obj) (obj_status obj)"
    "effect_phase (sp_upgrade_mode (ob_spec obj)) f = obj_phase obj"
proof -
  let ?spec = "ob_spec obj" and ?s = "obj_status obj" and ?w = "en_world e"
  from f have ex: "executes e obj" and f: "f \<in> set (snd (dispatch (obj_phase obj) ?w ?spec ?s))"
    by (auto simp: reconcile_effects split: if_splits)
  have nk: "obj_phase obj \<noteq> UpgradingKarpenterNodePools" using karpenter_not_executed [OF inv] ex by blast
  then show wk: "working (obj_phase obj)"
    using f by (cases "obj_phase obj") (auto simp: working_def with_requeue_def)
  have "obj_phase obj \<in> set (work_order (sp_upgrade_mode ?spec))" using run_invD(9) [OF inv] wk by simp
  moreover have "f \<in> planned_requests ?spec ?s \<and> (cp_phase (obj_phase obj) \<longrightarrow> (\<exists>c v. f = UpdateClusterVersion c v)) \<and>
      (obj_phase obj \<in> {UpgradingAddons, RollingBackAddons} \<longrightarrow> (\<exists>c n v. f = UpdateAddon c n v)) \<and>
      (obj_phase obj \<in> {UpgradingNodeGroups, RollingBackNodeGroups} \<longrightarrow> (\<exists>c n v. f = UpdateNodegroupVersion c n v))"
  proof (cases "cp_phase (obj_phase obj)")
    case True
    then have "f \<in> set (snd (cp_execute ?w ?spec ?s))" using f by (auto simp: cp_phase_def)
    moreover obtain cp where "cp_wf ?s" "ph_control_plane (st_phases ?s) = Some cp"
      using run_inv_wf [OF inv] True by auto
    ultimately show ?thesis using True cp_effects_planned control_plane.exec_effects by (fastforce simp: cp_phase_def)
  next
    case False
    then have "obj_phase obj \<in> {UpgradingAddons, RollingBackAddons} \<and> f \<in> set (snd (addons_execute ?w ?spec ?s)) \<or>
        obj_phase obj \<in> {UpgradingNodeGroups, RollingBackNodeGroups} \<and> f \<in> set (snd (nodegroups_execute ?w ?spec ?s))"
      using f wk nk by (cases "obj_phase obj") (auto simp: phase_classes)
    then show ?thesis
      using False addons_effects_planned nodegroups_effects_planned addons.exec_effects nodegroups.exec_effects by fastforce
  qed
  ultimately show "f \<in> planned_requests ?spec ?s" "effect_phase (sp_upgrade_mode ?spec) f = obj_phase obj"
    using nk by (cases "sp_upgrade_mode ?spec"; auto simp: cp_phase_def)+
qed

text \<open>The requests alone: they stay planned and in order, whatever becomes of the status.\<close>

lemma run_inv_requests:
  fixes e :: env and obj :: EKSUpgrade and fx :: "effect list"
  assumes inv: "run_inv (ob_spec obj) (obj_generation obj) (obj_status obj) fx"
  defines "gx \<equiv> fx @ oc_effects (reconcile e obj)"
  shows "set gx \<subseteq> planned_requests (ob_spec obj) (obj_status obj)"
    "in_order (sp_upgrade_mode (ob_spec obj)) (obj_phase obj) gx"
    "unstarted (obj_phase obj) \<or> sp_dry_run (ob_spec obj) \<Longrightarrow> gx = []"
proof -
  note fx = run_inv_effects [OF inv, of _ e]
  show "set gx \<subseteq> planned_requests (ob_spec obj) (obj_status obj)"
    using run_invD(5) [OF inv] fx(2) by (auto simp: gx_def)
  show "in_order (sp_upgrade_mode (ob_spec obj)) (obj_phase obj) gx"
    using run_invD(6) [OF inv] fx(3) by (auto simp: gx_def intro: in_order_append)
  assume u: "unstarted (obj_phase obj) \<or> sp_dry_run (ob_spec obj)"
  then have "\<not> working (obj_phase obj)" using run_invD(10) [OF inv] by (auto simp: phase_classes)
  then have "oc_effects (reconcile e obj) = []" using fx(1) by (cases "oc_effects (reconcile e obj)") auto
  then show "gx = []" using u run_invD(3,4) [OF inv] by (auto simp: gx_def)
qed

text \<open>A status whose phase and plan are those of another one, or that has given up.\<close>

lemma run_inv_kept:
  assumes "run_inv spec g s fx" and "same_core (st_phases s) (st_phases t)" and "status_phase t = status_phase s"
    and "g \<le> st_observed_generation s \<Longrightarrow> g \<le> st_observed_generation t"
    and "set fx \<subseteq> set gx" "set gx \<subseteq> planned_requests spec s" "in_order (sp_upgrade_mode spec) (status_phase s) gx"
    "unstarted (status_phase s) \<or> sp_dry_run spec \<Longrightarrow> gx = []"
  shows "run_inv spec g t gx"
  using run_invD [OF assms(1)] assms(4-) issued_mono [OF _ assms(5)]
  unfolding run_inv_def Let_def assms(3) same_core_facts [OF assms(2)]
  by auto

lemma run_inv_failed:
  assumes "status_phase t = Failed" and "g \<le> st_observed_generation t"
    and "set gx \<subseteq> planned_requests spec t" "in_order (sp_upgrade_mode spec) p gx" "sp_dry_run spec \<Longrightarrow> gx = []"
  shows "run_inv spec g t gx"
  using assms in_order_mono [OF assms(4), of Failed] by (simp add: run_inv_def phase_classes)

text \<open>A handler's result, before it is merged into the stored status.\<close>

definition work_result :: "EKSUpgradeSpec \<Rightarrow> EKSUpgradeStatus \<Rightarrow> UpgradePhase \<Rightarrow> effect list \<Rightarrow> EKSUpgradeStatus \<Rightarrow> bool" where
  "work_result spec s p gx s' \<longleftrightarrow> same_plan s s' \<and> plan_ok s' \<and> issued spec s' (set gx) \<and>
     (st_phase s' = st_phase s \<or> st_phase s' = Some Failed \<or>
      st_phase s' = Some (route p s (sp_upgrade_mode spec)) \<and> phase_done s' p) \<and>
     (\<forall>q \<in> set (earlier (sp_upgrade_mode spec) p). phase_done s' q)"

lemma run_inv_work:
  assumes inv: "run_inv spec g s fx" and p: "status_phase s = p" "working p" and res: "work_result spec s p gx s'"
    and t: "same_core (st_phases s') (st_phases t)" "st_phase t = keep_none (st_phase s) (st_phase s')" "st_observed_generation t = g"
    and gx: "set gx \<subseteq> planned_requests spec s" "in_order (sp_upgrade_mode spec) p gx"
  shows "run_inv spec g t gx"
proof -
  let ?mode = "sp_upgrade_mode spec"
  from res have sp: "same_plan s s'" and plan: "plan_ok s'" "issued spec s' (set gx)"
    and nxt: "st_phase s' = st_phase s \<or> st_phase s' = Some Failed \<or> st_phase s' = Some (route p s ?mode) \<and> phase_done s' p"
    and before: "\<forall>q \<in> set (earlier ?mode p). phase_done s' q"
    by (auto simp: work_result_def)
  note core = same_core_facts [OF t(1)]
  have wo: "p \<in> set (work_order ?mode)" "\<not> sp_dry_run spec" using run_invD(9,10) [OF inv] p by auto
  have gx': "set gx \<subseteq> planned_requests spec t" using gx(1) by (simp add: core same_plan_planned_requests [OF sp])
  have cps: "has_cp_steps t = has_cp_steps s" by (simp add: core same_plan_has_work [OF sp])
  have cpp: "cp_phase p \<Longrightarrow> has_cp_steps s" using run_invD(11) [OF inv] p by simp
  from p have some: "st_phase s = Some p" by (cases "st_phase s") (auto simp: status_phase_def unwrap_or_def phase_classes)
  consider (same) "status_phase t = p" | (failed) "status_phase t = Failed"
    | (moved) "status_phase t = route p s ?mode" "phase_done s' p"
    using nxt some t(2) by (auto simp: status_phase_def unwrap_or_def)
  then show ?thesis
  proof cases
    case same
    then show ?thesis
      using p wo gx gx' plan before cps cpp t(3) by (auto simp: run_inv_def core phase_classes)
  next
    case failed
    then show ?thesis using gx gx' t(3) wo by (intro run_inv_failed [where p = p]) auto
  next
    case moved
    let ?n = "route p s ?mode"
    have "phase_done t q" if "q \<in> set (earlier ?mode ?n)" for q
    proof -
      have "q \<in> set (earlier ?mode p) \<or> q = p \<or> \<not> has_work s' q"
        using route_earlier [OF disjI2 [OF wo(1)] that] same_plan_has_work [OF sp] by (cases q) auto
      then show ?thesis using before moved(2) no_work_done [OF plan(1)] core by auto
    qed
    moreover have "in_order ?mode ?n gx" using gx(2) route_rank [OF wo(1)] by (rule in_order_mono)
    moreover have "?n = Completed \<or> working ?n \<and> ?n \<in> set (work_order ?mode) \<and> (cp_phase ?n \<longrightarrow> has_cp_steps s)"
      using working_route [OF disjI2 [OF wo(1)], of s] by (auto simp: cp_phase_def)
    ultimately show ?thesis
      using moved(1) gx' plan t(3) wo cps by (auto simp: run_inv_def core phase_classes)
  qed
qed

lemma cp_work_result:
  assumes inv: "run_inv spec g s fx" and p: "cp_phase (status_phase s)" and ok: "fst (cp_execute w spec s) = Ok (s', r)"
  shows "work_result spec s (status_phase s) (fx @ snd (cp_execute w spec s)) s'"
proof -
  let ?p = "status_phase s"
  note wf = run_inv_wf [OF inv p]
  have pc: "\<not> unplanned ?p" "?p \<noteq> Failed" "working ?p" using p by (auto simp: phase_classes)
  have "phase_done s' q" if "q \<in> set (earlier (sp_upgrade_mode spec) ?p)" for q
    using run_invD(9) [OF inv pc(3)] run_invD(12) [OF inv pc(3) that] that p cp_execute_keeps [OF ok]
    by (cases "sp_upgrade_mode spec") (auto simp: cp_phase_def earlier_def addons_done_def nodegroups_done_def)
  moreover have "route ?p = after_control_plane" "phase_done s' ?p = cp_done s'" using p by (auto simp: cp_phase_def)
  ultimately show ?thesis
    using control_plane.exec_same_plan [OF ok] cp_execute_plan_ok [OF ok wf(1,3)] cp_execute_advances_when_done [OF ok]
      cp_execute_issued [OF ok run_invD(8) [OF inv pc(1,2)] wf(2)]
    by (auto simp: work_result_def)
qed

lemma addons_work_result:
  assumes inv: "run_inv spec g s fx" and p: "status_phase s \<in> {UpgradingAddons, RollingBackAddons}"
    and ok: "fst (addons_execute w spec s) = Ok (s', r)"
  shows "work_result spec s (status_phase s) (fx @ snd (addons_execute w spec s)) s'"
proof -
  let ?p = "status_phase s"
  have pc: "\<not> unplanned ?p" "?p \<noteq> Failed" "working ?p" using p by (auto simp: phase_classes)
  note sp = addons.exec_same_plan [OF ok]
  have "cp_done s' = cp_done s" using addons_execute_keeps [OF ok] same_plan_path [OF sp] by (simp add: cp_done_def split: option.splits)
  then have "phase_done s' q" if "q \<in> set (earlier (sp_upgrade_mode spec) ?p)" for q
    using run_invD(9) [OF inv pc(3)] run_invD(12) [OF inv pc(3) that] that p addons_execute_keeps [OF ok]
    by (cases "sp_upgrade_mode spec") (auto simp: earlier_def nodegroups_done_def)
  moreover have "route ?p = after_addons" "phase_done s' ?p = addons_done s'" using p by auto
  ultimately show ?thesis
    using sp addons_execute_plan_ok [OF ok run_invD(7) [OF inv pc(1,2)]] addons_execute_advances_when_done [OF ok]
      addons_execute_issued [OF ok run_invD(8) [OF inv pc(1,2)]]
    by (auto simp: work_result_def)
qed

lemma nodegroups_work_result:
  assumes inv: "run_inv spec g s fx" and p: "status_phase s \<in> {UpgradingNodeGroups, RollingBackNodeGroups}"
    and ok: "fst (nodegroups_execute w spec s) = Ok (s', r)"
  shows "work_result spec s (status_phase s) (fx @ snd (nodegroups_execute w spec s)) s'"
proof -
  let ?p = "status_phase s"
  have pc: "\<not> unplanned ?p" "?p \<noteq> Failed" "working ?p" using p by (auto simp: phase_classes)
  note sp = nodegroups.exec_same_plan [OF ok]
  have "cp_done s' = cp_done s" using nodegroups_execute_keeps [OF ok] same_plan_path [OF sp] by (simp add: cp_done_def split: option.splits)
  then have "phase_done s' q" if "q \<in> set (earlier (sp_upgrade_mode spec) ?p)" for q
    using run_invD(9) [OF inv pc(3)] run_invD(12) [OF inv pc(3) that] that p nodegroups_execute_keeps [OF ok]
    by (cases "sp_upgrade_mode spec") (auto simp: earlier_def addons_done_def)
  moreover have "route ?p = after_nodegroups" "phase_done s' ?p = nodegroups_done s'" using p by auto
  ultimately show ?thesis
    using sp nodegroups_execute_plan_ok [OF ok run_invD(7) [OF inv pc(1,2)]] nodegroups_execute_advances_when_done [OF ok]
      nodegroups_execute_issued [OF ok run_invD(8) [OF inv pc(1,2)]]
    by (auto simp: work_result_def)
qed

lemma run_inv_planning:
  assumes inv: "run_inv spec g s []" and p: "status_phase s = Planning" and ok: "planning_execute w spec s = Ok s'"
    and small: "small_target spec"
    and t: "st_phases t = merge_phases (st_phases s) (st_phases s')" "st_phase t = keep_none (st_phase s) (st_phase s')"
      "st_observed_generation t = g"
  shows "run_inv spec g t []"
proof (cases "is_consecutive_rollback (sp_upgrade_mode spec) (st_last_transition s)")
  case True
  from planning_rejected [OF ok True] t show ?thesis
    by (simp add: run_inv_def in_order_def status_phase_def unwrap_or_def phase_classes)
next
  case False
  note plan = planning_execute_plan [OF ok small False, of "{}"]
  have "fresh s" using run_invD(2) [OF inv] p by (simp add: unplanned_def)
  then have "same_core (st_phases s') (st_phases t)" unfolding t(1) by (intro merge_same_core) (auto simp: fresh_def)
  note core = same_core_facts [OF this]
  show ?thesis
    using plan t(2,3)
    by (auto simp: run_inv_def core in_order_def status_phase_def unwrap_or_def phase_classes)
qed

lemma preflight_execute_core:
  "preflight_execute w spec s = Ok s' \<Longrightarrow> same_core (st_phases s) (st_phases s')"
  by (auto simp: preflight_execute_def same_core_def Let_def split: if_splits)

lemma routing_preflight: "first_with_work s (work_order mode) = route PreflightChecking s mode"
  by (cases mode) (simp_all add: first_with_work_def)

lemma run_inv_preflight:
  assumes inv: "run_inv spec g s []" and p: "status_phase s = PreflightChecking" and ok: "preflight_execute w spec s = Ok s'"
    and t: "st_phases t = merge_phases (st_phases s) (st_phases s')" "st_phase t = keep_none (st_phase s) (st_phase s')"
      "st_observed_generation t = g"
  shows "run_inv spec g t []"
proof -
  let ?mode = "sp_upgrade_mode spec" and ?n = "route PreflightChecking s (sp_upgrade_mode spec)"
  note sp = preflight_execute_same_plan [OF ok]
  have "same_core (st_phases s) (st_phases s')" using preflight_execute_core [OF ok] .
  note core0 = same_core_facts [OF this]
  have "same_core (st_phases s') (st_phases t)" unfolding t(1) by (rule merge_same_plan [OF sp])
  note core = same_core_facts [OF this]
  have plan: "plan_ok t" "issued spec t {}" using run_invD(7,8) [OF inv] p by (auto simp: core core0 phase_classes)
  have nxt: "st_phase s' = Some Failed \<or> st_phase s' = Some Completed \<and> sp_dry_run spec \<or> st_phase s' = Some ?n \<and> \<not> sp_dry_run spec"
    using preflight_decision [OF ok] routing_preflight [of s ?mode] by (auto simp: Let_def split: if_splits)
  have "phase_done t q" if "q \<in> set (earlier ?mode ?n)" for q
    using route_earlier [OF disjI1 [OF refl] that] no_work_done [of s q] plan(1) by (simp add: core core0)
  moreover have "?n = Completed \<or> working ?n \<and> ?n \<in> set (work_order ?mode) \<and> (cp_phase ?n \<longrightarrow> has_cp_steps t)"
    using working_route [OF disjI1 [OF refl], of s ?mode] by (auto simp: cp_phase_def core core0)
  ultimately show ?thesis
    using nxt plan t(2,3) by (auto simp: run_inv_def in_order_def status_phase_def unwrap_or_def phase_classes)
qed

lemma run_inv_advanced:
  assumes inv: "run_inv (ob_spec obj) (obj_generation obj) (obj_status obj) fx" and small: "small_target (ob_spec obj)"
    and adv: "advanced e obj t"
  shows "run_inv (ob_spec obj) (obj_generation obj) t (fx @ oc_effects (reconcile e obj))"
proof -
  let ?spec = "ob_spec obj" and ?s = "obj_status obj" and ?w = "en_world e" and ?p = "obj_phase obj"
  let ?gx = "fx @ oc_effects (reconcile e obj)"
  from adv obtain s' r where ex: "executes e obj" and ok: "fst (dispatch ?p ?w ?spec ?s) = Ok (s', r)"
    and t: "st_phases t = merge_phases (st_phases ?s) (st_phases s')" "st_phase t = keep_none (st_phase ?s) (st_phase s')"
      "st_observed_generation t = obj_generation obj"
    by (auto simp: advanced_def)
  note rq = run_inv_requests [OF inv, of e]
  have gx: "?gx = fx @ snd (dispatch ?p ?w ?spec ?s)" using ex by (simp add: reconcile_effects)
  have work: "run_inv ?spec (obj_generation obj) t ?gx" if "working ?p" "work_result ?spec ?s ?p ?gx s'"
  proof (rule run_inv_work [OF inv _ that(1,2) _ t(2,3) rq(1,2)])
    show "same_core (st_phases s') (st_phases t)"
      unfolding t(1) by (rule merge_same_plan) (use that(2) in \<open>simp add: work_result_def\<close>)
  qed simp
  have nk: "?p \<noteq> UpgradingKarpenterNodePools" using karpenter_not_executed [OF inv] ex by blast
  have nt: "?p \<noteq> Completed" "?p \<noteq> Failed" using ex by (auto simp: executes_def terminal_def)
  have un: "unstarted ?p \<Longrightarrow> fx = [] \<and> ?gx = []" using rq(3) by auto
  consider "?p = Pending" | "?p = Planning" | "?p = PreflightChecking" | "cp_phase ?p"
    | "?p \<in> {UpgradingAddons, RollingBackAddons}" | "?p \<in> {UpgradingNodeGroups, RollingBackNodeGroups}"
    using nk nt by (cases ?p) (auto simp: cp_phase_def)
  then show ?thesis
  proof cases
    case 1
    then have "st_phases s' = st_phases ?s" "st_phase s' = Some Planning" using ok by auto
    moreover have "fresh ?s" using run_invD(2) [OF inv] 1 by (simp add: unplanned_def)
    ultimately show ?thesis
      using 1 un t
      by (auto simp: run_inv_def in_order_def status_phase_def unwrap_or_def phase_classes fresh_def)
  next
    case 2
    then have "planning_execute ?w ?spec ?s = Ok s'" using ok by (auto simp: with_requeue_def)
    then show ?thesis
      using 2 un inv run_inv_planning [OF _ _ _ small t] by (auto simp: unstarted_def)
  next
    case 3
    then have "preflight_execute ?w ?spec ?s = Ok s'" using ok by (auto simp: with_requeue_def)
    then show ?thesis
      using 3 un inv run_inv_preflight [OF _ _ _ t] by (auto simp: unstarted_def)
  next
    case 4
    then have d: "dispatch ?p ?w ?spec ?s = cp_execute ?w ?spec ?s" by (auto simp: cp_phase_def)
    show ?thesis
      using cp_work_result [OF inv _ ok [unfolded d]] 4 gx d by (intro work) (auto simp: phase_classes)
  next
    case 5
    then have d: "dispatch ?p ?w ?spec ?s = addons_execute ?w ?spec ?s" by auto
    show ?thesis
      using addons_work_result [OF inv _ ok [unfolded d]] 5 gx d by (intro work) (auto simp: phase_classes)
  next
    case 6
    then have d: "dispatch ?p ?w ?spec ?s = nodegroups_execute ?w ?spec ?s" by auto
    show ?thesis
      using nodegroups_work_result [OF inv _ ok [unfolded d]] 6 gx d by (intro work) (auto simp: phase_classes)
  qed
qed

lemma run_inv_step:
  assumes inv: "run_inv (ob_spec obj) (obj_generation obj) (obj_status obj) fx" and small: "small_target (ob_spec obj)"
  shows "run_inv (ob_spec obj) (obj_generation obj) (stored_after e obj) (fx @ oc_effects (reconcile e obj))"
proof -
  let ?t = "stored_after e obj"
  note rq = run_inv_requests [OF inv, of e]
  from reconcile_step [of obj e] show ?thesis
  proof (elim disjE conjE)
    assume k: "kept obj ?t"
    then have "status_phase ?t = obj_phase obj" "same_core (st_phases (obj_status obj)) (st_phases ?t)"
      by (simp_all add: kept_def status_phase_def)
    then show ?thesis using k rq by (intro run_inv_kept [OF inv]) (auto simp: kept_def)
  next
    assume g: "gave_up obj ?t"
    then have "same_core (st_phases (obj_status obj)) (st_phases ?t)" by (simp add: gave_up_def)
    from same_core_facts(3) [OF this] show ?thesis
      using g rq by (intro run_inv_failed [where p = "obj_phase obj"]) (auto simp: gave_up_def status_phase_def unwrap_or_def)
  next
    assume "advanced e obj ?t"
    then show ?thesis by (rule run_inv_advanced [OF inv small])
  next
    assume "terminal (obj_phase obj)" "st_observed_generation (obj_status obj) < obj_generation obj"
    then show ?thesis using run_invD(1) [OF inv] by (auto simp: terminal_def)
  qed
qed

subsection \<open>Runs\<close>

text \<open>
  A run of one resource: any number of reconciles, each in its own environment, with the spec and
  the generation left alone. The list collects every request sent on the way.
\<close>

inductive reaches :: "EKSUpgrade \<Rightarrow> EKSUpgrade \<Rightarrow> effect list \<Rightarrow> bool" for obj0 where
  start: "reaches obj0 obj0 []"
| step: "reaches obj0 obj fx \<Longrightarrow>
    reaches obj0 (obj\<lparr>ob_status := oc_status (reconcile e obj)\<rparr>) (fx @ oc_effects (reconcile e obj))"

text \<open>Where a run begins: a resource just created, or one just reset after a change of its spec.\<close>

definition new_run :: "EKSUpgrade \<Rightarrow> bool" where
  "new_run obj \<longleftrightarrow> obj_phase obj = Pending \<and> fresh (obj_status obj)"

lemma obj_status_update [simp]:
  "obj_status (obj\<lparr>ob_status := oc_status (reconcile e obj)\<rparr>) = stored_after e obj"
  "obj_generation (obj\<lparr>ob_status := x\<rparr>) = obj_generation obj"
  by (simp_all add: obj_status_def stored_after_def obj_generation_def)

lemma reaches_inv:
  assumes "reaches obj0 obj fx" and "new_run obj0" and "small_target (ob_spec obj0)"
  shows "ob_spec obj = ob_spec obj0 \<and> run_inv (ob_spec obj) (obj_generation obj) (obj_status obj) fx"
  using assms
proof (induction rule: reaches.induct)
  case start
  then show ?case
    by (simp add: new_run_def run_inv_def in_order_def phase_classes)
next
  case (step obj fx e)
  then have "run_inv (ob_spec obj) (obj_generation obj) (stored_after e obj) (fx @ oc_effects (reconcile e obj))"
    by (intro run_inv_step) auto
  then show ?case using step by simp
qed

subsection \<open>A run to completion\<close>

definition bare_sdk :: eks_sdk where
  "bare_sdk = one_nodegroup_sdk\<lparr>sdk_list_nodegroups := (\<lambda>_. Inr [])\<rparr>"

definition new_obj :: "EKSUpgradeSpec \<Rightarrow> EKSUpgrade" where
  "new_obj spec = \<lparr>ob_name = Some ''prod-upgrade'', ob_generation = Some 1, ob_spec = spec, ob_status = None\<rparr>"

lemma stored_advance:
  assumes "executes e obj" and "en_patch e" and "st_phase s' = Some p"
    and "fst (dispatch (obj_phase obj) (en_world e) (ob_spec obj) (obj_status obj)) = Ok (s', r)"
  shows "st_phases (stored_after e obj) = merge_phases (st_phases (obj_status obj)) (st_phases s')"
    "status_phase (stored_after e obj) = p"
proof -
  have some: "unwrap_or default_status (Some x) = x" for x by (simp add: unwrap_or_def)
  note st = stored_before_phase_facts [OF assms(1)]
  show "st_phases (stored_after e obj) = merge_phases (st_phases (obj_status obj)) (st_phases s')"
    "status_phase (stored_after e obj) = p"
    using assms st by (simp_all add: stored_after_def reconcile_executes run_phase_def finish_ok_def patch_status_def
        patched_default some status_phase_def unwrap_or_def [of Pending] Let_def)
qed

lemma demo_executes:
  "obj_phase obj = Pending \<or> obj_phase obj \<in> set polling_phases \<Longrightarrow> executes (demo_env sdk) obj"
  by (auto simp: executes_def terminal_def skip_reconcile_def polling_phases_def authenticated_def demo_env_def)

definition demo_step :: "eks_sdk \<Rightarrow> EKSUpgrade \<Rightarrow> EKSUpgrade" where
  "demo_step sdk obj = obj\<lparr>ob_status := oc_status (reconcile (demo_env sdk) obj)\<rparr>"

lemma demo_step_facts:
  assumes "obj_phase obj = Pending \<or> obj_phase obj \<in> set polling_phases" and "st_phase s' = Some p"
    and "fst (dispatch (obj_phase obj) (world_at sdk 0) (ob_spec obj) (obj_status obj)) = Ok (s', r)"
  shows "ob_spec (demo_step sdk obj) = ob_spec obj" "obj_phase (demo_step sdk obj) = p"
    "st_phases (obj_status (demo_step sdk obj)) = merge_phases (st_phases (obj_status obj)) (st_phases s')"
    "oc_effects (reconcile (demo_env sdk) obj) = snd (dispatch (obj_phase obj) (world_at sdk 0) (ob_spec obj) (obj_status obj))"
  using stored_advance [OF demo_executes [OF assms(1)], of sdk s' p r] assms demo_executes [OF assms(1), of sdk]
  by (simp_all add: demo_step_def reconcile_effects demo_env_def flip: obj_phase_status)

lemma demo_path: "control_plane_path Forward ''1.33'' ''1.34'' = Ok [''1.34'']"
  by (simp add: control_plane_path_def calculate_upgrade_path_def parse_k8s_version_def format_version_def str_eval Let_def)

lemma bare_plan:
  "create_upgrade_plan (eks_client (world_at bare_sdk 0) demo_spec) (sp_cluster_name demo_spec) (sp_target_version demo_spec)
     (case sp_addon_versions demo_spec of Some m \<Rightarrow> m | None \<Rightarrow> Map.empty) (sp_upgrade_mode demo_spec) =
     Ok \<lparr>up_current_version = ''1.33'', up_upgrade_path = [''1.34''], up_addon_upgrades = [], up_nodegroup_upgrades = []\<rparr>"
  using demo_path
  by (simp add: demo_spec_def world_at_def eks_client_def bare_sdk_def one_nodegroup_sdk_def
        create_upgrade_plan_def describe_cluster_def unwrap_or_default_def plan_addons_def plan_addon_upgrades_def list_addons_def
        plan_nodegroup_upgrades_def list_nodegroups_def describe_nodegroup_def)

text \<open>The run of an upgrade by one minor of a cluster without add-ons and node groups, step by step.\<close>

definition at_phase :: "EKSUpgrade \<Rightarrow> UpgradePhase \<Rightarrow> string list \<Rightarrow> nat \<Rightarrow> string option \<Rightarrow> bool" where
  "at_phase obj p path step update \<longleftrightarrow> ob_spec obj = demo_spec \<and> obj_phase obj = p \<and> path_of (obj_status obj) = path \<and>
     ph_addons (st_phases (obj_status obj)) = [] \<and> ph_nodegroups (st_phases (obj_status obj)) = [] \<and>
     ph_karpenter_node_pools (st_phases (obj_status obj)) = None \<and>
     (\<exists>cp. ph_control_plane (st_phases (obj_status obj)) = Some cp \<and> cp_current_step cp = step \<and> cp_total_steps cp = 1 \<and>
        cp_update_id cp = update \<and> (cp_started_at cp = None \<or> cp_started_at cp = Some 0))"

lemma demo_planned:
  assumes "ob_spec obj = demo_spec" and "obj_phase obj = Planning" and "st_phases (obj_status obj) = default_phases"
  shows "at_phase (demo_step bare_sdk obj) PreflightChecking [''1.34''] 1 None"
    and "oc_effects (reconcile (demo_env bare_sdk) obj) = []"
proof -
  let ?plan = "\<lparr>up_current_version = ''1.33'', up_upgrade_path = [''1.34''], up_addon_upgrades = [], up_nodegroup_upgrades = []\<rparr>"
  let ?s' = "planned_status (world_at bare_sdk 0) demo_spec ?plan [] (obj_status obj)"
  have "plan_karpenter (world_at bare_sdk 0) demo_spec = Ok []" by (simp add: plan_karpenter_def demo_spec_def)
  then have "planning_execute (world_at bare_sdk 0) demo_spec (obj_status obj) = Ok ?s'"
    using bare_plan by (simp add: planning_execute_def reject_consecutive_rollback_def demo_spec_def)
  then have "fst (dispatch (obj_phase obj) (world_at bare_sdk 0) (ob_spec obj) (obj_status obj)) = Ok (?s', Some 0)"
    using assms by (simp add: with_requeue_def)
  moreover have "st_phase ?s' = Some PreflightChecking" by (simp add: planned_status_def plan_is_empty_def Let_def)
  moreover have "st_phases ?s' = plan_phases demo_spec ?plan [] default_phases"
    using assms by (simp add: planned_status_def Let_def)
  ultimately show "at_phase (demo_step bare_sdk obj) PreflightChecking [''1.34''] 1 None"
    "oc_effects (reconcile (demo_env bare_sdk) obj) = []"
    using demo_step_facts [of obj ?s' PreflightChecking bare_sdk "Some 0"] assms
    by (simp_all add: polling_phases_def at_phase_def path_of_def plan_phases_def default_phases_def merge_phases_def
        merge_object_def keep_empty_def demo_spec_def as_u32_def with_requeue_def Let_def)
qed

lemma demo_checked:
  assumes "at_phase obj PreflightChecking [''1.34''] 1 None"
  shows "at_phase (demo_step bare_sdk obj) UpgradingControlPlane [''1.34''] 1 None"
    and "oc_effects (reconcile (demo_env bare_sdk) obj) = []"
proof -
  let ?w = "world_at bare_sdk 0" and ?s = "obj_status obj"
  have desc: "describe_cluster (eks_client ?w demo_spec) (sp_cluster_name demo_spec) =
      Ok (Some \<lparr>ci_name = ''prod'', ci_version = ''1.33'', ci_region = ''eu-west-1'', ci_endpoint = None, ci_ca_data = None,
               ci_deletion_protection = Some True\<rparr>)"
    by (simp add: describe_cluster_def eks_client_def world_at_def bare_sdk_def one_nodegroup_sdk_def unwrap_or_default_def demo_spec_def)
  then obtain s' where s': "preflight_execute ?w demo_spec ?s = Ok s'" using preflight_execute_Ok by blast
  have "\<not> insights_block ?w demo_spec" "\<not> pdbs_block ?w demo_spec ?s" "\<not> karpenter_block ?w demo_spec"
    using assms by (simp_all add: insights_block_def world_at_def bare_sdk_def one_nodegroup_sdk_def no_answer_sdk_def pdbs_block_def
        karpenter_block_def demo_spec_def at_phase_def Let_def)
  moreover have "has_cp_steps ?s" using assms by (auto simp: at_phase_def path_of_def has_cp_steps_def split: option.splits)
  ultimately have nxt: "st_phase s' = Some UpgradingControlPlane"
    using preflight_decision [OF s'] desc by (simp add: demo_spec_def first_with_work_def)
  have "st_phases s' = (st_phases ?s)\<lparr>ph_preflight := ph_preflight (st_phases s')\<rparr>"
    using s' by (auto simp: preflight_execute_def Let_def split: if_splits)
  note ph = arg_cong [OF this, of ph_planning] arg_cong [OF this, of ph_control_plane] arg_cong [OF this, of ph_addons]
    arg_cong [OF this, of ph_nodegroups] arg_cong [OF this, of ph_karpenter_node_pools]
  show "at_phase (demo_step bare_sdk obj) UpgradingControlPlane [''1.34''] 1 None"
    "oc_effects (reconcile (demo_env bare_sdk) obj) = []"
    using demo_step_facts [of obj s' UpgradingControlPlane bare_sdk "Some 0"] assms s' nxt ph
    by (auto simp: polling_phases_def at_phase_def path_of_def merge_phases_def merge_object_def merge_planning_def
        merge_control_plane_def with_requeue_def Let_def split: option.splits)
qed

lemma demo_requested:
  assumes "at_phase obj UpgradingControlPlane [''1.34''] 1 None"
  shows "at_phase (demo_step bare_sdk obj) UpgradingControlPlane [''1.34''] 1 (Some ''u-1'')"
    and "oc_effects (reconcile (demo_env bare_sdk) obj) = [UpdateClusterVersion ''prod'' ''1.34'']"
proof -
  let ?w = "world_at bare_sdk 0" and ?s = "obj_status obj"
  let ?s' = "upd_cp (\<lambda>cp. cp\<lparr>cp_target := Some ''1.34'', cp_update_id := Some ''u-1'', cp_started_at := Some 0\<rparr>) ?s"
  have ex: "cp_execute ?w demo_spec ?s = (Ok (?s', Some CP_POLL_INTERVAL), [UpdateClusterVersion ''prod'' ''1.34''])"
    using assms
    by (auto simp: at_phase_def path_of_def cp_execute_def index_def update_cluster_version_def eks_client_def world_at_def
        bare_sdk_def one_nodegroup_sdk_def demo_spec_def unwrap_or_default_def iobind_def lift_def emit_def ret_def Let_def split: option.splits)
  have "st_phase ?s' = Some UpgradingControlPlane"
    using assms by (auto simp: at_phase_def obj_phase_def unwrap_or_def split: option.splits)
  with ex show "at_phase (demo_step bare_sdk obj) UpgradingControlPlane [''1.34''] 1 (Some ''u-1'')"
    "oc_effects (reconcile (demo_env bare_sdk) obj) = [UpdateClusterVersion ''prod'' ''1.34'']"
    using demo_step_facts [of obj ?s' UpgradingControlPlane bare_sdk "Some CP_POLL_INTERVAL"] assms
    by (auto simp: polling_phases_def at_phase_def path_of_def merge_phases_def merge_object_def merge_planning_def
        merge_control_plane_def split: option.splits)
qed

lemma demo_polled:
  assumes "at_phase obj UpgradingControlPlane [''1.34''] 1 (Some ''u-1'')"
  shows "obj_phase (demo_step bare_sdk obj) = Completed"
    and "oc_effects (reconcile (demo_env bare_sdk) obj) = []"
proof -
  let ?w = "world_at bare_sdk 0" and ?s = "obj_status obj"
  from assms obtain cp where cp: "ph_control_plane (st_phases ?s) = Some cp" "cp_current_step cp = 1" "cp_total_steps cp = 1"
      "cp_update_id cp = Some ''u-1''" "cp_started_at cp = None \<or> cp_started_at cp = Some 0"
    and path: "path_of ?s = [''1.34'']" by (auto simp: at_phase_def)
  have "cp_timed_out 0 demo_spec cp = None"
    using cp(5) by (auto simp: cp_timed_out_def demo_spec_def num_minutes_def num_seconds_def trunc_div_def as_i64_def Let_def)
  moreover have "check_update_status (eks_client ?w demo_spec) ''prod'' ''u-1'' = Ok ''Successful''"
    by (simp add: check_update_status_def eks_client_def world_at_def bare_sdk_def one_nodegroup_sdk_def unwrap_or_def)
  moreover have "after_control_plane ?s Forward = Completed"
    using assms by (simp add: at_phase_def has_addons_def has_nodegroups_def has_karpenter_def)
  ultimately obtain s' where ex: "cp_execute ?w demo_spec ?s = (Ok (s', None), [])" "st_phase s' = Some Completed"
    using cp path
    by (auto simp: cp_execute_def path_of_def index_def process_update_result_def as_u32_def world_at_def demo_spec_def
        iobind_def lift_def Let_def simp del: after_control_plane.simps split: option.splits)
  then show "obj_phase (demo_step bare_sdk obj) = Completed" "oc_effects (reconcile (demo_env bare_sdk) obj) = []"
    using demo_step_facts [of obj s' Completed bare_sdk None] assms by (auto simp: polling_phases_def at_phase_def)
qed

lemma demo_run:
  "\<exists>obj. reaches (new_obj demo_spec) obj [UpdateClusterVersion ''prod'' ''1.34''] \<and> obj_phase obj = Completed"
proof -
  let ?o1 = "demo_step bare_sdk (new_obj demo_spec)" and ?e = "demo_env bare_sdk"
  let ?o2 = "demo_step bare_sdk ?o1" let ?o3 = "demo_step bare_sdk ?o2" let ?o4 = "demo_step bare_sdk ?o3" let ?o5 = "demo_step bare_sdk ?o4"
  have new: "obj_phase (new_obj demo_spec) = Pending" "st_phases (obj_status (new_obj demo_spec)) = default_phases" "ob_spec (new_obj demo_spec) = demo_spec"
    by (simp_all add: new_obj_def obj_phase_def obj_status_def unwrap_or_def default_status_def)
  then have o1: "ob_spec ?o1 = demo_spec" "obj_phase ?o1 = Planning" "st_phases (obj_status ?o1) = default_phases"
      "oc_effects (reconcile ?e (new_obj demo_spec)) = []"
    using demo_step_facts [of "new_obj demo_spec"
        "set_phase 0 Planning ((obj_status (new_obj demo_spec))\<lparr>st_started_at := Some 0\<rparr>)" Planning bare_sdk "Some 0"]
    by (simp_all add: world_at_def ret_def)
  note o2 = demo_planned [OF o1(1-3)] note o3 = demo_checked [OF o2(1)] note o4 = demo_requested [OF o3(1)] note o5 = demo_polled [OF o4(1)]
  have step: "reaches (new_obj demo_spec) (demo_step bare_sdk obj) (fx @ oc_effects (reconcile ?e obj))"
    if "reaches (new_obj demo_spec) obj fx" for obj fx
    unfolding demo_step_def by (rule reaches.step [OF that])
  have "reaches (new_obj demo_spec) ?o5 [UpdateClusterVersion ''prod'' ''1.34'']"
    using step [OF step [OF step [OF step [OF step [OF reaches.start]]]]] o1(4) o2(2) o3(2) o4(2) o5(2) by simp
  then show ?thesis using o5(1) by blast
qed

lemma demo_new_run: "new_run (new_obj spec)"
  by (simp add: new_run_def fresh_def new_obj_def obj_phase_def obj_status_def unwrap_or_def default_status_def default_phases_def)

lemma demo_small: "small_target (ob_spec (new_obj demo_spec))"
  by (simp add: small_target_def new_obj_def demo_spec_def parse_k8s_version_def str_eval u32_max_def)

subsection \<open>What whole runs guarantee\<close>

text \<open>
  C1. A run that completes has done its work. When a run that is not a dry run reaches
  \<open>Completed\<close>, the requests it has sent are exactly those its plan stands for (every version of
  the control plane path, every planned add-on and every planned node group at its planned
  version, nothing else), and the status records each of them as finished, whatever AWS and
  Kubernetes answered and however many patches were refused on the way.
\<close>

theorem completed_run_has_done_its_work:
  assumes "reaches obj0 obj fx" and "new_run obj0" and "small_target (ob_spec obj0)"
    and "obj_phase obj = Completed" and "\<not> sp_dry_run (ob_spec obj0)"
  shows "set fx = planned_requests (ob_spec obj) (obj_status obj) \<and>
    cp_done (obj_status obj) \<and> addons_done (obj_status obj) \<and> nodegroups_done (obj_status obj)"
proof -
  have inv: "run_inv (ob_spec obj) (obj_generation obj) (obj_status obj) fx" and spec: "ob_spec obj = ob_spec obj0"
    using reaches_inv [OF assms(1-3)] by blast+
  have fin: "phase_done (obj_status obj) q" if "q \<in> set (work_order (sp_upgrade_mode (ob_spec obj)))" for q
    using run_invD(13) [OF inv _ _ that] assms(4,5) spec by simp
  have all: "cp_done (obj_status obj)" "addons_done (obj_status obj)" "nodegroups_done (obj_status obj)"
    using fin by (cases "sp_upgrade_mode (ob_spec obj)"; force)+
  have "plan_ok (obj_status obj)" "issued (ob_spec obj) (obj_status obj) (set fx)"
    using run_invD(7,8) [OF inv] assms(4) by (simp_all add: phase_classes)
  then show ?thesis using all_done_issued all run_invD(5) [OF inv] by blast
qed

theorem completed_run_has_done_its_work_witness:
  "\<exists>obj. obj_phase obj = Completed \<and> planned_requests demo_spec (obj_status obj) = {UpdateClusterVersion ''prod'' ''1.34''} \<and>
     cp_done (obj_status obj)"
proof -
  obtain obj where obj: "reaches (new_obj demo_spec) obj [UpdateClusterVersion ''prod'' ''1.34'']" "obj_phase obj = Completed"
    using demo_run by blast
  have "ob_spec obj = demo_spec" using reaches_inv [OF obj(1) demo_new_run demo_small] by (simp add: new_obj_def)
  moreover have "\<not> sp_dry_run (ob_spec (new_obj demo_spec))" by (simp add: new_obj_def demo_spec_def)
  ultimately show ?thesis
    using completed_run_has_done_its_work [OF obj(1) demo_new_run demo_small obj(2)] obj(2) by auto
qed

text \<open>
  C2. The requests of a run follow the documented order of phases and stay inside the plan. At
  every moment of a run, completed or not, each request sent belongs to the plan, and the requests
  are sorted by phase: forward, every control plane request comes before every add-on request and
  those before every node group request; in a rollback the order is reversed. A retried or
  repeated request never jumps back to an earlier phase.
\<close>

theorem requests_follow_the_phase_order:
  assumes "reaches obj0 obj fx" and "new_run obj0" and "small_target (ob_spec obj0)"
  shows "sorted (map (\<lambda>f. phase_rank (sp_upgrade_mode (ob_spec obj0)) (effect_phase (sp_upgrade_mode (ob_spec obj0)) f)) fx) \<and>
    set fx \<subseteq> planned_requests (ob_spec obj0) (obj_status obj)"
  using reaches_inv [OF assms] run_invD(5,6) [of "ob_spec obj" "obj_generation obj" "obj_status obj" fx]
  by (auto simp: in_order_def)

theorem requests_follow_the_phase_order_witness:
  "\<exists>obj. reaches (new_obj demo_spec) obj [UpdateClusterVersion ''prod'' ''1.34''] \<and>
     {UpdateClusterVersion ''prod'' ''1.34''} \<subseteq> planned_requests demo_spec (obj_status obj)"
proof -
  obtain obj where obj: "reaches (new_obj demo_spec) obj [UpdateClusterVersion ''prod'' ''1.34'']" using demo_run by blast
  then show ?thesis using requests_follow_the_phase_order [OF obj demo_new_run demo_small] by (auto simp: new_obj_def)
qed

text \<open>
  C3. As long as the spec of a resource is left alone, its run never aborts the operator and
  never deletes a node claim, whether or not Karpenter replacement is configured: the only handler
  that can panic or delete is the one that is never executed.
\<close>

theorem steady_run_neither_aborts_nor_deletes:
  assumes "reaches obj0 obj fx" and "new_run obj0" and "small_target (ob_spec obj0)"
  shows "oc_action (reconcile e obj) \<noteq> Aborted \<and> DeleteNodeClaim n \<notin> set fx"
proof
  have inv: "run_inv (ob_spec obj) (obj_generation obj) (obj_status obj) fx" using reaches_inv [OF assms] by blast
  have "fst (dispatch (obj_phase obj) w spec (obj_status obj)) \<noteq> Panic" if "obj_phase obj \<noteq> UpgradingKarpenterNodePools" for w spec
  proof (cases "cp_phase (obj_phase obj)")
    case True
    then have "cp_wf (obj_status obj)" using run_inv_wf(2) [OF inv] by simp
    from cp_execute_no_panic [OF this] show ?thesis using True by (auto simp: cp_phase_def)
  next
    case False
    then show ?thesis
      using that addons_execute_no_panic nodegroups_execute_no_panic
      by (cases "obj_phase obj") (auto simp: cp_phase_def with_requeue_def rbind_eq_Panic)
  qed
  then show "oc_action (reconcile e obj) \<noteq> Aborted"
    using karpenter_not_executed [OF inv, of e] by (auto simp: reconcile_aborts_iff)
  show "DeleteNodeClaim n \<notin> set fx"
    using run_invD(5) [OF inv] by (auto simp: planned_requests_def addon_request_def nodegroup_request_def)
qed

theorem steady_run_neither_aborts_nor_deletes_witness:
  "\<exists>obj. reaches (new_obj demo_spec) obj [UpdateClusterVersion ''prod'' ''1.34''] \<and>
     oc_action (reconcile (demo_env bare_sdk) obj) \<noteq> Aborted"
proof -
  obtain obj where obj: "reaches (new_obj demo_spec) obj [UpdateClusterVersion ''prod'' ''1.34'']" using demo_run by blast
  then show ?thesis using steady_run_neither_aborts_nor_deletes [OF obj demo_new_run demo_small] by blast
qed

text \<open>
  C4. A dry run changes nothing: no reconcile of it ever sends a request, and the resource never
  enters a work phase.
\<close>

theorem dry_run_changes_nothing:
  assumes "reaches obj0 obj fx" and "new_run obj0" and "small_target (ob_spec obj0)" and "sp_dry_run (ob_spec obj0)"
  shows "fx = [] \<and> obj_phase obj \<in> {Pending, Planning, PreflightChecking, Completed, Failed}"
proof -
  have inv: "run_inv (ob_spec obj) (obj_generation obj) (obj_status obj) fx" and spec: "ob_spec obj = ob_spec obj0"
    using reaches_inv [OF assms(1-3)] by blast+
  then have "fx = []" "\<not> working (obj_phase obj)" using run_invD(4,10) [OF inv] assms(4) by auto
  then show ?thesis by (simp add: working_def)
qed

theorem dry_run_changes_nothing_witness:
  "oc_effects (reconcile (demo_env bare_sdk) (new_obj (demo_spec\<lparr>sp_dry_run := True\<rparr>))) = []"
proof -
  let ?o = "new_obj (demo_spec\<lparr>sp_dry_run := True\<rparr>)"
  have "small_target (ob_spec ?o)" using demo_small by (simp add: small_target_def new_obj_def)
  moreover have "sp_dry_run (ob_spec ?o)" by (simp add: new_obj_def)
  ultimately show ?thesis
    using dry_run_changes_nothing [OF reaches.step [OF reaches.start, of ?o "demo_env bare_sdk"] demo_new_run] by simp
qed

end
