(* ===== verification/Rust_Text.thy ===== *)
theory Rust_Text
  imports Kuo_Prelude
begin

section \<open>Text formatting of the standard library\<close>

text \<open>
  Formatting that several programs of the repository use: the debug form of strings and of lists of
  strings, counting and cutting by characters, and lower-case hexadecimal numbers.
\<close>

text \<open>
  \<^verbatim>\<open>{:?}\<close>, the debug form of a string: quoted, with quotes, backslashes and control characters
  escaped. Bytes of multi-byte characters are left as they are.
\<close>

definition hex_digit :: "nat \<Rightarrow> char" where
  "hex_digit d = (if d < 10 then char_of (48 + d) else char_of (87 + d))"

definition debug_char :: "char \<Rightarrow> string" where
  "debug_char c =
     (let n = (of_char c :: nat); bs = char_of (92 :: nat); qt = char_of (34 :: nat)
      in if n = 0 then [bs, CHR ''0'']
         else if n = 9 then [bs, CHR ''t'']
         else if n = 10 then [bs, CHR ''n'']
         else if n = 13 then [bs, CHR ''r'']
         else if c = qt \<or> c = bs then [bs, c]
         else if n < 16 then [bs] @ ''u{'' @ [hex_digit n] @ ''}''
         else if n < 32 \<or> n = 127 then [bs] @ ''u{'' @ [hex_digit (n div 16), hex_digit (n mod 16)] @ ''}''
         else [c])"

definition debug_str :: "string \<Rightarrow> string" where
  "debug_str s = [char_of (34 :: nat)] @ concat (map debug_char s) @ [char_of (34 :: nat)]"

definition debug_strs :: "string list \<Rightarrow> string" where
  "debug_strs ss = ''['' @ join '', '' (map debug_str ss) @ '']''"

text \<open>
  Strings are lists of UTF-8 bytes. \<^verbatim>\<open>chars().count()\<close> counts the bytes that begin a character, and
  \<^verbatim>\<open>chars().take(n)\<close> keeps the first \<open>n\<close> characters with all their bytes.
\<close>

definition continuation_byte :: "char \<Rightarrow> bool" where
  "continuation_byte c \<longleftrightarrow> 128 \<le> (of_char c :: nat) \<and> (of_char c :: nat) < 192"

definition chars_count :: "string \<Rightarrow> nat" where
  "chars_count s = length (filter (\<lambda>c. \<not> continuation_byte c) s)"

fun take_chars :: "nat \<Rightarrow> string \<Rightarrow> string" where
  "take_chars n [] = []"
| "take_chars n (c # cs) =
     (if continuation_byte c then c # take_chars n cs
      else case n of 0 \<Rightarrow> [] | Suc m \<Rightarrow> c # take_chars m cs)"

lemma chars_count_take: "chars_count (take_chars n s) = min n (chars_count s)"
  by (induction n s rule: take_chars.induct) (auto simp: chars_count_def split: nat.splits)

lemma take_chars_prefix: "\<exists>t. s = take_chars n s @ t"
  by (induction n s rule: take_chars.induct) (auto split: nat.splits)

text \<open>\<^verbatim>\<open>{:x}\<close>.\<close>

fun show_hex :: "nat \<Rightarrow> string" where
  "show_hex n = (if n < 16 then [hex_digit n] else show_hex (n div 16) @ [hex_digit (n mod 16)])"

declare show_hex.simps [simp del]

end
