(* ===== verification/Fsc_Config.thy ===== *)
theory Fsc_Config
  imports Rust_Text
begin

section \<open>filesystem-cleaner: configuration (config.rs, error.rs)\<close>

text \<open>
  Resolution of the command line and the environment into a validated configuration: a flag wins
  over an environment variable, which wins over the default. The environment is a map from
  variable names to values. Parsed flags arrive as values (clap has parsed them); environment
  values are text and are parsed here, with the error texts of the standard library.
\<close>

subsection \<open>Data\<close>

datatype CleanupMode = Once | Interval

datatype LogLevel = LTrace | LDebug | LInfo | LWarn | LError

datatype fsc_config_error =
    EnvError string string  \<comment> \<open>key, reason\<close>
  | ThresholdOutOfRange int
  | IntervalTooSmall int
  | EmptyTargetPaths

record Args =
  ar_target_paths :: "string option"
  ar_usage_threshold_percent :: "int option"
  ar_check_interval_minutes :: "int option"
  ar_include_patterns :: "string option"
  ar_exclude_patterns :: "string option"
  ar_cleanup_mode :: "CleanupMode option"
  ar_dry_run :: "bool option"
  ar_log_level :: "LogLevel option"

record fsc_config =
  cf_target_paths :: "string list"
  cf_usage_threshold_percent :: nat
  cf_check_interval_minutes :: nat
  cf_include_patterns :: "string list"
  cf_exclude_patterns :: "string list"
  cf_cleanup_mode :: CleanupMode
  cf_dry_run :: bool
  cf_log_level :: LogLevel

type_synonym env_vars = "string \<Rightarrow> string option"

definition DEFAULT_TARGET_PATHS :: string where "DEFAULT_TARGET_PATHS = ''/home/runner/_work''"
definition DEFAULT_THRESHOLD :: int where "DEFAULT_THRESHOLD = 80"
definition DEFAULT_INTERVAL :: int where "DEFAULT_INTERVAL = 10"
definition DEFAULT_INCLUDE :: string where "DEFAULT_INCLUDE = ''*''"
definition DEFAULT_EXCLUDE :: string where "DEFAULT_EXCLUDE = ''**/.git/**,**/node_modules/**,*.log''"

subsection \<open>Parsing\<close>

fun mode_name :: "CleanupMode \<Rightarrow> string" where
  "mode_name Once = ''once''"
| "mode_name Interval = ''interval''"

fun level_name :: "LogLevel \<Rightarrow> string" where
  "level_name LTrace = ''trace''"
| "level_name LDebug = ''debug''"
| "level_name LInfo = ''info''"
| "level_name LWarn = ''warn''"
| "level_name LError = ''error''"

text \<open>The variants of a value enum, searched by name without regard to case.\<close>

definition mode_from_str :: "string \<Rightarrow> string + CleanupMode" where
  "mode_from_str s =
     (case find (\<lambda>v. eq_ignore_ascii_case (mode_name v) s) [Once, Interval] of
        Some v \<Rightarrow> Inr v
      | None \<Rightarrow> Inl (''invalid cleanup mode: '' @ s))"

definition level_from_str :: "string \<Rightarrow> string + LogLevel" where
  "level_from_str s =
     (case find (\<lambda>v. eq_ignore_ascii_case (level_name v) s) [LTrace, LDebug, LInfo, LWarn, LError] of
        Some v \<Rightarrow> Inr v
      | None \<Rightarrow> Inl (''invalid log level: '' @ s))"

definition i64_min :: int where
  "i64_min = - 9223372036854775808"

text \<open>\<^verbatim>\<open>str::parse::<i64>\<close>: the digits are read from the left, and each step is range checked.\<close>

fun scan_i64 :: "bool \<Rightarrow> int \<Rightarrow> string \<Rightarrow> string + int" where
  "scan_i64 neg acc [] = Inr acc"
| "scan_i64 neg acc (c # cs) =
     (if \<not> is_ascii_digit c then Inl ''invalid digit found in string''
      else let d = int (of_char c - 48); acc' = (if neg then acc * 10 - d else acc * 10 + d)
           in if acc' > i64_max then Inl ''number too large to fit in target type''
              else if acc' < i64_min then Inl ''number too small to fit in target type''
              else scan_i64 neg acc' cs)"

definition parse_i64 :: "string \<Rightarrow> string + int" where
  "parse_i64 s =
     (case s of
        [] \<Rightarrow> Inl ''cannot parse integer from empty string''
      | c # cs \<Rightarrow>
          if (c = CHR ''+'' \<or> c = CHR ''-'') \<and> cs = [] then Inl ''invalid digit found in string''
          else if c = CHR ''+'' then scan_i64 False 0 cs
          else if c = CHR ''-'' then scan_i64 True 0 cs
          else scan_i64 False 0 s)"

definition parse_bool :: "string \<Rightarrow> bool option" where
  "parse_bool s =
     (if s \<in> {''1'', ''t'', ''T'', ''TRUE'', ''true'', ''True''} then Some True
      else if s \<in> {''0'', ''f'', ''F'', ''FALSE'', ''false'', ''False''} then Some False
      else None)"

definition split_list :: "string \<Rightarrow> string list" where
  "split_list s = filter (\<lambda>part. part \<noteq> []) (map trim (split_on CHR '','' s))"

subsection \<open>Resolution\<close>

definition resolve_string :: "string option \<Rightarrow> env_vars \<Rightarrow> string \<Rightarrow> string \<Rightarrow> string" where
  "resolve_string flag env key dflt =
     (case flag of Some v \<Rightarrow> v | None \<Rightarrow> (case env key of Some v \<Rightarrow> v | None \<Rightarrow> dflt))"

definition resolve_parsed :: "(string \<Rightarrow> string + 'a) \<Rightarrow> 'a option \<Rightarrow> env_vars \<Rightarrow> string \<Rightarrow> 'a \<Rightarrow> (fsc_config_error, 'a) res" where
  "resolve_parsed parse flag env key dflt =
     (case flag of
        Some v \<Rightarrow> Ok v
      | None \<Rightarrow> (case env key of None \<Rightarrow> Ok dflt | Some raw \<Rightarrow> map_err (EnvError key) (parse raw)))"

definition env_bool :: "env_vars \<Rightarrow> string \<Rightarrow> (fsc_config_error, bool option) res" where
  "env_bool env key =
     (case env key of
        None \<Rightarrow> Ok None
      | Some raw \<Rightarrow>
          (case parse_bool raw of
             Some b \<Rightarrow> Ok (Some b)
           | None \<Rightarrow> Err (EnvError key (''invalid boolean '' @ debug_str raw))))"

definition resolve :: "Args \<Rightarrow> env_vars \<Rightarrow> (fsc_config_error, fsc_config) res" where
  "resolve args env =
     (let target_paths = split_list (resolve_string (ar_target_paths args) env ''TARGET_PATHS'' DEFAULT_TARGET_PATHS)
      in if target_paths = [] then Err EmptyTargetPaths
         else
           rbind (resolve_parsed parse_i64 (ar_usage_threshold_percent args) env ''USAGE_THRESHOLD_PERCENT'' DEFAULT_THRESHOLD) (\<lambda>threshold.
           if \<not> (0 \<le> threshold \<and> threshold \<le> 100) then Err (ThresholdOutOfRange threshold)
           else
             rbind (resolve_parsed parse_i64 (ar_check_interval_minutes args) env ''CHECK_INTERVAL_MINUTES'' DEFAULT_INTERVAL) (\<lambda>interval.
             if \<not> 1 \<le> interval then Err (IntervalTooSmall interval)
             else
               (let include_patterns = split_list (resolve_string (ar_include_patterns args) env ''INCLUDE_PATTERNS'' DEFAULT_INCLUDE);
                    exclude_patterns = split_list (resolve_string (ar_exclude_patterns args) env ''EXCLUDE_PATTERNS'' DEFAULT_EXCLUDE)
                in rbind (resolve_parsed mode_from_str (ar_cleanup_mode args) env ''CLEANUP_MODE'' Interval) (\<lambda>cleanup_mode.
                   rbind (case ar_dry_run args of
                            Some v \<Rightarrow> Ok v
                          | None \<Rightarrow> rbind (env_bool env ''DRY_RUN'') (\<lambda>b. Ok (case b of Some v \<Rightarrow> v | None \<Rightarrow> False))) (\<lambda>dry_run.
                   rbind (resolve_parsed level_from_str (ar_log_level args) env ''LOG_LEVEL'' LInfo) (\<lambda>log_level.
                   Ok \<lparr>cf_target_paths = target_paths, cf_usage_threshold_percent = nat threshold,
                       cf_check_interval_minutes = nat interval, cf_include_patterns = include_patterns,
                       cf_exclude_patterns = exclude_patterns, cf_cleanup_mode = cleanup_mode, cf_dry_run = dry_run,
                       cf_log_level = log_level\<rparr>)))))))"

subsection \<open>What a resolved configuration guarantees\<close>

definition config_ok :: "fsc_config \<Rightarrow> bool" where
  "config_ok c \<longleftrightarrow> cf_target_paths c \<noteq> [] \<and> list_all (\<lambda>p. p \<noteq> []) (cf_target_paths c) \<and>
     cf_usage_threshold_percent c \<le> 100 \<and> 1 \<le> cf_check_interval_minutes c"

lemma split_list_nonempty: "list_all (\<lambda>p. p \<noteq> []) (split_list s)"
  by (simp add: split_list_def list_all_iff)

lemma resolve_ok: "resolve args env = Ok c \<Longrightarrow> config_ok c"
  using split_list_nonempty
  by (auto simp: resolve_def config_ok_def Let_def nat_le_iff le_nat_iff split: if_splits)

lemma resolve_fields:
  assumes "resolve args env = Ok c"
  shows "resolve_parsed parse_i64 (ar_usage_threshold_percent args) env ''USAGE_THRESHOLD_PERCENT'' DEFAULT_THRESHOLD =
      Ok (int (cf_usage_threshold_percent c))"
    and "(case ar_dry_run args of
            Some v \<Rightarrow> Ok v
          | None \<Rightarrow> rbind (env_bool env ''DRY_RUN'') (\<lambda>b. Ok (case b of Some v \<Rightarrow> v | None \<Rightarrow> False))) = Ok (cf_dry_run c)"
  using assms by (auto simp: resolve_def Let_def split: if_splits)

text \<open>Which environment variables a flag hides.\<close>

lemma resolve_parsed_flag [simp]: "resolve_parsed parse (Some v) env key d = Ok v"
  by (simp add: resolve_parsed_def)

lemma resolve_string_flag [simp]: "resolve_string (Some v) env key d = v"
  by (simp add: resolve_string_def)

lemma resolve_no_panic [simp]: "resolve args env \<noteq> Panic"
proof -
  have np: "resolve_parsed p f e k d \<noteq> Panic" for p :: "string \<Rightarrow> string + 'a" and f e k d
    by (cases "case e k of Some raw \<Rightarrow> p raw | None \<Rightarrow> Inr d")
      (auto simp: resolve_parsed_def split: option.splits sum.splits)
  show ?thesis
    by (auto simp: resolve_def rbind_eq_Panic np env_bool_def Let_def split: option.splits)
qed

end
