(* ===== verification/Fsc_Scanner.thy ===== *)
theory Fsc_Scanner
  imports Kuo_Prelude
begin

section \<open>filesystem-cleaner: matcher, scanner and sizes (matcher.rs, scanner.rs, bytesize.rs)\<close>

text \<open>
  The glob matcher over the crate globset, which is the argument \<open>globset_api\<close> of the definitions,
  and the traversal that collects the files to delete. What the file system answers during one
  traversal is a tree: the listing of a directory may fail, an entry of it may be unreadable, the
  metadata of an entry may be unreadable. A path below the base is the list of its components.
  The traversal is shown equal to a declarative description of the eligible files, and the
  unit loop of the size formatter is shown to end inside its table of prefixes.
\<close>

subsection \<open>Matcher\<close>

text \<open>A compiled set is observed only through \<^verbatim>\<open>is_match\<close>.\<close>

type_synonym GlobSet = "string \<Rightarrow> bool"

record 'g globset_api =
  glob_new :: "string \<Rightarrow> string + 'g"
  glob_build :: "'g list \<Rightarrow> string + GlobSet"

datatype PatternError = IncludeError string | ExcludeError string

record Matcher =
  mt_include :: GlobSet
  mt_exclude :: GlobSet

fun compile_loop :: "'g globset_api \<Rightarrow> 'g list \<Rightarrow> string list \<Rightarrow> string + GlobSet" where
  "compile_loop api builder [] = glob_build api builder"
| "compile_loop api builder (pattern # rest) =
     (case glob_new api pattern of
        Inl e \<Rightarrow> Inl e
      | Inr g \<Rightarrow> compile_loop api (builder @ [g]) rest)"

definition compile :: "'g globset_api \<Rightarrow> string list \<Rightarrow> string + GlobSet" where
  "compile api patterns = compile_loop api [] patterns"

definition matcher_new :: "'g globset_api \<Rightarrow> string list \<Rightarrow> string list \<Rightarrow> (PatternError, Matcher) res" where
  "matcher_new api incl excl =
     rbind (map_err IncludeError (compile api incl)) (\<lambda>i.
     rbind (map_err ExcludeError (compile api excl)) (\<lambda>e.
     Ok \<lparr>mt_include = i, mt_exclude = e\<rparr>))"

definition should_include :: "Matcher \<Rightarrow> string \<Rightarrow> bool" where
  "should_include m rel = mt_include m rel"

definition should_exclude :: "Matcher \<Rightarrow> string \<Rightarrow> bool" where
  "should_exclude m rel = mt_exclude m rel"

subsection \<open>Directory trees\<close>

text \<open>
  What \<^verbatim>\<open>lstat\<close> and \<^verbatim>\<open>read_dir\<close> answer. Everything that is neither a symbolic link nor a directory is
  one case for the code; the model keeps whether it is a regular file.
\<close>

datatype node =
    NoMetadata
  | SymlinkNode
  | FileNode (fn_regular: bool) (fn_len: nat)
  | DirNode "(string \<times> node) option list option"

text \<open>An entry is absent when reading it failed; a listing is absent when opening the directory failed.\<close>

type_synonym dir_entry = "(string \<times> node) option"

type_synonym listing = "dir_entry list option"

record FileInfo =
  fi_path :: "string list"
  fi_size :: nat

definition relative_path :: "string list \<Rightarrow> string" where
  "relative_path comps = join ''/'' comps"

definition sorted_entries :: "dir_entry list \<Rightarrow> (string \<times> node) list" where
  "sorted_entries es = sort_key fst (filter_map (\<lambda>entry. entry) es)"

lemma set_sorted_entries [simp]: "(n, nd) \<in> set (sorted_entries es) \<longleftrightarrow> Some (n, nd) \<in> set es"
  by (simp add: sorted_entries_def set_filter_map)

abbreviation listing_size :: "listing \<Rightarrow> nat" where
  "listing_size \<equiv> size_option (size_list (size_option (size_prod (\<lambda>_. 0) size)))"

lemma entry_size: "Some (n, DirNode sub) \<in> set es \<Longrightarrow> listing_size sub < listing_size (Some es)"
  by (induction es) auto

subsection \<open>Traversal\<close>

function walk :: "Matcher \<Rightarrow> string list \<Rightarrow> listing \<Rightarrow> FileInfo list" where
  "walk m dir entries =
     (case entries of
        None \<Rightarrow> []
      | Some es \<Rightarrow>
          concat (map (\<lambda>(name, nd).
            let path = dir @ [name]; rel = relative_path path
            in case nd of
                 NoMetadata \<Rightarrow> []
               | SymlinkNode \<Rightarrow> []
               | DirNode sub \<Rightarrow> if should_exclude m rel then [] else walk m path sub
               | FileNode regular len \<Rightarrow>
                   if should_exclude m rel then []
                   else if \<not> should_include m rel then []
                   else [\<lparr>fi_path = path, fi_size = len\<rparr>])
          (sorted_entries es)))"
  by pat_completeness auto
termination
  by (relation "measure (\<lambda>(m, dir, es). listing_size es)") (auto dest!: entry_size)

declare walk.simps [simp del]

definition scan :: "Matcher \<Rightarrow> listing \<Rightarrow> FileInfo list" where
  "scan m base = walk m [] base"

subsection \<open>The eligible files\<close>

text \<open>A file at a path of the tree, reached through directories only.\<close>

inductive file_at :: "listing \<Rightarrow> string list \<Rightarrow> bool \<Rightarrow> nat \<Rightarrow> bool" where
  here: "Some (n, FileNode r len) \<in> set es \<Longrightarrow> file_at (Some es) [n] r len"
| below: "Some (n, DirNode sub) \<in> set es \<Longrightarrow> file_at sub p r len \<Longrightarrow> file_at (Some es) (n # p) r len"

inductive_simps file_at_None [simp]: "file_at None p r len"
inductive_simps file_at_Some: "file_at (Some es) p r len"
inductive_simps file_at_Nil [simp]: "file_at es [] r len"

text \<open>The path itself and the directories above it, from the base downwards.\<close>

definition ancestry :: "string list \<Rightarrow> string list list" where
  "ancestry p = map (\<lambda>k. take (Suc k) p) [0..<length p]"

definition admitted :: "Matcher \<Rightarrow> string list \<Rightarrow> bool" where
  "admitted m p \<longleftrightarrow> should_include m (relative_path p) \<and>
     list_all (\<lambda>q. \<not> should_exclude m (relative_path q)) (ancestry p)"

lemma ancestry_Nil [simp]: "ancestry [] = []"
  by (simp add: ancestry_def)

lemma ancestry_snoc: "ancestry (p @ [x]) = ancestry p @ [p @ [x]]"
  by (simp add: ancestry_def)

lemma ancestry_append: "ancestry (p @ q) = ancestry p @ map (\<lambda>r. p @ r) (ancestry q)"
proof (induction q rule: rev_induct)
  case (snoc x q)
  then show ?case using ancestry_snoc [of "p @ q" x] by (simp add: ancestry_snoc)
qed simp

abbreviation clear_below :: "Matcher \<Rightarrow> string list \<Rightarrow> string list \<Rightarrow> bool" where
  "clear_below m dir p \<equiv> list_all (\<lambda>q. \<not> should_exclude m (relative_path (dir @ q))) (ancestry p)"

lemma clear_below_Cons:
  "clear_below m dir (n # p) \<longleftrightarrow> \<not> should_exclude m (relative_path (dir @ [n])) \<and> clear_below m (dir @ [n]) p"
  using ancestry_append [of "[n]" p] ancestry_snoc [of "[]" n]
  by (simp add: list.pred_map comp_def)

definition eligible :: "Matcher \<Rightarrow> string list \<Rightarrow> listing \<Rightarrow> FileInfo \<Rightarrow> bool" where
  "eligible m dir es f \<longleftrightarrow> (\<exists>p r. f = \<lparr>fi_path = dir @ p, fi_size = fi_size f\<rparr> \<and> file_at es p r (fi_size f) \<and>
     should_include m (relative_path (dir @ p)) \<and> clear_below m dir p)"

lemma eligible_Some:
  "eligible m dir (Some es) f \<longleftrightarrow>
     (\<exists>n r len. Some (n, FileNode r len) \<in> set es \<and> f = \<lparr>fi_path = dir @ [n], fi_size = len\<rparr> \<and>
        should_include m (relative_path (dir @ [n])) \<and> \<not> should_exclude m (relative_path (dir @ [n]))) \<or>
     (\<exists>n sub. Some (n, DirNode sub) \<in> set es \<and> \<not> should_exclude m (relative_path (dir @ [n])) \<and>
        eligible m (dir @ [n]) sub f)"
  (is "?l \<longleftrightarrow> ?here \<or> ?below")
proof
  assume ?l
  then show "?here \<or> ?below"
    unfolding eligible_def by (auto simp: file_at_Some clear_below_Cons) metis+
next
  assume "?here \<or> ?below"
  then show ?l
    unfolding eligible_def
    by (elim disjE exE conjE) (auto simp: clear_below_Cons intro: file_at.intros intro!: exI [of _ "_ # _"])
qed

text \<open>What one entry contributes.\<close>

definition visit :: "Matcher \<Rightarrow> string list \<Rightarrow> node \<Rightarrow> FileInfo list" where
  "visit m path nd =
     (case nd of
        DirNode sub \<Rightarrow> if should_exclude m (relative_path path) then [] else walk m path sub
      | FileNode regular len \<Rightarrow>
          if \<not> should_exclude m (relative_path path) \<and> should_include m (relative_path path)
          then [\<lparr>fi_path = path, fi_size = len\<rparr>] else []
      | _ \<Rightarrow> [])"

lemma walk_visit:
  "walk m dir None = []"
  "walk m dir (Some es) = concat (map (\<lambda>(n, nd). visit m (dir @ [n]) nd) (sorted_entries es))"
proof -
  show "walk m dir None = []" by (simp add: walk.simps)
  show "walk m dir (Some es) = concat (map (\<lambda>(n, nd). visit m (dir @ [n]) nd) (sorted_entries es))"
    by (subst walk.simps, simp, intro arg_cong [where f = concat] map_cong refl)
      (auto simp: visit_def Let_def split: node.splits)
qed

lemma walk_eligible: "f \<in> set (walk m dir es) \<longleftrightarrow> eligible m dir es f"
proof (induction "listing_size es" arbitrary: dir es rule: less_induct)
  case less
  show ?case
  proof (cases es)
    case None
    then show ?thesis by (simp add: walk_visit eligible_def)
  next
    case (Some xs)
    have sub: "f \<in> set (walk m (dir @ [n]) d) \<longleftrightarrow> eligible m (dir @ [n]) d f" if "Some (n, DirNode d) \<in> set xs" for n d
      using less entry_size [OF that] Some by blast
    have "f \<in> set (walk m dir es) \<longleftrightarrow> (\<exists>n nd. Some (n, nd) \<in> set xs \<and> f \<in> set (visit m (dir @ [n]) nd))"
      unfolding Some walk_visit by (force simp: Bex_def)
    also have "\<dots> \<longleftrightarrow> (\<exists>n nd. Some (n, nd) \<in> set xs \<and>
        (case nd of
           NoMetadata \<Rightarrow> False
         | SymlinkNode \<Rightarrow> False
         | DirNode d \<Rightarrow> \<not> should_exclude m (relative_path (dir @ [n])) \<and> eligible m (dir @ [n]) d f
         | FileNode r len \<Rightarrow> f = \<lparr>fi_path = dir @ [n], fi_size = len\<rparr> \<and>
             should_include m (relative_path (dir @ [n])) \<and> \<not> should_exclude m (relative_path (dir @ [n]))))"
      using sub by (intro arg_cong [where f = Ex] ext conj_cong refl) (auto simp: visit_def split: node.splits)
    also have "\<dots> \<longleftrightarrow> eligible m dir es f"
      unfolding Some eligible_Some by (fastforce split: node.splits)
    finally show ?thesis .
  qed
qed

lemma eligible_root: "eligible m [] es f \<longleftrightarrow> (\<exists>r. file_at es (fi_path f) r (fi_size f)) \<and> admitted m (fi_path f)"
  by (cases f) (auto simp: eligible_def admitted_def)

lemma set_scan: "f \<in> set (scan m base) \<longleftrightarrow> (\<exists>r. file_at base (fi_path f) r (fi_size f)) \<and> admitted m (fi_path f)"
  by (simp add: scan_def walk_eligible eligible_root)

subsection \<open>No file is listed twice\<close>

text \<open>The names in one directory differ, at every depth.\<close>

function unique_names :: "listing \<Rightarrow> bool" where
  "unique_names None = True"
| "unique_names (Some es) \<longleftrightarrow> distinct (map fst (sorted_entries es)) \<and>
     list_all (\<lambda>(n, nd). case nd of DirNode sub \<Rightarrow> unique_names sub | _ \<Rightarrow> True) (sorted_entries es)"
  by pat_completeness auto
termination
  by (relation "measure listing_size") (auto dest!: entry_size)

lemma walk_prefix: "f \<in> set (walk m dir es) \<Longrightarrow> \<exists>q. fi_path f = dir @ q"
  by (auto simp: walk_eligible eligible_def) (metis FileInfo.select_convs(1))

lemma visit_prefix: "f \<in> set (visit m path nd) \<Longrightarrow> \<exists>q. fi_path f = path @ q"
  by (auto simp: visit_def dest!: walk_prefix split: node.splits if_splits)

lemma distinct_concat_map:
  assumes "distinct xs" "\<And>x. x \<in> set xs \<Longrightarrow> distinct (g x)"
    "\<And>x y. x \<in> set xs \<Longrightarrow> y \<in> set xs \<Longrightarrow> x \<noteq> y \<Longrightarrow> set (g x) \<inter> set (g y) = {}"
  shows "distinct (concat (map g xs))"
  using assms by (induction xs) fastforce+

lemma walk_distinct: "unique_names es \<Longrightarrow> distinct (map fi_path (walk m dir es))"
proof (induction es arbitrary: dir rule: unique_names.induct)
  case (2 es)
  let ?g = "\<lambda>(n, nd). map fi_path (visit m (dir @ [n]) nd)"
  have d: "distinct (sorted_entries es)"
    using 2(2) by (simp add: distinct_map)
  have "distinct (concat (map ?g (sorted_entries es)))"
  proof (rule distinct_concat_map [OF d])
    fix x assume x: "x \<in> set (sorted_entries es)"
    obtain n nd where n: "x = (n, nd)" by (cases x)
    have "case x of (n, nd) \<Rightarrow> case nd of DirNode sub \<Rightarrow> unique_names sub | _ \<Rightarrow> True"
      using 2(2) x unfolding unique_names.simps list_all_iff by blast
    then show "distinct (?g x)"
      using 2(1) [OF x n [symmetric]] by (cases nd) (auto simp: n visit_def)
  next
    fix x y assume xy: "x \<in> set (sorted_entries es)" "y \<in> set (sorted_entries es)" "x \<noteq> y"
    then have "fst x \<noteq> fst y" using 2(2) by (auto simp: distinct_map inj_on_def)
    then show "set (?g x) \<inter> set (?g y) = {}"
      by (cases x; cases y) (auto dest!: visit_prefix)
  qed
  then show ?case
    by (simp add: walk_visit map_concat comp_def case_prod_unfold)
qed (simp add: walk_visit)

subsection \<open>Human-readable sizes\<close>

text \<open>
  The loop that picks the unit, on unsigned 64-bit values, and the lookup of its prefix, which panics
  out of range. The quotient is kept as the pair of its operands: its decimal rendering is that of a
  floating point number and is left out.
\<close>

definition UNIT :: nat where "UNIT = 1024"

definition PREFIXES :: string where "PREFIXES = ''KMGTPE''"

datatype human_size = Bytes nat | Scaled nat nat char  \<comment> \<open>dividend, divisor, prefix\<close>

function human_loop :: "nat \<Rightarrow> nat \<Rightarrow> nat \<Rightarrow> nat \<times> nat" where
  "human_loop dv ex m =
     (if m \<ge> UNIT then human_loop (dv * UNIT mod 2 ^ 64) (ex + 1) (m div UNIT) else (dv, ex))"
  by pat_completeness auto
termination
  by (relation "measure (\<lambda>(d, e, m). m)") (auto simp: UNIT_def)

declare human_loop.simps [simp del]

definition human :: "nat \<Rightarrow> (unit, human_size) res" where
  "human n =
     (if n < UNIT then Ok (Bytes n)
      else let (dv, ex) = human_loop UNIT 0 (n div UNIT)
           in if ex < length PREFIXES then Ok (Scaled n dv (PREFIXES ! ex)) else Panic)"

lemma human_loop_scale:
  assumes "n < 2 ^ 64" "d = 1024 ^ Suc e" "m = n div d" "0 < m"
  shows "\<exists>e'. human_loop d e m = (1024 ^ Suc e', e') \<and> 1024 ^ Suc e' \<le> n \<and> n < 1024 * 1024 ^ Suc e'"
  using assms
proof (induction d e m rule: human_loop.induct)
  case (1 d e m)
  have le: "d * m \<le> n" "n < d * Suc m"
    using 1(3-5) by (auto simp: dividend_less_times_div mult.commute)
  show ?case
  proof (cases "m \<ge> UNIT")
    case True
    have "d * 1024 \<le> d * m" using True by (simp add: UNIT_def)
    then have small: "d * 1024 \<le> n" using le(1) by linarith
    then have nw: "d * UNIT mod 2 ^ 64 = 1024 ^ Suc (e + 1)"
      using 1(2,3) by (simp add: UNIT_def)
    have "d * UNIT mod 2 ^ 64 = d * UNIT"
      using small 1(2) by (simp add: UNIT_def)
    then have "m div UNIT = n div (d * UNIT mod 2 ^ 64)"
      by (simp only: 1(4) div_mult2_eq)
    moreover have "0 < m div UNIT" using True by (simp add: UNIT_def div_greater_zero_iff)
    ultimately show ?thesis
      using 1(1) [OF True 1(2) nw] True by (simp add: human_loop.simps [of d e m])
  next
    case False
    then have "Suc m \<le> 1024" by (simp add: UNIT_def)
    then have "d * Suc m \<le> d * 1024" by (rule mult_le_mono2)
    then have "n < 1024 * d" using le(2) by linarith
    moreover have "d * 1 \<le> d * m" using 1(5) by (intro mult_le_mono2) simp
    then have "d \<le> n" using le(1) by linarith
    moreover have "human_loop d e m = (d, e)" using False by (subst human_loop.simps) simp
    ultimately show ?thesis using 1(3) by (intro exI [of _ e]) simp
  qed
qed

lemma human_exponent: "(1024 :: nat) ^ Suc e \<le> n \<Longrightarrow> n < 2 ^ 64 \<Longrightarrow> e < 6"
proof (rule ccontr)
  assume a: "(1024 :: nat) ^ Suc e \<le> n" "n < 2 ^ 64" "\<not> e < 6"
  have "(1024 :: nat) ^ 7 \<le> 1024 ^ Suc e" using a(3) by (intro power_increasing) auto
  then show False using a(1,2) by simp
qed

subsection \<open>Properties\<close>

text \<open>
  C10. The traversal returns exactly the eligible files: a path and size are listed if and only if the
  tree has a file there that is reached from the base through directories only (never through a
  symbolic link), its relative path matches an include pattern, and neither the file nor any
  directory above it matches an exclude pattern.
\<close>

theorem scan_is_the_eligible_set:
  "set (scan m base) = {f. (\<exists>r. file_at base (fi_path f) r (fi_size f)) \<and> admitted m (fi_path f)}"
  using set_scan by blast

text \<open>
  Every unsigned 64-bit size is formatted without a panic. Below 1024 it is a number of bytes;
  otherwise the loop ends with a power of 1024 as divisor that did not overflow, the quotient is at
  least 1 and below 1024, and the prefix is the one of that power.
\<close>

theorem human_picks_the_unit:
  assumes "n < 2 ^ 64"
  shows "n < 1024 \<and> human n = Ok (Bytes n) \<or>
    (\<exists>e < 6. human n = Ok (Scaled n (1024 ^ (e + 1)) (''KMGTPE'' ! e)) \<and>
       1024 ^ (e + 1) \<le> n \<and> n < 1024 * 1024 ^ (e + 1))"
proof (cases "n < 1024")
  case True
  then show ?thesis by (simp add: human_def UNIT_def)
next
  case False
  then have "0 < n div 1024" by (simp add: div_greater_zero_iff)
  then obtain e where e: "human_loop 1024 0 (n div 1024) = (1024 ^ Suc e, e)" "1024 ^ Suc e \<le> n"
      "n < 1024 * 1024 ^ Suc e"
    using human_loop_scale [OF assms, of 1024 0 "n div 1024"] by auto
  have "e < 6" using human_exponent e(2) assms by blast
  then show ?thesis
    using False e by (intro disjI2 exI [of _ e]) (simp add: human_def UNIT_def PREFIXES_def)
qed

theorem human_picks_the_unit_witness:
  "human (3 * 1024 ^ 2) = Ok (Scaled (3 * 1024 ^ 2) (1024 ^ 2) (CHR ''M''))"
proof -
  have n: "(3 * 1024 ^ 2 :: nat) < 2 ^ 64" by simp
  obtain e :: nat where e: "e < 6" "human (3 * 1024 ^ 2) = Ok (Scaled (3 * 1024 ^ 2) (1024 ^ (e + 1)) (''KMGTPE'' ! e))"
      "1024 ^ (e + 1) \<le> (3 * 1024 ^ 2 :: nat)" "3 * 1024 ^ 2 < (1024 * 1024 ^ (e + 1) :: nat)"
    using human_picks_the_unit [OF n] by auto
  have "e \<in> {0, 1, 2, 3, 4, 5}" using e(1) by auto
  then have "e = 1" using e(3,4) by auto
  then show ?thesis using e(2) by simp
qed

end
