(* ===== verification/Fsc_Cleaner.thy ===== *)
theory Fsc_Cleaner
  imports Fsc_Config Fsc_Scanner Complex_Main "HOL-Library.Sublist"
begin

section \<open>filesystem-cleaner: cleanup cycles (cleaner.rs, cleaner/report.rs, schedule.rs, main.rs)\<close>

text \<open>
  One cleanup cycle over the target paths, the schedule that repeats it and the program around it.
  The disk, the file system, the remover and the shutdown token are the record \<open>backends\<close>; each of
  its answers may depend on everything the program has done so far, which the model
  records as a log. Percentages are rational numbers. Byte totals wrap at 64 bits, as they do in the
  release profile.
\<close>

subsection \<open>Reports and backends\<close>

record CleanStats =
  st_initial_usage :: rat
  st_final_usage :: rat
  st_candidates :: nat
  st_candidate_bytes :: nat
  st_deleted :: nat
  st_freed_bytes :: nat
  st_failed :: nat
  st_interrupted :: bool
  st_dry_run :: bool

datatype Outcome = BelowThreshold | Missing | Cleaned CleanStats

record PathReport =
  pr_path :: string
  pr_usage :: rat
  pr_outcome :: Outcome

text \<open>What the program asks of the outside, in order. A removal records whether it succeeded.\<close>

datatype fsc_event =
    AskedUsage string
  | AskedStat string
  | Scanned string
  | AskedShutdown
  | Removed string FileInfo bool  \<comment> \<open>base, file, success\<close>

type_synonym fsc_log = "fsc_event list"

record backends =
  bk_usage :: "fsc_log \<Rightarrow> string \<Rightarrow> string + rat"
  bk_stat :: "fsc_log \<Rightarrow> string \<Rightarrow> bool"
  bk_read_dir :: "fsc_log \<Rightarrow> string \<Rightarrow> listing"
  bk_cancelled :: "fsc_log \<Rightarrow> bool"
  bk_remove :: "fsc_log \<Rightarrow> string \<Rightarrow> FileInfo \<Rightarrow> string + unit"

record Cleaner =
  cl_config :: fsc_config
  cl_matcher :: Matcher

definition add_u64 :: "nat \<Rightarrow> nat \<Rightarrow> nat" where
  "add_u64 a b = (a + b) mod 2 ^ 64"

definition sum_u64 :: "nat list \<Rightarrow> nat" where
  "sum_u64 xs = foldl add_u64 0 xs"

subsection \<open>One target path\<close>

definition with_backends :: "'g globset_api \<Rightarrow> fsc_config \<Rightarrow> (PatternError, Cleaner) res" where
  "with_backends api config =
     rbind (matcher_new api (cf_include_patterns config) (cf_exclude_patterns config)) (\<lambda>m.
     Ok \<lparr>cl_config = config, cl_matcher = m\<rparr>)"

definition disk_usage_percent :: "backends \<Rightarrow> string \<Rightarrow> fsc_log \<Rightarrow> rat \<times> fsc_log" where
  "disk_usage_percent bk path tr =
     ((case bk_usage bk tr path of Inr usage \<Rightarrow> usage | Inl e \<Rightarrow> 0), tr @ [AskedUsage path])"

fun clean_loop :: "backends \<Rightarrow> Cleaner \<Rightarrow> string \<Rightarrow> FileInfo list \<Rightarrow> CleanStats \<Rightarrow> fsc_log \<Rightarrow> CleanStats \<times> fsc_log" where
  "clean_loop bk cl base [] stats tr = (stats, tr)"
| "clean_loop bk cl base (file # files) stats tr =
     (let tr1 = tr @ [AskedShutdown]
      in if bk_cancelled bk tr then (stats\<lparr>st_interrupted := True\<rparr>, tr1)
         else if cf_dry_run (cl_config cl) then clean_loop bk cl base files stats tr1
         else (case bk_remove bk tr1 base file of
                 Inr u \<Rightarrow> clean_loop bk cl base files
                   (stats\<lparr>st_deleted := st_deleted stats + 1,
                          st_freed_bytes := add_u64 (st_freed_bytes stats) (fi_size file)\<rparr>)
                   (tr1 @ [Removed base file True])
               | Inl e \<Rightarrow> clean_loop bk cl base files (stats\<lparr>st_failed := st_failed stats + 1\<rparr>)
                   (tr1 @ [Removed base file False])))"

definition start_stats :: "rat \<Rightarrow> FileInfo list \<Rightarrow> bool \<Rightarrow> CleanStats" where
  "start_stats initial_usage files dry_run =
     \<lparr>st_initial_usage = initial_usage, st_final_usage = initial_usage,
       st_candidates = length files, st_candidate_bytes = sum_u64 (map fi_size files),
       st_deleted = 0, st_freed_bytes = 0, st_failed = 0, st_interrupted = False, st_dry_run = dry_run\<rparr>"

definition clean_path :: "backends \<Rightarrow> Cleaner \<Rightarrow> string \<Rightarrow> fsc_log \<Rightarrow> Outcome \<times> fsc_log" where
  "clean_path bk cl base tr0 =
     (let tr1 = tr0 @ [AskedStat base]
      in if \<not> bk_stat bk tr0 base then (Missing, tr1)
         else
           (let (initial_usage, tr2) = disk_usage_percent bk base tr1;
                files = scan (cl_matcher cl) (bk_read_dir bk tr2 base);
                tr3 = tr2 @ [Scanned base];
                stats = start_stats initial_usage files (cf_dry_run (cl_config cl))
            in if files = [] then (Cleaned stats, tr3)
               else
                 (let (stats1, tr4) = clean_loop bk cl base files stats tr3;
                      (final_usage, tr5) = disk_usage_percent bk base tr4
                  in (Cleaned (stats1\<lparr>st_final_usage := final_usage\<rparr>), tr5))))"

subsection \<open>A cycle and its schedule\<close>

fun cleanup_paths :: "backends \<Rightarrow> Cleaner \<Rightarrow> string list \<Rightarrow> fsc_log \<Rightarrow> PathReport list \<times> fsc_log" where
  "cleanup_paths bk cl [] tr = ([], tr)"
| "cleanup_paths bk cl (path # paths) tr =
     (let (usage, tr1) = disk_usage_percent bk path tr;
          (outcome, tr2) =
            (if usage > of_nat (cf_usage_threshold_percent (cl_config cl)) then clean_path bk cl path tr1
             else (BelowThreshold, tr1));
          (reports, tr3) = cleanup_paths bk cl paths tr2
      in (\<lparr>pr_path = path, pr_usage = usage, pr_outcome = outcome\<rparr> # reports, tr3))"

definition perform_cleanup :: "backends \<Rightarrow> Cleaner \<Rightarrow> fsc_log \<Rightarrow> PathReport list \<times> fsc_log" where
  "perform_cleanup bk cl tr = cleanup_paths bk cl (cf_target_paths (cl_config cl)) tr"

text \<open>
  What each wait of the interval loop finds: whether shutdown was requested and whether the tick is
  due. Shutdown is looked at first. The list is the finite stretch of the schedule that is observed;
  the Boolean of the result tells whether the loop returned in it.
\<close>

record wake =
  wk_cancelled :: bool
  wk_tick :: bool

fun interval_loop :: "('s \<Rightarrow> 's) \<Rightarrow> wake list \<Rightarrow> 's \<Rightarrow> bool \<times> 's" where
  "interval_loop cycle [] s = (False, s)"
| "interval_loop cycle (w # ws) s =
     (if wk_cancelled w then (True, s)
      else if wk_tick w then interval_loop cycle ws (cycle s)
      else interval_loop cycle ws s)"

definition schedule_run :: "CleanupMode \<Rightarrow> ('s \<Rightarrow> 's) \<Rightarrow> wake list \<Rightarrow> 's \<Rightarrow> bool \<times> 's" where
  "schedule_run mode cycle ws s =
     (case mode of
        Once \<Rightarrow> (True, cycle s)
      | Interval \<Rightarrow> interval_loop cycle ws (cycle s))"

definition cleaner_run :: "backends \<Rightarrow> Cleaner \<Rightarrow> wake list \<Rightarrow> fsc_log \<Rightarrow> bool \<times> fsc_log" where
  "cleaner_run bk cl ws tr =
     schedule_run (cf_cleanup_mode (cl_config cl)) (\<lambda>l. snd (perform_cleanup bk cl l)) ws tr"

text \<open>
  The program: exit status 2 for a configuration that does not resolve, 1 for a pattern that does not
  compile, 0 when the schedule ends; \<^const>\<open>None\<close> while it is still running.
\<close>

definition cleaner_main :: "'g globset_api \<Rightarrow> backends \<Rightarrow> Args \<Rightarrow> env_vars \<Rightarrow> wake list \<Rightarrow> nat option \<times> fsc_log" where
  "cleaner_main api bk args env ws =
     (case resolve args env of
        Ok config \<Rightarrow>
          (case with_backends api config of
             Ok cl \<Rightarrow> (let (finished, tr) = cleaner_run bk cl ws [] in (if finished then Some 0 else None, tr))
           | _ \<Rightarrow> (Some 1, []))
      | _ \<Rightarrow> (Some 2, []))"

subsection \<open>Justified removals\<close>

text \<open>
  A removal is justified by the log before it: the cleaner is not in a dry run, the base is a target
  path whose usage was measured above the threshold, the file was eligible when the base was
  scanned, and the shutdown token was read as not cancelled directly before.
\<close>

definition justified :: "backends \<Rightarrow> Cleaner \<Rightarrow> fsc_log \<Rightarrow> string \<Rightarrow> FileInfo \<Rightarrow> bool" where
  "justified bk cl pre base f \<longleftrightarrow>
     \<not> cf_dry_run (cl_config cl) \<and> base \<in> set (cf_target_paths (cl_config cl)) \<and>
     (\<exists>before u. prefix before pre \<and> bk_usage bk before base = Inr u \<and>
        of_nat (cf_usage_threshold_percent (cl_config cl)) < u) \<and>
     (\<exists>before r. prefix before pre \<and> file_at (bk_read_dir bk before base) (fi_path f) r (fi_size f)) \<and>
     admitted (cl_matcher cl) (fi_path f) \<and>
     (\<exists>before. pre = before @ [AskedShutdown] \<and> \<not> bk_cancelled bk before)"

inductive good_log :: "backends \<Rightarrow> Cleaner \<Rightarrow> fsc_log \<Rightarrow> bool" for bk cl where
  empty: "good_log bk cl []"
| ask: "good_log bk cl tr \<Longrightarrow> (\<And>base f ok. e \<noteq> Removed base f ok) \<Longrightarrow> good_log bk cl (tr @ [e])"
| remove: "good_log bk cl tr \<Longrightarrow> justified bk cl tr base f \<Longrightarrow> good_log bk cl (tr @ [Removed base f ok])"

lemma good_log_ask [simp]:
  "good_log bk cl tr \<Longrightarrow> good_log bk cl (tr @ [AskedUsage p])"
  "good_log bk cl tr \<Longrightarrow> good_log bk cl (tr @ [AskedStat p])"
  "good_log bk cl tr \<Longrightarrow> good_log bk cl (tr @ [Scanned p])"
  "good_log bk cl tr \<Longrightarrow> good_log bk cl (tr @ [AskedShutdown])"
  by (auto intro: good_log.ask)

lemma good_log_justified:
  "good_log bk cl tr \<Longrightarrow> tr = pre @ Removed base f ok # post \<Longrightarrow> justified bk cl pre base f"
proof (induction arbitrary: post rule: good_log.induct)
  case (ask tr e)
  then show ?case by (cases post rule: rev_cases) auto
next
  case (remove tr base' f' ok')
  then show ?case by (cases post rule: rev_cases) auto
qed simp

text \<open>What the loop needs to know of the log it starts from.\<close>

definition loop_pre :: "backends \<Rightarrow> Cleaner \<Rightarrow> string \<Rightarrow> FileInfo list \<Rightarrow> fsc_log \<Rightarrow> bool" where
  "loop_pre bk cl base files tr \<longleftrightarrow> base \<in> set (cf_target_paths (cl_config cl)) \<and>
     (\<exists>before u. prefix before tr \<and> bk_usage bk before base = Inr u \<and>
        of_nat (cf_usage_threshold_percent (cl_config cl)) < u) \<and>
     (\<exists>before. prefix before tr \<and> set files \<subseteq> set (scan (cl_matcher cl) (bk_read_dir bk before base)))"

lemma loop_pre_append: "loop_pre bk cl base (f # files) tr \<Longrightarrow> loop_pre bk cl base files (tr @ es)"
  by (auto simp: loop_pre_def intro: prefix_prefix)

lemma loop_pre_justified:
  assumes "loop_pre bk cl base (f # files) tr" "\<not> bk_cancelled bk tr" "\<not> cf_dry_run (cl_config cl)"
  shows "justified bk cl (tr @ [AskedShutdown]) base f"
  using assms by (fastforce simp: loop_pre_def justified_def set_scan intro: prefix_prefix)

lemma clean_loop_good:
  "good_log bk cl tr \<Longrightarrow> loop_pre bk cl base files tr \<Longrightarrow> good_log bk cl (snd (clean_loop bk cl base files stats tr))"
proof (induction bk cl base files stats tr rule: clean_loop.induct)
  case (2 bk cl base f files stats tr)
  let ?tr1 = "tr @ [AskedShutdown]"
  have pre: "loop_pre bk cl base files (?tr1 @ es)" for es
    using loop_pre_append [OF 2(5), of "AskedShutdown # es"] by simp
  have removed: "good_log bk cl (?tr1 @ [Removed base f ok])"
    if "\<not> bk_cancelled bk tr" "\<not> cf_dry_run (cl_config cl)" for ok
    using 2(4) loop_pre_justified [OF 2(5) that] by (intro good_log.remove) auto
  show ?case
    using 2(1-4) pre [of "[]"] pre removed by (auto simp: Let_def split: sum.splits)
qed simp

lemma clean_path_good:
  assumes "good_log bk cl tr" "base \<in> set (cf_target_paths (cl_config cl))"
    and u: "prefix before tr" "bk_usage bk before base = Inr u" "of_nat (cf_usage_threshold_percent (cl_config cl)) < u"
  shows "good_log bk cl (snd (clean_path bk cl base tr))"
proof -
  let ?tr2 = "(tr @ [AskedStat base]) @ [AskedUsage base]"
  let ?files = "scan (cl_matcher cl) (bk_read_dir bk ?tr2 base)"
  have "loop_pre bk cl base ?files (?tr2 @ [Scanned base])"
    unfolding loop_pre_def
  proof (intro conjI exI)
    show "prefix before (?tr2 @ [Scanned base])" using u(1) by (auto intro: prefix_prefix)
    show "prefix ?tr2 (?tr2 @ [Scanned base])" by (rule prefixI) simp
  qed (use assms(2) u in auto)
  then have "good_log bk cl (snd (clean_loop bk cl base ?files stats (?tr2 @ [Scanned base])))" for stats
    using assms(1) by (intro clean_loop_good good_log_ask)
  moreover have "good_log bk cl (?tr2 @ [Scanned base])"
    using assms(1) by (intro good_log_ask)
  ultimately show ?thesis
    using assms(1) good_log_ask by (simp add: clean_path_def disk_usage_percent_def Let_def case_prod_unfold)
qed

lemma cleanup_paths_good:
  "good_log bk cl tr \<Longrightarrow> set paths \<subseteq> set (cf_target_paths (cl_config cl)) \<Longrightarrow>
   good_log bk cl (snd (cleanup_paths bk cl paths tr))"
proof (induction paths arbitrary: tr)
  case (Cons path paths)
  have "good_log bk cl (snd (clean_path bk cl path (tr @ [AskedUsage path])))"
    if "fst (disk_usage_percent bk path tr) > of_nat (cf_usage_threshold_percent (cl_config cl))"
    using that Cons(2,3)
    by (intro clean_path_good [where before = tr]) (auto simp: disk_usage_percent_def split: sum.splits)
  then show ?case
    using Cons by (auto simp: Let_def case_prod_unfold disk_usage_percent_def)
qed simp

lemma perform_cleanup_good: "good_log bk cl tr \<Longrightarrow> good_log bk cl (snd (perform_cleanup bk cl tr))"
  by (simp add: perform_cleanup_def cleanup_paths_good)

subsection \<open>The schedule repeats the cycle\<close>

text \<open>The ticks before the first wait that finds shutdown requested.\<close>

definition ticks :: "wake list \<Rightarrow> nat" where
  "ticks ws = length (filter wk_tick (takeWhile (\<lambda>w. \<not> wk_cancelled w) ws))"

lemma interval_loop_cycles:
  "interval_loop cycle ws s = (list_ex wk_cancelled ws, (cycle ^^ ticks ws) s)"
  by (induction ws arbitrary: s) (auto simp: ticks_def funpow_swap1)

definition cycles :: "CleanupMode \<Rightarrow> wake list \<Rightarrow> nat" where
  "cycles mode ws = (case mode of Once \<Rightarrow> 1 | Interval \<Rightarrow> Suc (ticks ws))"

lemma schedule_run_cycles:
  "schedule_run mode cycle ws s = (mode = Once \<or> list_ex wk_cancelled ws, (cycle ^^ cycles mode ws) s)"
  by (cases mode) (auto simp: schedule_run_def cycles_def interval_loop_cycles funpow_swap1)

text \<open>The schedule knows nothing of a cycle but what every cycle keeps.\<close>

locale kept_by_cycle =
  fixes cycle :: "'s \<Rightarrow> 's" and kept :: "'s \<Rightarrow> bool"
  assumes cycle_keeps: "kept s \<Longrightarrow> kept (cycle s)"
begin

lemma cycles_keep: "kept s \<Longrightarrow> kept ((cycle ^^ n) s)"
  by (induction n) (simp_all add: cycle_keeps)

lemma schedule_keeps: "kept s \<Longrightarrow> kept (snd (schedule_run mode cycle ws s))"
  by (simp add: schedule_run_cycles cycles_keep)

end

interpretation cleanup: kept_by_cycle "\<lambda>l. snd (perform_cleanup bk cl l)" "good_log bk cl" for bk cl
  by unfold_locales (rule perform_cleanup_good)

lemma cleaner_run_good: "good_log bk cl tr \<Longrightarrow> good_log bk cl (snd (cleaner_run bk cl ws tr))"
  unfolding cleaner_run_def by (rule cleanup.schedule_keeps)

subsection \<open>Accounting\<close>

text \<open>The removals of a log, in order, with their success.\<close>

fun removal :: "fsc_event \<Rightarrow> (FileInfo \<times> bool) option" where
  "removal (Removed base f ok) = Some (f, ok)"
| "removal _ = None"

definition attempts :: "fsc_log \<Rightarrow> (FileInfo \<times> bool) list" where
  "attempts tr = filter_map removal tr"

lemma attempts_simps [simp]:
  "attempts [] = []"
  "attempts (xs @ ys) = attempts xs @ attempts ys"
  "attempts (AskedUsage p # xs) = attempts xs"
  "attempts (AskedStat p # xs) = attempts xs"
  "attempts (Scanned p # xs) = attempts xs"
  "attempts (AskedShutdown # xs) = attempts xs"
  "attempts (Removed base f ok # xs) = (f, ok) # attempts xs"
  by (simp_all add: attempts_def)

definition succeeded :: "fsc_log \<Rightarrow> FileInfo list" where
  "succeeded tr = map fst (filter snd (attempts tr))"

definition refused :: "fsc_log \<Rightarrow> FileInfo list" where
  "refused tr = map fst (filter (\<lambda>a. \<not> snd a) (attempts tr))"

text \<open>The counters of \<open>stats'\<close> are those of \<open>stats\<close> and the removals of \<open>new\<close>, among \<open>files\<close>.\<close>

definition accounts :: "Cleaner \<Rightarrow> FileInfo list \<Rightarrow> CleanStats \<Rightarrow> CleanStats \<Rightarrow> fsc_log \<Rightarrow> bool" where
  "accounts cl files stats stats' new \<longleftrightarrow>
     st_candidates stats' = st_candidates stats \<and>
     st_candidate_bytes stats' = st_candidate_bytes stats \<and>
     st_deleted stats' = st_deleted stats + length (succeeded new) \<and>
     st_failed stats' = st_failed stats + length (refused new) \<and>
     st_freed_bytes stats' = foldl add_u64 (st_freed_bytes stats) (map fi_size (succeeded new)) \<and>
     (if cf_dry_run (cl_config cl) then attempts new = []
      else if st_interrupted stats' then strict_prefix (map fst (attempts new)) files
      else map fst (attempts new) = files)"

lemma clean_loop_accounts:
  "\<not> st_interrupted stats \<Longrightarrow>
   \<exists>new. snd (clean_loop bk cl base files stats tr) = tr @ new \<and>
     accounts cl files stats (fst (clean_loop bk cl base files stats tr)) new"
proof (induction files arbitrary: stats tr)
  case Nil
  then show ?case by (simp add: accounts_def succeeded_def refused_def)
next
  case (Cons f files)
  let ?tr1 = "tr @ [AskedShutdown]"
  consider (stop) "bk_cancelled bk tr" | (dry) "\<not> bk_cancelled bk tr" "cf_dry_run (cl_config cl)"
    | (ok) u where "\<not> bk_cancelled bk tr" "\<not> cf_dry_run (cl_config cl)" "bk_remove bk ?tr1 base f = Inr u"
    | (bad) e where "\<not> bk_cancelled bk tr" "\<not> cf_dry_run (cl_config cl)" "bk_remove bk ?tr1 base f = Inl e"
    by (cases "bk_remove bk ?tr1 base f") blast+
  then show ?case
  proof cases
    case stop
    then show ?thesis by (auto simp: Let_def accounts_def succeeded_def refused_def)
  next
    case dry
    then show ?thesis
      using Cons.IH [of stats ?tr1] Cons.prems
      by (auto simp: Let_def accounts_def succeeded_def refused_def)
  next
    case ok
    then show ?thesis
      using Cons.IH [of "stats\<lparr>st_deleted := st_deleted stats + 1,
          st_freed_bytes := add_u64 (st_freed_bytes stats) (fi_size f)\<rparr>" "?tr1 @ [Removed base f True]"] Cons.prems
      by (auto simp: Let_def accounts_def succeeded_def refused_def split: if_splits)
  next
    case bad
    then show ?thesis
      using Cons.IH [of "stats\<lparr>st_failed := st_failed stats + 1\<rparr>" "?tr1 @ [Removed base f False]"] Cons.prems
      by (auto simp: Let_def accounts_def succeeded_def refused_def split: if_splits)
  qed
qed

subsection \<open>A concrete run\<close>

text \<open>Literal patterns, with the star matching everything: enough to run the cleaner on an example.\<close>

definition literal_globs :: "string globset_api" where
  "literal_globs = \<lparr>glob_new = Inr, glob_build = (\<lambda>gs. Inr (\<lambda>s. s \<in> set gs \<or> ''*'' \<in> set gs))\<rparr>"

definition demo_listing :: listing where
  "demo_listing = Some
     [Some (''link'', SymlinkNode),
      Some (''keep'', DirNode (Some [Some (''a'', FileNode True 5)])),
      Some (''cache'', DirNode (Some [None, Some (''b'', FileNode True 7)])),
      Some (''a.tmp'', FileNode True 3)]"

definition demo_backends :: backends where
  "demo_backends = \<lparr>bk_usage = (\<lambda>tr p. Inr 90), bk_stat = (\<lambda>tr p. True), bk_read_dir = (\<lambda>tr p. demo_listing),
     bk_cancelled = (\<lambda>tr. False), bk_remove = (\<lambda>tr p f. if fi_size f = 7 then Inl ''busy'' else Inr ())\<rparr>"

definition demo_args :: Args where
  "demo_args = \<lparr>ar_target_paths = Some ''/w'', ar_usage_threshold_percent = None, ar_check_interval_minutes = None,
     ar_include_patterns = None, ar_exclude_patterns = Some ''keep'', ar_cleanup_mode = Some Once, ar_dry_run = None,
     ar_log_level = None\<rparr>"

definition demo_vars :: env_vars where
  "demo_vars = (\<lambda>k. if k = ''USAGE_THRESHOLD_PERCENT'' then Some ''85'' else None)"

definition demo_cleaner :: Cleaner where
  "demo_cleaner = \<lparr>cl_config = \<lparr>cf_target_paths = [''/w''], cf_usage_threshold_percent = 85,
       cf_check_interval_minutes = 10, cf_include_patterns = [''*''], cf_exclude_patterns = [''keep''],
       cf_cleanup_mode = Once, cf_dry_run = False, cf_log_level = LInfo\<rparr>,
     cl_matcher = \<lparr>mt_include = (\<lambda>s. True), mt_exclude = (\<lambda>s. s = ''keep'')\<rparr>\<rparr>"

lemma demo_resolve: "resolve demo_args demo_vars = Ok (cl_config demo_cleaner)"
  by code_simp

lemma demo_with_backends: "with_backends literal_globs (cl_config demo_cleaner) = Ok demo_cleaner"
  by (simp add: with_backends_def matcher_new_def compile_def literal_globs_def demo_cleaner_def)

lemma demo_select [simp]:
  "bk_usage demo_backends t p = Inr 90"
  "bk_stat demo_backends t p"
  "bk_read_dir demo_backends t p = demo_listing"
  "\<not> bk_cancelled demo_backends t"
  "bk_remove demo_backends t p f = (if fi_size f = 7 then Inl ''busy'' else Inr ())"
  "cf_target_paths (cl_config demo_cleaner) = [''/w'']"
  "cf_cleanup_mode (cl_config demo_cleaner) = Once"
  "cf_usage_threshold_percent (cl_config demo_cleaner) = 85"
  "\<not> cf_dry_run (cl_config demo_cleaner)"
  by (simp_all add: demo_backends_def demo_cleaner_def)

lemma demo_scan: "scan (cl_matcher demo_cleaner) demo_listing =
    [\<lparr>fi_path = [''a.tmp''], fi_size = 3\<rparr>, \<lparr>fi_path = [''cache'', ''b''], fi_size = 7\<rparr>]"
  by code_simp

lemma demo_clean_path:
  "clean_path demo_backends demo_cleaner ''/w'' tr =
    (Cleaned \<lparr>st_initial_usage = 90, st_final_usage = 90, st_candidates = 2, st_candidate_bytes = 10, st_deleted = 1,
       st_freed_bytes = 3, st_failed = 1, st_interrupted = False, st_dry_run = False\<rparr>,
     tr @ [AskedStat ''/w'', AskedUsage ''/w'', Scanned ''/w'', AskedShutdown,
       Removed ''/w'' \<lparr>fi_path = [''a.tmp''], fi_size = 3\<rparr> True, AskedShutdown,
       Removed ''/w'' \<lparr>fi_path = [''cache'', ''b''], fi_size = 7\<rparr> False, AskedUsage ''/w''])"
  by (simp add: clean_path_def demo_scan disk_usage_percent_def start_stats_def add_u64_def sum_u64_def Let_def)

lemma demo_main:
  "snd (cleaner_main literal_globs demo_backends demo_args demo_vars []) =
    [AskedUsage ''/w'', AskedStat ''/w'', AskedUsage ''/w'', Scanned ''/w'', AskedShutdown,
       Removed ''/w'' \<lparr>fi_path = [''a.tmp''], fi_size = 3\<rparr> True, AskedShutdown,
       Removed ''/w'' \<lparr>fi_path = [''cache'', ''b''], fi_size = 7\<rparr> False, AskedUsage ''/w'']"
  by (simp add: cleaner_main_def demo_resolve demo_with_backends cleaner_run_def schedule_run_def
      perform_cleanup_def demo_clean_path disk_usage_percent_def)

subsection \<open>Properties\<close>

text \<open>
  C6. The program removes nothing it should not: whatever the disk, the file system, the remover and
  the shutdown token answer, every removal in the log of the whole program, over all its cycles, is
  justified. The configuration resolved and its patterns compiled; it is not a dry run; the base is a
  configured target path whose usage was measured above the threshold; the file was reached from that
  base through directories only, is included, and neither it nor a directory above it is excluded;
  and shutdown had not been requested at the check directly before.
\<close>

theorem cleaner_removals_are_justified:
  assumes "snd (cleaner_main api bk args env ws) = pre @ Removed base f ok # post"
  shows "\<exists>cl. resolve args env = Ok (cl_config cl) \<and> with_backends api (cl_config cl) = Ok cl \<and>
    justified bk cl pre base f"
proof (cases "resolve args env")
  case (Ok config)
  show ?thesis
  proof (cases "with_backends api config")
    case cl: (Ok cl)
    have "cl_config cl = config" using cl by (auto simp: with_backends_def)
    moreover have "good_log bk cl (snd (cleaner_main api bk args env ws))"
      using cleaner_run_good [OF good_log.empty]
      by (simp add: cleaner_main_def Ok cl case_prod_unfold Let_def)
    ultimately show ?thesis using Ok cl assms good_log_justified by blast
  qed (use Ok assms in \<open>simp_all add: cleaner_main_def\<close>)
qed (use assms in \<open>simp_all add: cleaner_main_def\<close>)

theorem cleaner_removals_are_justified_witness:
  "\<exists>cl. resolve demo_args demo_vars = Ok (cl_config cl) \<and> with_backends literal_globs (cl_config cl) = Ok cl \<and>
    justified demo_backends cl
      [AskedUsage ''/w'', AskedStat ''/w'', AskedUsage ''/w'', Scanned ''/w'', AskedShutdown]
      ''/w'' \<lparr>fi_path = [''a.tmp''], fi_size = 3\<rparr>"
  by (rule cleaner_removals_are_justified [where ws = "[]" and ok = True and
        post = "[AskedShutdown, Removed ''/w'' \<lparr>fi_path = [''cache'', ''b''], fi_size = 7\<rparr> False, AskedUsage ''/w'']"])
    (simp add: demo_main)

text \<open>
  The report of a cleaned path accounts for what was done: the candidates are the scanned files;
  the deleted and the failed files are the removals that succeeded and that did not; the freed bytes
  are the sum of the sizes of the deleted files, at 64 bits. A dry run attempts no removal. A pass
  that was not interrupted attempts every candidate once, in order, and an interrupted one a proper
  initial part of them.
\<close>

theorem clean_path_accounts:
  assumes "clean_path bk cl base tr = (Cleaned st, tr')"
  shows "\<exists>new. tr' = tr @ new \<and>
    (let files = scan (cl_matcher cl) (bk_read_dir bk (tr @ [AskedStat base, AskedUsage base]) base)
     in st_candidates st = length files \<and> st_candidate_bytes st = sum_u64 (map fi_size files) \<and>
        st_deleted st = length (succeeded new) \<and> st_failed st = length (refused new) \<and>
        st_freed_bytes st = sum_u64 (map fi_size (succeeded new)) \<and>
        (if cf_dry_run (cl_config cl) then attempts new = []
         else if st_interrupted st then strict_prefix (map fst (attempts new)) files
         else map fst (attempts new) = files))"
proof -
  let ?files = "scan (cl_matcher cl) (bk_read_dir bk (tr @ [AskedStat base, AskedUsage base]) base)"
  let ?tr3 = "tr @ [AskedStat base, AskedUsage base, Scanned base]"
  show ?thesis
  proof (cases "?files = []")
    case True
    then show ?thesis
      using assms
      by (auto simp: clean_path_def disk_usage_percent_def start_stats_def Let_def sum_u64_def succeeded_def refused_def split: if_splits)
  next
    case False
    let ?stats = "start_stats (fst (disk_usage_percent bk base (tr @ [AskedStat base]))) ?files (cf_dry_run (cl_config cl))"
    let ?run = "clean_loop bk cl base ?files ?stats ?tr3"
    have s: "st = (fst ?run)\<lparr>st_final_usage := st_final_usage st\<rparr>" "tr' = snd ?run @ [AskedUsage base]"
      using assms False
      by (auto simp: clean_path_def disk_usage_percent_def Let_def case_prod_unfold split: if_splits)
    obtain new where n: "snd ?run = ?tr3 @ new" "accounts cl ?files ?stats (fst ?run) new"
      using clean_loop_accounts [of ?stats bk cl base ?files ?tr3] by (auto simp: start_stats_def)
    let ?new = "[AskedStat base, AskedUsage base, Scanned base] @ new @ [AskedUsage base]"
    have "attempts ?new = attempts new" "tr' = tr @ ?new"
      using s(2) n(1) by simp_all
    moreover have "accounts cl ?files ?stats st new"
      using n(2) by (subst s(1)) (simp add: accounts_def)
    ultimately show ?thesis
      by (intro exI [of _ ?new])
        (simp add: accounts_def succeeded_def refused_def sum_u64_def start_stats_def Let_def)
  qed
qed

theorem clean_path_accounts_witness:
  "\<exists>new. snd (clean_path demo_backends demo_cleaner ''/w'' []) = [] @ new \<and>
     map fst (attempts new) = [\<lparr>fi_path = [''a.tmp''], fi_size = 3\<rparr>, \<lparr>fi_path = [''cache'', ''b''], fi_size = 7\<rparr>] \<and>
     length (succeeded new) = 1 \<and> length (refused new) = 1 \<and> sum_u64 (map fi_size (succeeded new)) = 3"
  using clean_path_accounts [OF demo_clean_path [of "[]"]]
  by (simp add: demo_clean_path demo_scan)

text \<open>
  C35. The program in once mode performs exactly one cycle and ends. In interval mode it performs one
  cycle at once and one more for each tick that comes before shutdown is noticed; when both are due
  together, shutdown wins. It ends exactly when shutdown is noticed.
\<close>

theorem cleaner_run_cycles:
  "cleaner_run bk cl ws tr =
    (case cf_cleanup_mode (cl_config cl) of
       Once \<Rightarrow> (True, snd (perform_cleanup bk cl tr))
     | Interval \<Rightarrow> (list_ex wk_cancelled ws,
         ((\<lambda>l. snd (perform_cleanup bk cl l)) ^^
            Suc (length (filter wk_tick (takeWhile (\<lambda>w. \<not> wk_cancelled w) ws)))) tr))"
  by (cases "cf_cleanup_mode (cl_config cl)")
    (auto simp: cleaner_run_def schedule_run_cycles cycles_def ticks_def)

text \<open>
  A configuration that resolves is valid: it has a target path and no empty one, a threshold of at
  most 100 and an interval of at least one minute. The threshold is the flag if there is one, else
  the number in the environment variable if that is set, else 80; the dry run flag likewise, with
  False as default.
\<close>

theorem resolve_gives_valid_config:
  assumes "resolve args env = Ok c"
  shows "cf_target_paths c \<noteq> [] \<and> [] \<notin> set (cf_target_paths c) \<and> cf_usage_threshold_percent c \<le> 100 \<and>
    1 \<le> cf_check_interval_minutes c \<and>
    (case (ar_usage_threshold_percent args, env ''USAGE_THRESHOLD_PERCENT'') of
       (Some t, _) \<Rightarrow> int (cf_usage_threshold_percent c) = t
     | (None, Some raw) \<Rightarrow> parse_i64 raw = Inr (int (cf_usage_threshold_percent c))
     | (None, None) \<Rightarrow> cf_usage_threshold_percent c = 80) \<and>
    (case (ar_dry_run args, env ''DRY_RUN'') of
       (Some b, _) \<Rightarrow> cf_dry_run c = b
     | (None, Some raw) \<Rightarrow> parse_bool raw = Some (cf_dry_run c)
     | (None, None) \<Rightarrow> \<not> cf_dry_run c)"
proof -
  have "config_ok c" using assms by (rule resolve_ok)
  moreover have "case (ar_usage_threshold_percent args, env ''USAGE_THRESHOLD_PERCENT'') of
       (Some t, _) \<Rightarrow> int (cf_usage_threshold_percent c) = t
     | (None, Some raw) \<Rightarrow> parse_i64 raw = Inr (int (cf_usage_threshold_percent c))
     | (None, None) \<Rightarrow> cf_usage_threshold_percent c = 80"
    using resolve_fields(1) [OF assms] by (auto simp: resolve_parsed_def DEFAULT_THRESHOLD_def split: option.splits)
  moreover have "case (ar_dry_run args, env ''DRY_RUN'') of
       (Some b, _) \<Rightarrow> cf_dry_run c = b
     | (None, Some raw) \<Rightarrow> parse_bool raw = Some (cf_dry_run c)
     | (None, None) \<Rightarrow> \<not> cf_dry_run c"
    using resolve_fields(2) [OF assms] by (auto simp: env_bool_def split: option.splits)
  ultimately show ?thesis by (auto simp: config_ok_def list_all_iff)
qed

theorem resolve_gives_valid_config_witness:
  "[] \<notin> set (cf_target_paths (cl_config demo_cleaner)) \<and>
    parse_i64 ''85'' = Inr (int (cf_usage_threshold_percent (cl_config demo_cleaner)))"
  using resolve_gives_valid_config [OF demo_resolve] by (simp add: demo_args_def demo_vars_def)

end
