(* ===== verification/Gate_Types.thy ===== *)
theory Gate_Types
  imports Rust_Text
begin

section \<open>argocd-canary-gate: configuration, documents and snapshots (config.rs, gate/types.rs, k8s/)\<close>

text \<open>
  The validated configuration of the gate, decoded JSON documents and the two reductions of a
  document to what the gate reasons about: an Application and an Argo Rollout. The readers over the
  Kubernetes API take the answers of the API as arguments.
\<close>

subsection \<open>Configuration\<close>

datatype Mode = Enforce | Warn

datatype OnError = Allow | Deny

record Exempt =
  ex_usernames :: "string list"
  ex_automated :: bool
  ex_annotation :: string

record Rollouts =
  rl_tracking_label :: string
  rl_strategies :: "string list"

record gate_config =
  gc_mode :: Mode
  gc_on_error :: OnError
  gc_exempt :: Exempt
  gc_argocd_namespace :: string
  gc_rollouts :: Rollouts

definition default_gate_config :: gate_config where
  "default_gate_config =
     \<lparr>gc_mode = Enforce, gc_on_error = Deny,
      gc_exempt = \<lparr>ex_usernames = [''system:serviceaccount:argocd:argocd-application-controller''],
        ex_automated = True, ex_annotation = ''canary-gate.younsl.github.io/skip''\<rparr>,
      gc_argocd_namespace = ''argocd'',
      gc_rollouts = \<lparr>rl_tracking_label = ''argocd.argoproj.io/instance'', rl_strategies = [''canary'']\<rparr>\<rparr>"

definition KNOWN_STRATEGIES :: "string list" where
  "KNOWN_STRATEGIES = [''canary'', ''blueGreen'']"

definition validate_config :: "gate_config \<Rightarrow> (string, unit) res" where
  "validate_config cfg =
     (if trim (rl_tracking_label (gc_rollouts cfg)) = [] then Err ''rollouts.trackingLabel must not be empty''
      else if rl_strategies (gc_rollouts cfg) = [] then Err ''rollouts.strategies must not be empty''
      else case find (\<lambda>s. s \<notin> set KNOWN_STRATEGIES) (rl_strategies (gc_rollouts cfg)) of
             Some strategy \<Rightarrow> Err (''rollouts.strategies entry '' @ debug_str strategy @ '' is not one of '' @
               debug_strs KNOWN_STRATEGIES)
           | None \<Rightarrow>
               if trim (ex_annotation (gc_exempt cfg)) = [] then Err ''exempt.annotation must not be empty''
               else if trim (gc_argocd_namespace cfg) = [] then Err ''argocd.namespace must not be empty''
               else Ok ())"

text \<open>
  Decoding of the YAML text on top of the defaults, with unknown fields refused, is serde's: the
  argument \<open>decode\<close>. The name of the file goes into every error.
\<close>

datatype gate_config_error =
    ReadFailed string string
  | ParseFailed string string
  | InvalidConfig string string

definition parse_config :: "(string \<Rightarrow> string + gate_config) \<Rightarrow> string \<Rightarrow> (gate_config_error, gate_config) res" where
  "parse_config decode raw =
     rbind (map_err (ParseFailed ''<inline>'') (decode raw)) (\<lambda>cfg.
     case validate_config cfg of
       Ok u \<Rightarrow> Ok cfg
     | Err reason \<Rightarrow> Err (InvalidConfig ''<inline>'' reason)
     | Panic \<Rightarrow> Panic)"

definition load_config ::
    "(string \<Rightarrow> string + gate_config) \<Rightarrow> (string \<Rightarrow> string + string) \<Rightarrow> string \<Rightarrow> (gate_config_error, gate_config) res" where
  "load_config decode read_to_string path =
     rbind (map_err (ReadFailed path) (read_to_string path)) (\<lambda>raw.
     case parse_config decode raw of
       Err (ParseFailed p source) \<Rightarrow> Err (ParseFailed path source)
     | Err (InvalidConfig p reason) \<Rightarrow> Err (InvalidConfig path reason)
     | other \<Rightarrow> other)"

definition watches_strategy :: "gate_config \<Rightarrow> string \<Rightarrow> bool" where
  "watches_strategy cfg strategy \<longleftrightarrow> list_ex (\<lambda>s. s = strategy) (rl_strategies (gc_rollouts cfg))"

subsection \<open>Decoded documents\<close>

text \<open>A number that is no integer carries no value here: the gate reads integers only.\<close>

datatype json =
    JNull
  | JBool bool
  | JInt int
  | JReal
  | JString string
  | JArray "json list"
  | JObject "(string \<times> json) list"

fun json_get :: "json \<Rightarrow> string \<Rightarrow> json option" where
  "json_get (JObject fs) key = map_of fs key"
| "json_get _ key = None"

fun as_str :: "json \<Rightarrow> string option" where
  "as_str (JString s) = Some s"
| "as_str _ = None"

fun as_bool :: "json \<Rightarrow> bool option" where
  "as_bool (JBool b) = Some b"
| "as_bool _ = None"

fun as_array :: "json \<Rightarrow> json list option" where
  "as_array (JArray vs) = Some vs"
| "as_array _ = None"

fun json_as_i64 :: "json \<Rightarrow> int option" where
  "json_as_i64 (JInt n) = (if - i64_max - 1 \<le> n \<and> n \<le> i64_max then Some n else None)"
| "json_as_i64 _ = None"

fun nested :: "json \<Rightarrow> string list \<Rightarrow> json option" where
  "nested obj [] = Some obj"
| "nested obj (key # path) = Option.bind (json_get obj key) (\<lambda>v. nested v path)"

definition nested_str :: "json \<Rightarrow> string list \<Rightarrow> string" where
  "nested_str obj path = (case Option.bind (nested obj path) as_str of Some s \<Rightarrow> s | None \<Rightarrow> [])"

subsection \<open>Applications\<close>

record AppSnapshot =
  as_name :: string
  as_dest_namespace :: string
  as_skip_requested :: bool

datatype SnapshotError = MissingName

definition skip_requested :: "json \<Rightarrow> string \<Rightarrow> bool" where
  "skip_requested obj annotation \<longleftrightarrow>
     (case Option.bind (nested obj [''metadata'', ''annotations'', annotation]) as_str of
        Some value \<Rightarrow> eq_ignore_ascii_case (trim value) ''true''
      | None \<Rightarrow> False)"

definition snapshot_from_value :: "json \<Rightarrow> string \<Rightarrow> SnapshotError + AppSnapshot" where
  "snapshot_from_value obj skip_annotation =
     (let name = nested_str obj [''metadata'', ''name'']
      in if name = [] then Inl MissingName
         else Inr \<lparr>as_name = name,
                  as_dest_namespace = nested_str obj [''spec'', ''destination'', ''namespace''],
                  as_skip_requested = skip_requested obj skip_annotation\<rparr>)"

text \<open>What the API answers to a read of one object: the document (absent if it does not serialise), an
  error status with its code, or a failure of the call.\<close>

datatype get_answer = Found "json option" | ApiStatus nat string | CallFailed string

datatype AppReadError = GetError string string | SnapshotFailed SnapshotError

definition app_get :: "(string \<Rightarrow> get_answer) \<Rightarrow> string \<Rightarrow> string \<Rightarrow> AppReadError + AppSnapshot option" where
  "app_get api skip_annotation name =
     (case api name of
        Found obj \<Rightarrow>
          (let value = (case obj of Some v \<Rightarrow> v | None \<Rightarrow> JNull)
           in case snapshot_from_value value skip_annotation of
                Inr snapshot \<Rightarrow> Inr (Some snapshot)
              | Inl e \<Rightarrow> Inl (SnapshotFailed e))
      | ApiStatus code source \<Rightarrow> if code = 404 then Inr None else Inl (GetError name source)
      | CallFailed source \<Rightarrow> Inl (GetError name source))"

subsection \<open>Rollouts\<close>

record RolloutSnapshot =
  rs_name :: string
  rs_namespace :: string
  rs_strategy :: string
  rs_phase :: string
  rs_stable_hash :: string
  rs_current_hash :: string
  rs_current_step :: "int option"
  rs_total_steps :: nat
  rs_paused :: bool
  rs_aborted :: bool

definition strategy_of :: "json \<Rightarrow> string \<times> nat" where
  "strategy_of obj =
     (case nested obj [''spec'', ''strategy'', ''canary''] of
        Some canary \<Rightarrow>
          (''canary'', case Option.bind (json_get canary ''steps'') as_array of Some vs \<Rightarrow> length vs | None \<Rightarrow> 0)
      | None \<Rightarrow>
          if nested obj [''spec'', ''strategy'', ''blueGreen''] \<noteq> None then (''blueGreen'', 0) else ([], 0))"

definition rollout_from_value :: "json \<Rightarrow> RolloutSnapshot option" where
  "rollout_from_value obj =
     (let name = nested_str obj [''metadata'', ''name'']
      in if name = [] then None
         else let (strategy, total_steps) = strategy_of obj
              in Some \<lparr>rs_name = name,
                   rs_namespace = nested_str obj [''metadata'', ''namespace''],
                   rs_strategy = strategy,
                   rs_phase = nested_str obj [''status'', ''phase''],
                   rs_stable_hash = nested_str obj [''status'', ''stableRS''],
                   rs_current_hash = nested_str obj [''status'', ''currentPodHash''],
                   rs_current_step = Option.bind (nested obj [''status'', ''currentStepIndex'']) json_as_i64,
                   rs_total_steps = total_steps,
                   rs_paused = (case Option.bind (nested obj [''status'', ''pauseConditions'']) as_array of
                                  Some conditions \<Rightarrow> conditions \<noteq> [] | None \<Rightarrow> False),
                   rs_aborted = (case Option.bind (nested obj [''status'', ''abort'']) as_bool of
                                   Some b \<Rightarrow> b | None \<Rightarrow> False)\<rparr>)"

text \<open>
  The list call of the API: the scope is a namespace or the whole cluster, and an item is absent
  when it does not serialise.
\<close>

type_synonym list_api = "string option \<Rightarrow> string \<Rightarrow> string + json option list"

type_synonym rollout_reader = "string \<Rightarrow> string \<Rightarrow> string + RolloutSnapshot list"

definition rollout_list :: "list_api \<Rightarrow> rollout_reader" where
  "rollout_list api namespace label_selector =
     (case api (if namespace = [] then None else Some namespace) label_selector of
        Inl source \<Rightarrow> Inl (''list rollouts with selector '' @ label_selector @ '': '' @ source)
      | Inr items \<Rightarrow> Inr (filter_map (\<lambda>obj. Option.bind obj rollout_from_value) items))"

definition in_progress :: "RolloutSnapshot \<Rightarrow> bool" where
  "in_progress r \<longleftrightarrow>
     (rs_stable_hash r \<noteq> [] \<and> rs_current_hash r \<noteq> [] \<and> rs_stable_hash r \<noteq> rs_current_hash r) \<or>
     rs_paused r \<or> rs_aborted r"

definition step_position :: "RolloutSnapshot \<Rightarrow> string" where
  "step_position r =
     (case rs_current_step r of
        Some step \<Rightarrow>
          if rs_total_steps r > 0 then ''step '' @ show_int step @ ''/'' @ show_nat (rs_total_steps r) else []
      | None \<Rightarrow> [])"

record RolloutState =
  ro_name :: string
  ro_namespace :: string
  ro_strategy :: string
  ro_phase :: string
  ro_step :: string
  ro_paused :: bool
  ro_aborted :: bool
  ro_in_progress :: bool

definition rollout_state_of :: "RolloutSnapshot \<Rightarrow> RolloutState" where
  "rollout_state_of r =
     \<lparr>ro_name = rs_name r, ro_namespace = rs_namespace r, ro_strategy = rs_strategy r, ro_phase = rs_phase r,
      ro_step = step_position r, ro_paused = rs_paused r, ro_aborted = rs_aborted r,
      ro_in_progress = in_progress r\<rparr>"

lemma rollout_state_of_sel [simp]:
  "ro_in_progress (rollout_state_of r) = in_progress r"
  "ro_name (rollout_state_of r) = rs_name r"
  by (simp_all add: rollout_state_of_def)

lemma watches_strategy_iff: "watches_strategy cfg s \<longleftrightarrow> s \<in> set (rl_strategies (gc_rollouts cfg))"
  by (auto simp: watches_strategy_def list_ex_iff)

text \<open>What validation promises: something is watched, and only strategies the gate can judge.\<close>

lemma validate_config_ok:
  assumes "validate_config cfg = Ok u"
  shows "\<exists>s. watches_strategy cfg s" "watches_strategy cfg s \<Longrightarrow> s \<in> {''canary'', ''blueGreen''}"
proof -
  have ok: "rl_strategies (gc_rollouts cfg) \<noteq> []" "find (\<lambda>s. s \<notin> set KNOWN_STRATEGIES) (rl_strategies (gc_rollouts cfg)) = None"
    using assms by (auto simp: validate_config_def split: if_splits option.splits)
  show "\<exists>s. watches_strategy cfg s"
    using ok(1) by (auto simp: watches_strategy_iff intro: list.set_intros(1) simp flip: ex_in_conv set_empty)
  show "watches_strategy cfg s \<Longrightarrow> s \<in> {''canary'', ''blueGreen''}"
    using ok(2) by (auto simp: watches_strategy_iff find_None_iff KNOWN_STRATEGIES_def)
qed

end
