(* ===== verification/Gate_Evaluate.thy ===== *)
theory Gate_Evaluate
  imports Gate_Types "HOL-Library.Multiset" "HOL-Library.Product_Lexorder"
begin

section \<open>argocd-canary-gate: rules and engine (gate/types.rs, gate/evaluate.rs, engine.rs)\<close>

text \<open>
  The verdict on one Application: the pure rules over the Rollouts found, the verdict when the list
  of Rollouts failed, and the engine that looks the Rollouts up. The engine also returns the lookups
  it made, as pairs of namespace and selector. Metrics are left out.
\<close>

subsection \<open>Verdicts\<close>

datatype Code = CodeExempt | NoRollouts | CanaryInProgress | LookupFailed | Passed

fun code_as_str :: "Code \<Rightarrow> string" where
  "code_as_str CodeExempt = ''Exempt''"
| "code_as_str NoRollouts = ''NoRollouts''"
| "code_as_str CanaryInProgress = ''CanaryInProgress''"
| "code_as_str LookupFailed = ''LookupFailed''"
| "code_as_str Passed = ''Passed''"

record Decision =
  de_app :: string
  de_namespace :: string
  de_allowed :: bool
  de_code :: Code
  de_message :: string
  de_warnings :: "string list"
  de_rollouts :: "RolloutState list"

definition lookup_failed :: "AppSnapshot \<Rightarrow> string \<Rightarrow> gate_config \<Rightarrow> Decision" where
  "lookup_failed app error cfg =
     (let allowed = (gc_on_error cfg = Allow);
          outcome = (if allowed then ''allowed because onError is set to allow''
                     else ''blocked because onError is set to deny'');
          message = ''Sync of '' @ as_name app @ '' is '' @ outcome @
            ''. The gate could not list the Argo Rollouts this Application manages, so it cannot tell whether a canary is in progress: '' @
            error
      in \<lparr>de_app = as_name app, de_namespace = as_dest_namespace app, de_allowed = allowed, de_code = LookupFailed,
          de_message = message, de_warnings = (if allowed then [message] else []), de_rollouts = []\<rparr>)"

definition describe_rollout :: "RolloutState \<Rightarrow> string" where
  "describe_rollout s =
     (let condition = (if ro_step s \<noteq> [] then [ro_step s] else []) @
            (if ro_aborted s then [''aborting back to stable''] else if ro_paused s then [''paused''] else []);
          suffix_text = (if condition = [] then [] else '' at '' @ join '', '' condition)
      in ''Rollout '' @ ro_name s @ '' in namespace '' @ ro_namespace s @ '' has a '' @ ro_strategy s @
         '' update in progress'' @ suffix_text @ ''.'')"

definition where_clause :: "string \<Rightarrow> string" where
  "where_clause namespace = (if namespace = [] then '' in any namespace'' else '' in namespace '' @ namespace)"

definition plural :: "nat \<Rightarrow> string" where
  "plural n = (if n = 1 then [] else ''s'')"

definition sort_states :: "RolloutState list \<Rightarrow> RolloutState list" where
  "sort_states states = sort_key (\<lambda>s. (\<not> ro_in_progress s, ro_name s)) states"

definition gate_decide :: "AppSnapshot \<Rightarrow> RolloutSnapshot list \<Rightarrow> gate_config \<Rightarrow> Decision" where
  "gate_decide app rollouts cfg =
     (let verdict = \<lparr>de_app = as_name app, de_namespace = as_dest_namespace app, de_allowed = True, de_code = Passed,
            de_message = [], de_warnings = [], de_rollouts = []\<rparr>
      in if as_skip_requested app then
           verdict\<lparr>de_code := CodeExempt,
             de_message := ''Sync of '' @ as_name app @ '' is allowed. The Application carries the '' @
               ex_annotation (gc_exempt cfg) @ '' annotation, so no Rollout state was checked.''\<rparr>
         else
           (let watched = filter (\<lambda>r. watches_strategy cfg (rs_strategy r)) rollouts
            in if watched = [] then
                 verdict\<lparr>de_code := NoRollouts,
                   de_message := ''Sync of '' @ as_name app @ '' is allowed. No Rollout using a watched strategy ('' @
                     join '', '' (rl_strategies (gc_rollouts cfg)) @ '') carries the label '' @
                     rl_tracking_label (gc_rollouts cfg) @ ''='' @ as_name app @
                     where_clause (as_dest_namespace app) @ ''.''\<rparr>
               else
                 (let states = sort_states (map rollout_state_of watched);
                      active = filter ro_in_progress states
                  in if active = [] then
                       verdict\<lparr>de_message := ''Sync of '' @ as_name app @ '' is allowed. '' @ show_nat (length states) @
                           '' Rollout'' @ plural (length states) @ '' checked, none has an update in progress.'',
                         de_rollouts := states\<rparr>
                     else
                       (let detail = join '' '' (map describe_rollout active);
                            advice = ''Wait for the rollout to finish, promote it, or abort it, then sync. To bypass this gate once, annotate the Application with '' @
                              ex_annotation (gc_exempt cfg) @ ''=true.''
                        in if gc_mode cfg = Enforce then
                             verdict\<lparr>de_code := CanaryInProgress, de_allowed := False,
                               de_message := ''Sync of '' @ as_name app @ '' is blocked. '' @ detail @
                                 '' Syncing now would hand the Rollout new desired state mid-update and restart the progression. '' @
                                 advice,
                               de_rollouts := states\<rparr>
                           else
                             (let message = ''Sync of '' @ as_name app @
                                    '' proceeded while an update was in progress because mode is set to warn. '' @
                                    detail @ '' '' @ advice
                              in verdict\<lparr>de_code := CanaryInProgress, de_allowed := True, de_message := message,
                                   de_warnings := [message], de_rollouts := states\<rparr>)))))"

subsection \<open>Engine\<close>

record Engine =
  en_cfg :: gate_config
  en_reader :: rollout_reader

definition evaluate :: "Engine \<Rightarrow> AppSnapshot \<Rightarrow> Decision \<times> (string \<times> string) list" where
  "evaluate engine app =
     (if as_skip_requested app then (gate_decide app [] (en_cfg engine), [])
      else
        (let selector = rl_tracking_label (gc_rollouts (en_cfg engine)) @ ''='' @ as_name app
         in (case en_reader engine (as_dest_namespace app) selector of
               Inr rollouts \<Rightarrow> gate_decide app rollouts (en_cfg engine)
             | Inl err \<Rightarrow> lookup_failed app err (en_cfg engine),
             [(as_dest_namespace app, selector)])))"

subsection \<open>When a verdict blocks\<close>

definition blocking :: "gate_config \<Rightarrow> RolloutSnapshot \<Rightarrow> bool" where
  "blocking cfg r \<longleftrightarrow> watches_strategy cfg (rs_strategy r) \<and> in_progress r"

lemma active_empty_iff:
  "filter ro_in_progress (sort_states (map rollout_state_of rs)) = [] \<longleftrightarrow> \<not> list_ex in_progress rs"
  by (auto simp: sort_states_def filter_empty_conv list_ex_iff)

lemma gate_decide_allowed:
  "de_allowed (gate_decide app rs cfg) \<longleftrightarrow>
     as_skip_requested app \<or> gc_mode cfg = Warn \<or> \<not> list_ex (blocking cfg) rs"
proof -
  have "list_ex in_progress (filter (\<lambda>r. watches_strategy cfg (rs_strategy r)) rs) \<longleftrightarrow> list_ex (blocking cfg) rs"
    by (auto simp: list_ex_iff blocking_def)
  then show ?thesis
    by (cases "gc_mode cfg") (auto simp: gate_decide_def Let_def active_empty_iff)
qed

lemma lookup_failed_allowed [simp]: "de_allowed (lookup_failed app e cfg) \<longleftrightarrow> gc_on_error cfg = Allow"
  by (simp add: lookup_failed_def Let_def)

text \<open>The Rollouts of an Application as the engine asks for them.\<close>

definition rollouts_of :: "Engine \<Rightarrow> AppSnapshot \<Rightarrow> string + RolloutSnapshot list" where
  "rollouts_of engine app =
     en_reader engine (as_dest_namespace app) (rl_tracking_label (gc_rollouts (en_cfg engine)) @ ''='' @ as_name app)"

definition refuses :: "Engine \<Rightarrow> AppSnapshot \<Rightarrow> bool" where
  "refuses engine app \<longleftrightarrow> \<not> as_skip_requested app \<and>
     (case rollouts_of engine app of
        Inl err \<Rightarrow> gc_on_error (en_cfg engine) = Deny
      | Inr rs \<Rightarrow> gc_mode (en_cfg engine) = Enforce \<and> list_ex (blocking (en_cfg engine)) rs)"

lemma evaluate_allowed: "de_allowed (fst (evaluate engine app)) \<longleftrightarrow> \<not> refuses engine app"
proof -
  have "gc_on_error c = Allow \<longleftrightarrow> gc_on_error c \<noteq> Deny" "gc_mode c = Warn \<longleftrightarrow> gc_mode c \<noteq> Enforce" for c :: gate_config
    by (cases "gc_on_error c"; simp) (cases "gc_mode c"; simp)
  then show ?thesis
    by (auto simp: evaluate_def refuses_def rollouts_of_def gate_decide_allowed Let_def split: sum.splits)
qed

subsection \<open>What a verdict carries\<close>

lemma sort_states_in_progress_first:
  "sort_states ss = filter ro_in_progress (sort_states ss) @ filter (\<lambda>s. \<not> ro_in_progress s) (sort_states ss)"
proof -
  have "sorted (map (\<lambda>s. (\<not> ro_in_progress s, ro_name s)) xs) \<Longrightarrow>
      xs = filter ro_in_progress xs @ filter (\<lambda>s. \<not> ro_in_progress s) xs" for xs
    by (induction xs) (auto simp: less_eq_prod_def filter_empty_conv filter_id_conv)
  from this [OF sorted_sort_key] show ?thesis unfolding sort_states_def .
qed

lemma sort_states_names: "sorted (map ro_name (filter (\<lambda>s. ro_in_progress s = b) (sort_states ss)))"
proof -
  have "sorted (map (\<lambda>s. (\<not> ro_in_progress s, ro_name s)) xs) \<Longrightarrow>
      sorted (map ro_name (filter (\<lambda>s. ro_in_progress s = b) xs))" for xs
    by (induction xs) (auto simp: less_eq_prod_def)
  from this [OF sorted_sort_key] show ?thesis unfolding sort_states_def .
qed

lemma hd_in_progress:
  assumes "filter ro_in_progress (sort_states ss) \<noteq> []"
  shows "ro_in_progress (hd (sort_states ss))"
proof -
  have "hd (sort_states ss) = hd (filter ro_in_progress (sort_states ss))"
    by (subst sort_states_in_progress_first) (simp add: assms)
  then show ?thesis
    using hd_in_set [OF assms] by simp
qed

lemma sort_states_Nil [simp]: "sort_states ss = [] \<longleftrightarrow> ss = []"
  unfolding sort_states_def by (metis length_0_conv length_sort)

lemma sort_states_empty [simp]: "sort_states [] = []"
  by simp

lemma gate_decide_rollouts:
  "de_rollouts (gate_decide app rs cfg) =
     (if as_skip_requested app then []
      else sort_states (map rollout_state_of (filter (\<lambda>r. watches_strategy cfg (rs_strategy r)) rs)))"
  by (auto simp: gate_decide_def Let_def)

text \<open>What each code of a verdict goes with.\<close>

definition decision_ok :: "Decision \<Rightarrow> bool" where
  "decision_ok v \<longleftrightarrow>
     (case de_code v of
        CodeExempt \<Rightarrow> de_allowed v \<and> de_warnings v = [] \<and> de_rollouts v = []
      | NoRollouts \<Rightarrow> de_allowed v \<and> de_warnings v = [] \<and> de_rollouts v = []
      | Passed \<Rightarrow> de_allowed v \<and> de_warnings v = [] \<and> de_rollouts v \<noteq> [] \<and> \<not> list_ex ro_in_progress (de_rollouts v)
      | CanaryInProgress \<Rightarrow> de_rollouts v \<noteq> [] \<and> ro_in_progress (hd (de_rollouts v)) \<and>
          de_warnings v = (if de_allowed v then [de_message v] else [])
      | LookupFailed \<Rightarrow> de_rollouts v = [] \<and> de_warnings v = (if de_allowed v then [de_message v] else []))"

lemma gate_decide_ok: "decision_ok (gate_decide app rs cfg)"
  by (auto simp: decision_ok_def gate_decide_def Let_def hd_in_progress list_ex_iff filter_empty_conv)

lemma lookup_failed_ok: "decision_ok (lookup_failed app e cfg)"
  by (simp add: decision_ok_def lookup_failed_def Let_def)

lemma evaluate_ok: "decision_ok (fst (evaluate engine app))"
  by (auto simp: evaluate_def gate_decide_ok lookup_failed_ok Let_def split: sum.splits)

subsection \<open>Examples\<close>

definition paused_canary :: RolloutSnapshot where
  "paused_canary = \<lparr>rs_name = ''pay'', rs_namespace = ''prd'', rs_strategy = ''canary'', rs_phase = ''Paused'',
     rs_stable_hash = ''a1'', rs_current_hash = ''b2'', rs_current_step = Some 3, rs_total_steps = 8,
     rs_paused = True, rs_aborted = False\<rparr>"

definition settled_canary :: RolloutSnapshot where
  "settled_canary = paused_canary\<lparr>rs_name := ''api'', rs_stable_hash := ''b2'', rs_paused := False\<rparr>"

definition demo_engine :: Engine where
  "demo_engine = \<lparr>en_cfg = default_gate_config, en_reader = (\<lambda>ns sel. Inr [settled_canary, paused_canary])\<rparr>"

definition demo_app :: AppSnapshot where
  "demo_app = \<lparr>as_name = ''shop'', as_dest_namespace = ''prd'', as_skip_requested = False\<rparr>"

subsection \<open>Properties\<close>

text \<open>
  Every verdict is well formed. An exempt, an unmatched and a passed Application are allowed
  without a warning, and a passed one lists Rollouts of which none is in progress. A verdict for a
  canary in progress lists a Rollout in progress first. Where a canary is in progress or the lookup
  failed and the sync is allowed all the same, the message is attached as a warning: the gate is
  never opened silently.
\<close>

theorem verdicts_are_well_formed:
  "let v = fst (evaluate engine app)
   in case de_code v of
        CodeExempt \<Rightarrow> de_allowed v \<and> de_warnings v = [] \<and> de_rollouts v = []
      | NoRollouts \<Rightarrow> de_allowed v \<and> de_warnings v = [] \<and> de_rollouts v = []
      | Passed \<Rightarrow> de_allowed v \<and> de_warnings v = [] \<and> de_rollouts v \<noteq> [] \<and> \<not> list_ex ro_in_progress (de_rollouts v)
      | CanaryInProgress \<Rightarrow> de_rollouts v \<noteq> [] \<and> ro_in_progress (hd (de_rollouts v)) \<and>
          de_warnings v = (if de_allowed v then [de_message v] else [])
      | LookupFailed \<Rightarrow> de_rollouts v = [] \<and> de_warnings v = (if de_allowed v then [de_message v] else [])"
  using evaluate_ok [of engine app] by (simp only: Let_def decision_ok_def)

text \<open>
  When the lookup succeeds for an Application that did not opt out, the verdict lists exactly the
  Rollouts with a watched strategy, each once: first those in progress and then the settled ones,
  both in the order of their names.
\<close>

theorem verdict_lists_watched_rollouts:
  assumes "\<not> as_skip_requested app" "rollouts_of engine app = Inr rs"
  defines "v \<equiv> fst (evaluate engine app)"
  shows "mset (de_rollouts v) =
      mset (map rollout_state_of (filter (\<lambda>r. watches_strategy (en_cfg engine) (rs_strategy r)) rs)) \<and>
    (\<exists>active settled. de_rollouts v = active @ settled \<and> list_all ro_in_progress active \<and>
       \<not> list_ex ro_in_progress settled \<and> sorted (map ro_name active) \<and> sorted (map ro_name settled))"
proof -
  let ?ss = "map rollout_state_of (filter (\<lambda>r. watches_strategy (en_cfg engine) (rs_strategy r)) rs)"
  have v: "de_rollouts v = sort_states ?ss"
    using assms by (simp add: evaluate_def rollouts_of_def gate_decide_rollouts Let_def)
  have "mset (sort_states ?ss) = mset ?ss" by (simp add: sort_states_def del: mset_map)
  moreover have "sorted (map ro_name (filter ro_in_progress (sort_states ?ss)))"
      "sorted (map ro_name (filter (\<lambda>s. \<not> ro_in_progress s) (sort_states ?ss)))"
    using sort_states_names [of True ?ss] sort_states_names [of False ?ss] by simp_all
  ultimately show ?thesis
    unfolding v using sort_states_in_progress_first [of ?ss]
    by (intro conjI exI [of _ "filter ro_in_progress (sort_states ?ss)"]
        exI [of _ "filter (\<lambda>s. \<not> ro_in_progress s) (sort_states ?ss)"])
      (simp_all add: list_all_iff list_ex_iff)
qed

theorem verdict_lists_watched_rollouts_witness:
  "mset (de_rollouts (fst (evaluate demo_engine demo_app))) =
     {#rollout_state_of settled_canary, rollout_state_of paused_canary#}"
proof -
  have "\<not> as_skip_requested demo_app" "rollouts_of demo_engine demo_app = Inr [settled_canary, paused_canary]"
    by (simp_all add: demo_app_def rollouts_of_def demo_engine_def)
  from verdict_lists_watched_rollouts [OF this] show ?thesis
    by (simp add: demo_engine_def default_gate_config_def watches_strategy_iff settled_canary_def paused_canary_def)
qed

end
