(* ===== verification/Gate_Admission.thy ===== *)
theory Gate_Admission
  imports Gate_Evaluate
begin

section \<open>argocd-canary-gate: webhook, events and preview (admission/, events.rs, extension.rs)\<close>

text \<open>
  The admission webhook from the decoded review to the response and the queued Kubernetes event, the
  bounded event message, and the preview endpoint of the UI extension. Decoding of the request body
  is serde's and an argument; a string is the list of its bytes, so the cut of a long message is
  modelled at byte level with the UTF-8 character boundaries written out.
\<close>

subsection \<open>The review envelope\<close>

record UserInfo =
  ui_username :: string
  ui_groups :: "string list"

record Request =
  rq_uid :: string
  rq_name :: string
  rq_namespace :: string
  rq_operation :: string
  rq_user_info :: UserInfo
  rq_object :: "json option"
  rq_old_object :: "json option"
  rq_dry_run :: bool

record Status =
  ss_code :: int
  ss_reason :: string
  ss_message :: string

record Response =
  rp_uid :: string
  rp_allowed :: bool
  rp_status :: "Status option"
  rp_warnings :: "string list"

record ReviewResponse =
  rr_api_version :: string
  rr_kind :: string
  rr_response :: Response

definition allow :: "string \<Rightarrow> string list \<Rightarrow> ReviewResponse" where
  "allow uid warnings =
     \<lparr>rr_api_version = ''admission.k8s.io/v1'', rr_kind = ''AdmissionReview'',
      rr_response = \<lparr>rp_uid = uid, rp_allowed = True, rp_status = None, rp_warnings = warnings\<rparr>\<rparr>"

definition deny :: "string \<Rightarrow> string \<Rightarrow> string \<Rightarrow> ReviewResponse" where
  "deny uid reason message =
     \<lparr>rr_api_version = ''admission.k8s.io/v1'', rr_kind = ''AdmissionReview'',
      rr_response = \<lparr>rp_uid = uid, rp_allowed = False,
        rp_status = Some \<lparr>ss_code = 403, ss_reason = reason, ss_message = message\<rparr>, rp_warnings = []\<rparr>\<rparr>"

definition has_operation :: "json option \<Rightarrow> bool" where
  "has_operation obj \<longleftrightarrow>
     (case Option.bind obj (\<lambda>v. json_get v ''operation'') of Some v \<Rightarrow> v \<noteq> JNull | None \<Rightarrow> False)"

definition is_sync_request :: "Request \<Rightarrow> bool" where
  "is_sync_request r \<longleftrightarrow> has_operation (rq_object r) \<and> \<not> has_operation (rq_old_object r)"

definition is_automated :: "Request \<Rightarrow> bool" where
  "is_automated r \<longleftrightarrow>
     (case Option.bind (Option.bind (rq_object r)
              (\<lambda>obj. nested obj [''operation'', ''initiatedBy'', ''automated''])) as_bool of
        Some b \<Rightarrow> b
      | None \<Rightarrow> False)"

definition initiated_by :: "Request \<Rightarrow> string" where
  "initiated_by r =
     (case rq_object r of Some obj \<Rightarrow> nested_str obj [''operation'', ''initiatedBy'', ''username''] | None \<Rightarrow> [])"

definition object_uid :: "Request \<Rightarrow> string" where
  "object_uid r = (case rq_object r of Some obj \<Rightarrow> nested_str obj [''metadata'', ''uid''] | None \<Rightarrow> [])"

definition username :: "Request \<Rightarrow> string" where
  "username r = (if trim (ui_username (rq_user_info r)) = [] then ''<unknown>'' else ui_username (rq_user_info r))"

subsection \<open>Events\<close>

definition MAX_MESSAGE_BYTES :: nat where "MAX_MESSAGE_BYTES = 1024"

definition NOTE :: string where
  "NOTE = '' The rest of this message was cut because the event was too long.''"

definition is_char_boundary :: "string \<Rightarrow> nat \<Rightarrow> bool" where
  "is_char_boundary s i \<longleftrightarrow> i = 0 \<or> i = length s \<or> (i < length s \<and> \<not> continuation_byte (s ! i))"

function back_up :: "string \<Rightarrow> nat \<Rightarrow> nat" where
  "back_up message i = (if \<not> is_char_boundary message i then back_up message (i - 1) else i)"
  by pat_completeness auto
termination
  by (relation "measure snd") (auto simp: is_char_boundary_def)

declare back_up.simps [simp del]

definition truncate_message :: "string \<Rightarrow> string" where
  "truncate_message message =
     (if length message \<le> MAX_MESSAGE_BYTES then message
      else take (back_up message (MAX_MESSAGE_BYTES - length NOTE)) message @ NOTE)"

definition describe_verdict :: "Decision \<Rightarrow> (string \<times> string \<times> string) option" where
  "describe_verdict v =
     (if \<not> de_allowed v then Some (''Warning'', ''CanaryBlocked'', truncate_message (de_message v))
      else if de_warnings v \<noteq> [] then Some (''Normal'', ''CanaryWarning'', truncate_message (de_message v))
      else None)"

record gate_event =
  ge_name :: string
  ge_namespace :: string
  ge_object_api_version :: string
  ge_object_kind :: string
  ge_object_name :: string
  ge_object_uid :: "string option"
  ge_reason :: string
  ge_message :: string
  ge_type :: string
  ge_component :: string
  ge_count :: nat

text \<open>The event is named after the Application and the nanoseconds of the clock; its timestamps are left out.\<close>

definition build_event :: "nat \<Rightarrow> string \<Rightarrow> string \<Rightarrow> string \<Rightarrow> string \<Rightarrow> string \<Rightarrow> string \<Rightarrow> gate_event" where
  "build_event nanos namespace name uid event_type reason message =
     \<lparr>ge_name = name @ ''.'' @ show_hex nanos, ge_namespace = namespace,
      ge_object_api_version = ''argoproj.io/v1alpha1'', ge_object_kind = ''Application'', ge_object_name = name,
      ge_object_uid = (if uid \<noteq> [] then Some uid else None), ge_reason = reason, ge_message = message,
      ge_type = event_type, ge_component = ''argocd-canary-gate'', ge_count = 1\<rparr>"

text \<open>The queue of the recorder; the worker that drains it is outside, and shutdown closes it.\<close>

record Recorder =
  rc_open :: bool
  rc_queue :: "gate_event list"

definition recorder_emit :: "nat \<Rightarrow> Recorder \<Rightarrow> string \<Rightarrow> string \<Rightarrow> string \<Rightarrow> Decision \<Rightarrow> Recorder" where
  "recorder_emit nanos rc namespace name uid verdict =
     (case describe_verdict verdict of
        None \<Rightarrow> rc
      | Some (event_type, reason, message) \<Rightarrow>
          (let event = build_event nanos namespace name uid event_type reason message
           in if rc_open rc then rc\<lparr>rc_queue := rc_queue rc @ [event]\<rparr> else rc))"

definition recorder_shutdown :: "Recorder \<Rightarrow> Recorder" where
  "recorder_shutdown rc = rc\<lparr>rc_open := False\<rparr>"

subsection \<open>The handler\<close>

record AdmissionState =
  ad_engine :: Engine
  ad_events :: "Recorder option"

record GateOutcome =
  go_response :: ReviewResponse
  go_outcome :: string
  go_reason :: string
  go_verdict :: "Decision option"

definition skipped :: "string \<Rightarrow> string \<Rightarrow> GateOutcome" where
  "skipped uid reason =
     \<lparr>go_response = allow uid [], go_outcome = ''skipped'', go_reason = reason, go_verdict = None\<rparr>"

fun snapshot_error_to_string :: "SnapshotError \<Rightarrow> string" where
  "snapshot_error_to_string MissingName = ''application has no metadata.name''"

definition admission_decide :: "Engine \<Rightarrow> Request \<Rightarrow> GateOutcome \<times> (string \<times> string) list" where
  "admission_decide engine r =
     (let uid = rq_uid r; cfg = en_cfg engine
      in if \<not> is_sync_request r then (skipped uid ''not a sync request'', [])
         else if list_ex (\<lambda>u. u = username r) (ex_usernames (gc_exempt cfg)) then (skipped uid ''principal is exempt'', [])
         else if ex_automated (gc_exempt cfg) \<and> is_automated r then (skipped uid ''operation is automated'', [])
         else case rq_object r of
                None \<Rightarrow>
                  (\<lparr>go_response = allow uid [''canary gate could not read the Application object''],
                    go_outcome = ''allowed'', go_reason = ''no object in the request'', go_verdict = None\<rparr>, [])
              | Some object \<Rightarrow>
                  (case snapshot_from_value object (ex_annotation (gc_exempt cfg)) of
                     Inr snapshot \<Rightarrow>
                       (let (verdict, lookups) = evaluate engine snapshot
                        in if de_allowed verdict then
                             (\<lparr>go_response = allow uid (de_warnings verdict), go_outcome = ''allowed'',
                               go_reason = code_as_str (de_code verdict), go_verdict = Some verdict\<rparr>, lookups)
                           else
                             (\<lparr>go_response = deny uid ''CanaryGateBlocked'' (de_message verdict), go_outcome = ''denied'',
                               go_reason = code_as_str (de_code verdict), go_verdict = Some verdict\<rparr>, lookups))
                   | Inl err \<Rightarrow>
                       (\<lparr>go_response = allow uid [''canary gate could not parse the Application object: '' @
                           snapshot_error_to_string err],
                         go_outcome = ''allowed'', go_reason = ''unparsable object: '' @ snapshot_error_to_string err,
                         go_verdict = None\<rparr>, [])))"

definition emit_verdict :: "nat \<Rightarrow> AdmissionState \<Rightarrow> Request \<Rightarrow> GateOutcome \<Rightarrow> AdmissionState" where
  "emit_verdict nanos st r result =
     (case (ad_events st, go_verdict result) of
        (Some events, Some verdict) \<Rightarrow>
          if rq_dry_run r then st
          else st\<lparr>ad_events := Some (recorder_emit nanos events (rq_namespace r) (rq_name r) (object_uid r) verdict)\<rparr>
      | _ \<Rightarrow> st)"

definition validate :: "('b \<Rightarrow> string + Request option) \<Rightarrow> nat \<Rightarrow> AdmissionState \<Rightarrow> 'b \<Rightarrow> ReviewResponse \<times> AdmissionState" where
  "validate decode nanos st body =
     (case decode body of
        Inl err \<Rightarrow> (allow [] [''canary gate could not decode the AdmissionReview''], st)
      | Inr None \<Rightarrow> (allow [] [''canary gate received an AdmissionReview without a request''], st)
      | Inr (Some request) \<Rightarrow>
          (let result = fst (admission_decide (ad_engine st) request)
           in (go_response result, emit_verdict nanos st request result)))"

definition rollout_summary :: "RolloutState list \<Rightarrow> string" where
  "rollout_summary rollouts =
     join '' '' (map (\<lambda>r.
       let flags = (if ro_in_progress r then [''in-progress''] else []) @ (if ro_paused r then [''paused''] else []) @
             (if ro_aborted r then [''aborted''] else []);
           flags_text = (if flags = [] then ''settled'' else join ''+'' flags);
           step = (if ro_step r = [] then [] else '' '' @ ro_step r)
       in ro_name r @ ''='' @ flags_text @ step) rollouts)"

subsection \<open>The preview\<close>

text \<open>The header and the query parameter arrive decoded; absent or undecodable is \<^const>\<open>None\<close>.\<close>

definition app_name_from :: "string option \<Rightarrow> string option \<Rightarrow> string option" where
  "app_name_from header query =
     (let from_query = (case map_option trim query of Some s \<Rightarrow> if s \<noteq> [] then Some s else None | None \<Rightarrow> None)
      in case header of
           Some raw \<Rightarrow>
             (let name = trim (case split_once '':'' raw of Some (ns, name) \<Rightarrow> name | None \<Rightarrow> raw)
              in if name \<noteq> [] then Some name else from_query)
         | None \<Rightarrow> from_query)"

datatype preview = BadRequest | BadGateway AppReadError | NotFound string | PreviewVerdict Decision

definition gate_preview :: "Engine \<Rightarrow> (string \<Rightarrow> get_answer) \<Rightarrow> string option \<Rightarrow> string option \<Rightarrow> preview" where
  "gate_preview engine api header query =
     (case app_name_from header query of
        None \<Rightarrow> BadRequest
      | Some app_name \<Rightarrow>
          (case app_get api (ex_annotation (gc_exempt (en_cfg engine))) app_name of
             Inl err \<Rightarrow> BadGateway err
           | Inr None \<Rightarrow> NotFound app_name
           | Inr (Some snapshot) \<Rightarrow> PreviewVerdict (fst (evaluate engine snapshot))))"

subsection \<open>Cutting at a character boundary\<close>

lemma back_up_boundary: "is_char_boundary s (back_up s i) \<and> back_up s i \<le> i"
proof (induction s i rule: back_up.induct)
  case (1 s i)
  then show ?case by (cases "is_char_boundary s i") (auto simp: back_up.simps [of s i])
qed

lemma back_up_greatest: "is_char_boundary s j \<Longrightarrow> j \<le> i \<Longrightarrow> j \<le> back_up s i"
proof (induction s i rule: back_up.induct)
  case (1 s i)
  show ?case
  proof (cases "is_char_boundary s i")
    case True
    then show ?thesis using 1(3) by (simp add: back_up.simps [of s i])
  next
    case False
    then have "j \<le> i - 1" using 1(2,3) by (cases "i = j") auto
    then show ?thesis using 1(1) [OF False 1(2)] False by (simp add: back_up.simps [of s i])
  qed
qed

text \<open>The byte shape of UTF-8 text: a leading byte tells how many continuation bytes follow.\<close>

definition utf8_len :: "char \<Rightarrow> nat" where
  "utf8_len c =
     (let n = (of_char c :: nat)
      in if n < 128 then 1 else if n < 192 then 0 else if n < 224 then 2 else if n < 240 then 3 else if n < 248 then 4 else 0)"

lemma utf8_len_le: "utf8_len c \<le> 4"
  by (simp add: utf8_len_def Let_def)

function utf8_text :: "string \<Rightarrow> bool" where
  "utf8_text [] = True"
| "utf8_text (c # cs) \<longleftrightarrow>
     0 < utf8_len c \<and> utf8_len c - 1 \<le> length cs \<and> list_all continuation_byte (take (utf8_len c - 1) cs) \<and>
     utf8_text (drop (utf8_len c - 1) cs)"
  by pat_completeness auto
termination by (relation "measure length") auto

lemma utf8_text_append: "utf8_text s \<Longrightarrow> utf8_text t \<Longrightarrow> utf8_text (s @ t)"
  by (induction s rule: utf8_text.induct) auto

text \<open>An index either lies inside the first character or in the rest of the text.\<close>

lemma boundary_Cons:
  assumes "utf8_text (c # cs)" "0 < i"
  shows "is_char_boundary (c # cs) i \<longleftrightarrow>
    utf8_len c \<le> i \<and> is_char_boundary (drop (utf8_len c - 1) cs) (i - utf8_len c)"
proof (cases "i < utf8_len c")
  case True
  then have "i - 1 < utf8_len c - 1" "i - 1 < length cs" using assms by auto
  then have "continuation_byte (cs ! (i - 1))"
    using assms(1) by (auto simp: list_all_length)
  then show ?thesis
    using True assms \<open>i - 1 < length cs\<close> by (auto simp: is_char_boundary_def nth_Cons')
next
  case False
  obtain k where k: "utf8_len c = Suc k" using assms(1) by (cases "utf8_len c") auto
  obtain j where j: "i = Suc k + j" using False k le_Suc_ex not_less by metis
  have "k \<le> length cs" using assms(1) k by simp
  moreover have "\<not> continuation_byte (cs ! k)" if "j = 0" "k < length cs"
    using assms(1) that k
    by (cases "drop k cs") (auto simp: Cons_nth_drop_Suc [symmetric] utf8_len_def continuation_byte_def Let_def split: if_splits)
  ultimately show ?thesis
    using k j by (auto simp: is_char_boundary_def)
qed

lemma utf8_text_take: "utf8_text s \<Longrightarrow> is_char_boundary s i \<Longrightarrow> utf8_text (take i s)"
proof (induction s arbitrary: i rule: utf8_text.induct)
  case (2 c cs)
  show ?case
  proof (cases "i = 0")
    case False
    then have b: "utf8_len c \<le> i" "is_char_boundary (drop (utf8_len c - 1) cs) (i - utf8_len c)"
      using boundary_Cons [OF 2(2)] 2(3) by auto
    obtain k where k: "utf8_len c = Suc k" using 2(2) by (cases "utf8_len c") auto
    have "utf8_text (take (i - utf8_len c) (drop (utf8_len c - 1) cs))"
      using 2(1) [OF _ b(2)] 2(2) by simp
    then show ?thesis
      using 2(2) b(1) k by (cases i) (auto simp: take_drop min_def)
  qed simp
qed simp

lemma boundary_near: "utf8_text s \<Longrightarrow> i \<le> length s \<Longrightarrow> \<exists>j \<le> i. i \<le> j + 3 \<and> is_char_boundary s j"
proof (induction s arbitrary: i rule: utf8_text.induct)
  case (2 c cs)
  show ?case
  proof (cases "i < utf8_len c")
    case True
    then show ?thesis
      using utf8_len_le [of c] by (intro exI [of _ 0]) (auto simp: is_char_boundary_def)
  next
    case False
    have "i - utf8_len c \<le> length (drop (utf8_len c - 1) cs)" "utf8_text (drop (utf8_len c - 1) cs)"
      using 2(2,3) by auto
    then obtain j where "j \<le> i - utf8_len c" "i - utf8_len c \<le> j + 3"
        "is_char_boundary (drop (utf8_len c - 1) cs) j"
      using 2(1) by blast
    then show ?thesis
      using False 2(2) boundary_Cons [OF 2(2), of "j + utf8_len c"] by (intro exI [of _ "j + utf8_len c"]) auto
  qed
qed (simp add: is_char_boundary_def)

lemma length_NOTE [simp]: "length NOTE = 65"
  by (simp add: NOTE_def)

lemma utf8_text_NOTE: "utf8_text NOTE"
  by code_simp

subsection \<open>The handler's answer\<close>

lemma allowed_simps [simp]:
  "rp_allowed (rr_response (allow uid ws))" "\<not> rp_allowed (rr_response (deny uid reason message))"
  by (simp_all add: allow_def deny_def)

text \<open>The Application a request puts to the rules, if it gets that far.\<close>

definition judged :: "gate_config \<Rightarrow> Request \<Rightarrow> AppSnapshot option" where
  "judged cfg r =
     (if is_sync_request r \<and> username r \<notin> set (ex_usernames (gc_exempt cfg)) \<and>
         \<not> (ex_automated (gc_exempt cfg) \<and> is_automated r)
      then (case rq_object r of
              Some object \<Rightarrow> (case snapshot_from_value object (ex_annotation (gc_exempt cfg)) of
                 Inr app \<Rightarrow> Some app | Inl e \<Rightarrow> None)
            | None \<Rightarrow> None)
      else None)"

lemma admission_decide_verdict:
  "go_verdict (fst (admission_decide engine r)) =
     map_option (\<lambda>app. fst (evaluate engine app)) (judged (en_cfg engine) r)"
  by (auto simp: admission_decide_def judged_def skipped_def list_ex_iff Let_def case_prod_unfold
      split: option.splits sum.splits)

lemma admission_decide_allowed:
  "rp_allowed (rr_response (go_response (fst (admission_decide engine r)))) \<longleftrightarrow>
     (case judged (en_cfg engine) r of Some app \<Rightarrow> \<not> refuses engine app | None \<Rightarrow> True)"
  by (auto simp: admission_decide_def judged_def skipped_def list_ex_iff Let_def case_prod_unfold evaluate_allowed
      split: option.splits sum.splits)

lemma admission_decide_dry_run [simp]: "admission_decide engine (r\<lparr>rq_dry_run := b\<rparr>) = admission_decide engine r"
  by (simp add: admission_decide_def is_sync_request_def is_automated_def username_def Let_def)

text \<open>The branch for a request without an object is never taken: a sync request has one.\<close>

lemma sync_request_has_object: "is_sync_request r \<Longrightarrow> \<exists>obj. rq_object r = Some obj"
  by (cases "rq_object r") (auto simp: is_sync_request_def has_operation_def)

subsection \<open>Examples\<close>

definition app_doc :: json where
  "app_doc = JObject
     [(''metadata'', JObject [(''name'', JString ''shop''), (''uid'', JString ''u-1'')]),
      (''spec'', JObject [(''destination'', JObject [(''namespace'', JString ''prd'')])]),
      (''operation'', JObject [(''sync'', JObject [])])]"

definition sync_request :: Request where
  "sync_request = \<lparr>rq_uid = ''r-1'', rq_name = ''shop'', rq_namespace = ''argocd'', rq_operation = ''UPDATE'',
     rq_user_info = \<lparr>ui_username = ''system:serviceaccount:argocd:argocd-server'', ui_groups = []\<rparr>,
     rq_object = Some app_doc, rq_old_object = None, rq_dry_run = False\<rparr>"

lemma judged_sync_request: "judged default_gate_config sync_request = Some demo_app"
  by code_simp

lemma demo_engine_cfg [simp]: "en_cfg demo_engine = default_gate_config"
  by (simp add: demo_engine_def)

definition demo_admission :: AdmissionState where
  "demo_admission = \<lparr>ad_engine = demo_engine, ad_events = Some \<lparr>rc_open = True, rc_queue = []\<rparr>\<rparr>"

subsection \<open>Properties\<close>

text \<open>
  C5. The webhook denies a review exactly when it can be read, starts a sync, comes neither from an
  exempt principal nor from an exempt automation, names an Application that has not opted out, and
  either the Rollouts of that Application could not be listed under the deny policy, or the mode is
  enforce and one of them has a watched strategy and an update in progress. Everything else is
  allowed.
\<close>

theorem webhook_denies_exactly:
  "rp_allowed (rr_response (fst (validate decode nanos st body))) \<longleftrightarrow>
    \<not> (\<exists>r obj app. decode body = Inr (Some r) \<and> is_sync_request r \<and>
         username r \<notin> set (ex_usernames (gc_exempt (en_cfg (ad_engine st)))) \<and>
         \<not> (ex_automated (gc_exempt (en_cfg (ad_engine st))) \<and> is_automated r) \<and>
         rq_object r = Some obj \<and>
         snapshot_from_value obj (ex_annotation (gc_exempt (en_cfg (ad_engine st)))) = Inr app \<and>
         \<not> as_skip_requested app \<and>
         (case rollouts_of (ad_engine st) app of
            Inl err \<Rightarrow> gc_on_error (en_cfg (ad_engine st)) = Deny
          | Inr rs \<Rightarrow> gc_mode (en_cfg (ad_engine st)) = Enforce \<and>
              list_ex (\<lambda>r. watches_strategy (en_cfg (ad_engine st)) (rs_strategy r) \<and> in_progress r) rs))"
proof (cases "\<exists>r. decode body = Inr (Some r)")
  case True
  then obtain r where r: "decode body = Inr (Some r)" ..
  have b: "blocking cfg = (\<lambda>r. watches_strategy cfg (rs_strategy r) \<and> in_progress r)" for cfg
    by (rule ext) (simp add: blocking_def)
  show ?thesis
    by (auto simp: validate_def r Let_def admission_decide_allowed judged_def refuses_def b
        split: option.splits sum.splits)
next
  case False
  then show ?thesis by (auto simp: validate_def split: sum.splits option.splits)
qed

text \<open>
  C18. The preview and the webhook agree: when the webhook puts the Application of a request to the
  rules and the API returns that same document for its name, then the preview asked by the header
  \<open>namespace:name\<close> shows the verdict of the webhook, and the webhook allows the sync exactly when
  that verdict does.
\<close>

theorem preview_agrees_with_webhook:
  assumes "go_verdict (fst (admission_decide engine r)) = Some v" "rq_object r = Some obj"
    "api (nested_str obj [''metadata'', ''name'']) = Found (Some obj)"
    "trim (nested_str obj [''metadata'', ''name'']) = nested_str obj [''metadata'', ''name'']"
    "CHR '':'' \<notin> set ns"
  shows "gate_preview engine api (Some (ns @ '':'' @ nested_str obj [''metadata'', ''name''])) query = PreviewVerdict v \<and>
    rp_allowed (rr_response (go_response (fst (admission_decide engine r)))) = de_allowed v"
proof -
  obtain app where app: "judged (en_cfg engine) r = Some app" "v = fst (evaluate engine app)"
    using assms(1) by (auto simp: admission_decide_verdict)
  then have s: "snapshot_from_value obj (ex_annotation (gc_exempt (en_cfg engine))) = Inr app"
    using assms(2) by (auto simp: judged_def split: if_splits sum.splits)
  then have "nested_str obj [''metadata'', ''name''] \<noteq> []"
    by (auto simp: snapshot_from_value_def Let_def split: if_splits)
  then have "app_name_from (Some (ns @ '':'' @ nested_str obj [''metadata'', ''name''])) query =
      Some (nested_str obj [''metadata'', ''name''])"
    using assms(4) split_once_append [OF refl assms(5), of "[]"] by (simp add: app_name_from_def Let_def)
  then show ?thesis
    using s app assms(3) by (simp add: gate_preview_def app_get_def admission_decide_allowed evaluate_allowed)
qed

theorem preview_agrees_with_webhook_witness:
  "gate_preview demo_engine (\<lambda>n. Found (Some app_doc)) (Some ''argocd:shop'') None =
     PreviewVerdict (fst (evaluate demo_engine demo_app))"
proof -
  have n: "nested_str app_doc [''metadata'', ''name''] = ''shop''" by code_simp
  have "go_verdict (fst (admission_decide demo_engine sync_request)) = Some (fst (evaluate demo_engine demo_app))"
    by (simp add: admission_decide_verdict judged_sync_request)
  moreover have "rq_object sync_request = Some app_doc" by (simp add: sync_request_def)
  moreover have "trim ''shop'' = ''shop''" by code_simp
  ultimately show ?thesis
    using preview_agrees_with_webhook [of demo_engine sync_request _ app_doc "\<lambda>n. Found (Some app_doc)" "''argocd''" None]
    by (simp add: n)
qed

text \<open>
  A dry run changes nothing and gets the same answer: the review of a request marked as a dry run
  leaves the event queue as it was and returns the response of the same request without the mark.
  That request queues one event at most, about its own Application, and queues it exactly when the
  queue is open and the rules gave a verdict that blocks or warns.
\<close>

theorem dry_run_review_writes_no_event:
  assumes "decode dry = Inr (Some (r\<lparr>rq_dry_run := True\<rparr>))" "decode real = Inr (Some (r\<lparr>rq_dry_run := False\<rparr>))"
    "ad_events st = Some rc"
  shows "snd (validate decode nanos st dry) = st \<and>
    fst (validate decode nanos st dry) = fst (validate decode nanos st real) \<and>
    (\<exists>new. ad_events (snd (validate decode nanos st real)) = Some (rc\<lparr>rc_queue := rc_queue rc @ new\<rparr>) \<and>
       length new \<le> 1 \<and> list_all (\<lambda>e. ge_object_name e = rq_name r \<and> ge_namespace e = rq_namespace r) new \<and>
       (new \<noteq> []) = (rc_open rc \<and>
         (case go_verdict (fst (admission_decide (ad_engine st) r)) of
            Some v \<Rightarrow> \<not> de_allowed v \<or> de_warnings v \<noteq> []
          | None \<Rightarrow> False)))"
proof (intro conjI)
  let ?out = "fst (admission_decide (ad_engine st) r)"
  show "snd (validate decode nanos st dry) = st"
    by (simp add: validate_def assms(1) emit_verdict_def Let_def split: option.splits)
  show "fst (validate decode nanos st dry) = fst (validate decode nanos st real)"
    by (simp add: validate_def assms(1,2) Let_def)
  show "\<exists>new. ad_events (snd (validate decode nanos st real)) = Some (rc\<lparr>rc_queue := rc_queue rc @ new\<rparr>) \<and>
       length new \<le> 1 \<and> list_all (\<lambda>e. ge_object_name e = rq_name r \<and> ge_namespace e = rq_namespace r) new \<and>
       (new \<noteq> []) = (rc_open rc \<and>
         (case go_verdict ?out of Some v \<Rightarrow> \<not> de_allowed v \<or> de_warnings v \<noteq> [] | None \<Rightarrow> False))"
  proof (cases "go_verdict ?out")
    case None
    then show ?thesis
      using assms(3) by (intro exI [of _ "[]"]) (simp add: validate_def assms(2) emit_verdict_def Let_def)
  next
    case (Some v)
    then show ?thesis
      using assms(3)
      by (cases "rc_open rc"; cases "describe_verdict v")
        (auto simp: validate_def assms(2) emit_verdict_def recorder_emit_def build_event_def describe_verdict_def Let_def
          split: if_splits intro: exI [of _ "[]"])
  qed
qed

theorem dry_run_review_writes_no_event_witness:
  "snd (validate (\<lambda>b. Inr (Some (sync_request\<lparr>rq_dry_run := b\<rparr>))) 7 demo_admission True) = demo_admission \<and>
   (\<exists>e. ad_events (snd (validate (\<lambda>b. Inr (Some (sync_request\<lparr>rq_dry_run := b\<rparr>))) 7 demo_admission False)) =
      Some \<lparr>rc_open = True, rc_queue = [e]\<rparr> \<and> ge_object_name e = ''shop'')"
proof -
  have refused: "refuses demo_engine demo_app" by code_simp
  let ?d = "\<lambda>b. Inr (Some (sync_request\<lparr>rq_dry_run := b\<rparr>)) :: string + Request option"
  have v: "\<not> de_allowed (fst (evaluate demo_engine demo_app))"
    using refused by (simp add: evaluate_allowed)
  have st: "ad_events demo_admission = Some \<lparr>rc_open = True, rc_queue = []\<rparr>" "ad_engine demo_admission = demo_engine"
      "rq_name sync_request = ''shop''"
    by (simp_all add: demo_admission_def sync_request_def)
  note main = dry_run_review_writes_no_event [of ?d True sync_request False demo_admission, OF refl refl st(1), of 7]
  obtain new where new: "ad_events (snd (validate ?d 7 demo_admission False)) = Some \<lparr>rc_open = True, rc_queue = new\<rparr>"
      "length new \<le> 1" "list_all (\<lambda>e. ge_object_name e = ''shop'') new" "new \<noteq> []"
    using main v by (auto simp: admission_decide_verdict judged_sync_request st list_all_iff)
  then obtain e where "new = [e]" by (cases new) auto
  then show ?thesis using main new by simp
qed

text \<open>
  An event message fits its limit of 1024 bytes whatever the verdict says. The search for a
  character boundary ends, the text that is kept is an initial part of the message that loses at most
  three bytes more than the limit demands, and the result is well-formed UTF-8 when the message is.
\<close>

theorem truncated_message_fits:
  assumes "utf8_text message"
  shows "length (truncate_message message) \<le> 1024 \<and> utf8_text (truncate_message message) \<and>
    (if length message \<le> 1024 then truncate_message message = message
     else \<exists>k. 956 \<le> k \<and> k \<le> 959 \<and> truncate_message message = take k message @ NOTE)"
proof (cases "length message \<le> 1024")
  case True
  then show ?thesis using assms by (simp add: truncate_message_def MAX_MESSAGE_BYTES_def)
next
  case False
  let ?k = "back_up message 959"
  have k: "is_char_boundary message ?k" "?k \<le> 959" using back_up_boundary by auto
  obtain j where "j \<le> 959" "959 \<le> j + 3" "is_char_boundary message j"
    using boundary_near [OF assms, of 959] False by auto
  then have "956 \<le> ?k" using back_up_greatest [of message j 959] by simp
  moreover have "truncate_message message = take ?k message @ NOTE"
    using False by (simp add: truncate_message_def MAX_MESSAGE_BYTES_def)
  ultimately show ?thesis
    using False k utf8_text_append [OF utf8_text_take [OF assms k(1)] utf8_text_NOTE] by auto
qed

theorem truncated_message_fits_witness:
  "utf8_text (replicate 2000 (CHR ''a'')) \<and> length (truncate_message (replicate 2000 (CHR ''a''))) \<le> 1024"
proof -
  have u: "utf8_text (replicate n (CHR ''a''))" for n
    by (induction n) (simp_all add: utf8_len_def)
  show ?thesis using truncated_message_fits [OF u [of 2000]] u by simp
qed

end
