(* ===== verification/Hen_Filter.thy ===== *)
theory Hen_Filter
  imports Rust_Text
begin

section \<open>aws-health-event-notifier: event filter and its validation (health.rs, filter.rs)\<close>

text \<open>
  The domain types of a Health event, the eight allow and deny lists, their validation at start-up
  against the catalogs of AWS, and the decision on one event. The decision is shown to be the one the
  module documents: deny lists win, an empty allow list allows everything, and entries are compared
  without regard to case and surrounding white space.
\<close>

subsection \<open>Events\<close>

record EventDescription =
  ds_language :: "string option"
  ds_latest_description :: "string option"

record AffectedEntity =
  af_entity_value :: "string option"
  af_status :: "string option"

record HealthDetail =
  hd_event_arn :: "string option"
  hd_service :: "string option"
  hd_event_type_code :: "string option"
  hd_event_type_category :: "string option"
  hd_start_time :: "string option"
  hd_end_time :: "string option"
  hd_last_updated_time :: "string option"
  hd_status_code :: "string option"
  hd_event_description :: "EventDescription list"
  hd_affected_entities :: "AffectedEntity list"

record HealthEvent =
  he_account :: "string option"
  he_region :: "string option"
  he_detail :: HealthDetail

definition or_empty :: "string option \<Rightarrow> string" where
  "or_empty s = (case s of Some t \<Rightarrow> t | None \<Rightarrow> [])"

definition description :: "HealthDetail \<Rightarrow> string option" where
  "description d =
     Option.bind
       (case find (\<lambda>x. ds_language x = Some ''en'') (hd_event_description d) of
          Some x \<Rightarrow> Some x
        | None \<Rightarrow> (case hd_event_description d of [] \<Rightarrow> None | x # xs \<Rightarrow> Some x))
       ds_latest_description"

subsection \<open>Lists\<close>

definition GLOBAL_REGION :: string where "GLOBAL_REGION = ''global''"

definition VALID_CATEGORIES :: "string list" where
  "VALID_CATEGORIES = [''issue'', ''accountNotification'', ''scheduledChange'', ''investigation'']"

record FilterLists =
  fl_allow_categories :: "string list"
  fl_deny_categories :: "string list"
  fl_allow_services :: "string list"
  fl_deny_services :: "string list"
  fl_allow_regions :: "string list"
  fl_deny_regions :: "string list"
  fl_allow_event_codes :: "string list"
  fl_deny_event_codes :: "string list"

record ServiceEventCode =
  sc_service :: string
  sc_code :: string

definition parse_event_code :: "string \<Rightarrow> ServiceEventCode option" where
  "parse_event_code raw =
     (case split_once ''/'' (trim raw) of
        None \<Rightarrow> None
      | Some (service0, code0) \<Rightarrow>
          (let service = trim service0; code = trim code0
           in if service = [] \<or> code = [] then None else Some \<lparr>sc_service = service, sc_code = code\<rparr>))"

definition parse_normalized :: "string \<Rightarrow> ServiceEventCode option" where
  "parse_normalized raw =
     map_option (\<lambda>p. \<lparr>sc_service = to_lowercase (sc_service p), sc_code = to_lowercase (sc_code p)\<rparr>) (parse_event_code raw)"

definition matches :: "ServiceEventCode \<Rightarrow> string \<Rightarrow> string \<Rightarrow> bool" where
  "matches p service code \<longleftrightarrow> code \<noteq> [] \<and> sc_service p = to_lowercase (trim service) \<and> sc_code p = to_lowercase (trim code)"

definition normalize_list :: "string list \<Rightarrow> string list" where
  "normalize_list vs = filter (\<lambda>v. v \<noteq> []) (map (\<lambda>v. to_lowercase (trim v)) vs)"

definition with_global :: "string list \<Rightarrow> string list" where
  "with_global regions =
     (if regions \<noteq> [] \<and> \<not> list_ex (\<lambda>r. r = GLOBAL_REGION) regions then regions @ [GLOBAL_REGION] else regions)"

definition normalize_pairs :: "string list \<Rightarrow> ServiceEventCode list" where
  "normalize_pairs vs = filter_map parse_normalized vs"

definition contains_ci :: "string list \<Rightarrow> string \<Rightarrow> bool" where
  "contains_ci haystack needle0 =
     (let needle = to_lowercase (trim needle0)
      in if needle = [] then False else list_ex (\<lambda>v. v = needle) haystack)"

subsection \<open>Decision\<close>

record EventFilter =
  ef_allow_categories :: "string list"
  ef_deny_categories :: "string list"
  ef_allow_services :: "string list"
  ef_deny_services :: "string list"
  ef_allow_regions :: "string list"
  ef_deny_regions :: "string list"
  ef_allow_event_codes :: "ServiceEventCode list"
  ef_deny_event_codes :: "ServiceEventCode list"

datatype FilterDecision =
    FAllow
  | DenyCategory
  | NotInAllowedCategories
  | DenyService
  | NotInAllowedServices
  | DenyRegion
  | NotInAllowedRegions
  | DenyEventCode
  | NotInAllowedEventCodes

fun decision_reason :: "FilterDecision \<Rightarrow> string" where
  "decision_reason FAllow = ''allow''"
| "decision_reason DenyCategory = ''deny_category''"
| "decision_reason NotInAllowedCategories = ''category_not_allowed''"
| "decision_reason DenyService = ''deny_service''"
| "decision_reason NotInAllowedServices = ''service_not_allowed''"
| "decision_reason DenyRegion = ''deny_region''"
| "decision_reason NotInAllowedRegions = ''region_not_allowed''"
| "decision_reason DenyEventCode = ''deny_event_code''"
| "decision_reason NotInAllowedEventCodes = ''event_code_not_allowed''"

definition is_allowed :: "FilterDecision \<Rightarrow> bool" where
  "is_allowed d \<longleftrightarrow> d = FAllow"

definition filter_new :: "FilterLists \<Rightarrow> EventFilter" where
  "filter_new ls =
     \<lparr>ef_allow_categories = normalize_list (fl_allow_categories ls), ef_deny_categories = normalize_list (fl_deny_categories ls),
      ef_allow_services = normalize_list (fl_allow_services ls), ef_deny_services = normalize_list (fl_deny_services ls),
      ef_allow_regions = with_global (normalize_list (fl_allow_regions ls)), ef_deny_regions = normalize_list (fl_deny_regions ls),
      ef_allow_event_codes = normalize_pairs (fl_allow_event_codes ls),
      ef_deny_event_codes = normalize_pairs (fl_deny_event_codes ls)\<rparr>"

definition filter_evaluate :: "EventFilter \<Rightarrow> HealthEvent \<Rightarrow> FilterDecision" where
  "filter_evaluate f event =
     (let category = or_empty (hd_event_type_category (he_detail event));
          service = or_empty (hd_service (he_detail event));
          event_code = or_empty (hd_event_type_code (he_detail event));
          region = or_empty (he_region event)
      in if contains_ci (ef_deny_categories f) category then DenyCategory
         else if contains_ci (ef_deny_services f) service then DenyService
         else if contains_ci (ef_deny_regions f) region then DenyRegion
         else if list_ex (\<lambda>p. matches p service event_code) (ef_deny_event_codes f) then DenyEventCode
         else if ef_allow_categories f \<noteq> [] \<and> \<not> contains_ci (ef_allow_categories f) category then NotInAllowedCategories
         else if ef_allow_services f \<noteq> [] \<and> \<not> contains_ci (ef_allow_services f) service then NotInAllowedServices
         else if ef_allow_regions f \<noteq> [] \<and> trim region \<noteq> [] \<and> \<not> contains_ci (ef_allow_regions f) region
              then NotInAllowedRegions
         else if ef_allow_event_codes f \<noteq> [] \<and> \<not> list_ex (\<lambda>p. matches p service event_code) (ef_allow_event_codes f)
              then NotInAllowedEventCodes
         else FAllow)"

subsection \<open>Validation\<close>

record ListValidation =
  lv_valid :: "string list"
  lv_invalid :: "string list"

definition validation_ok :: "ListValidation \<Rightarrow> bool" where
  "validation_ok v \<longleftrightarrow> lv_invalid v = []"

record ValidationReport =
  vr_allow_services :: ListValidation
  vr_deny_services :: ListValidation
  vr_allow_categories :: ListValidation
  vr_deny_categories :: ListValidation
  vr_allow_regions :: ListValidation
  vr_deny_regions :: ListValidation
  vr_allow_event_codes :: ListValidation
  vr_deny_event_codes :: ListValidation

definition report_ok :: "ValidationReport \<Rightarrow> bool" where
  "report_ok r \<longleftrightarrow>
     validation_ok (vr_allow_services r) \<and> validation_ok (vr_deny_services r) \<and>
     validation_ok (vr_allow_categories r) \<and> validation_ok (vr_deny_categories r) \<and>
     validation_ok (vr_allow_regions r) \<and> validation_ok (vr_deny_regions r) \<and>
     validation_ok (vr_allow_event_codes r) \<and> validation_ok (vr_deny_event_codes r)"

definition all_invalid :: "ValidationReport \<Rightarrow> string list" where
  "all_invalid r =
     (let named = (\<lambda>name l. map (\<lambda>v. name @ '' '' @ [CHR 39] @ v @ [CHR 39]) (lv_invalid l))
      in named ''allow_services'' (vr_allow_services r) @ named ''deny_services'' (vr_deny_services r) @
         named ''allow_categories'' (vr_allow_categories r) @ named ''deny_categories'' (vr_deny_categories r) @
         named ''allow_regions'' (vr_allow_regions r) @ named ''deny_regions'' (vr_deny_regions r) @
         named ''allow_event_codes'' (vr_allow_event_codes r) @ named ''deny_event_codes'' (vr_deny_event_codes r))"

record Catalogs =
  ct_services :: "string list"
  ct_event_codes :: "string list"

definition is_ascii_lowercase :: "char \<Rightarrow> bool" where
  "is_ascii_lowercase c \<longleftrightarrow> 97 \<le> (of_char c :: nat) \<and> (of_char c :: nat) \<le> 122"

definition is_region_shaped :: "string \<Rightarrow> bool" where
  "is_region_shaped value =
     (if eq_ignore_ascii_case value GLOBAL_REGION then True
      else case split_on CHR ''-'' value of
             [] \<Rightarrow> False
           | prefix # rest \<Rightarrow>
               if length prefix \<noteq> 2 \<or> \<not> list_all is_ascii_lowercase prefix then False
               else if rest = [] then False
               else let digit = last rest; words = butlast rest
                    in if words = [] then False
                       else length digit = 1 \<and> list_all is_ascii_digit digit \<and>
                            list_all (\<lambda>w. w \<noteq> [] \<and> list_all is_ascii_lowercase w) words)"

text \<open>The four closures of the source differ in the test of an entry only.\<close>

definition split_list_by :: "(string \<Rightarrow> bool) \<Rightarrow> string list \<Rightarrow> ListValidation" where
  "split_list_by ok vs =
     (let trimmed = filter (\<lambda>v. v \<noteq> []) (map trim vs)
      in \<lparr>lv_valid = filter ok trimmed, lv_invalid = filter (\<lambda>v. \<not> ok v) trimmed\<rparr>)"

definition validate_filters :: "FilterLists \<Rightarrow> Catalogs \<Rightarrow> ValidationReport" where
  "validate_filters ls cat =
     (let split_against = split_list_by (\<lambda>v. to_lowercase v \<in> set (map to_lowercase (ct_services cat)));
          split_regions = split_list_by (\<lambda>v. is_region_shaped (to_lowercase v));
          split_categories = split_list_by (\<lambda>v. v \<in> set VALID_CATEGORIES);
          split_pairs = split_list_by (\<lambda>v.
            case parse_normalized v of
              Some p \<Rightarrow> sc_service p @ ''/'' @ sc_code p \<in> set (map to_lowercase (ct_event_codes cat))
            | None \<Rightarrow> False)
      in \<lparr>vr_allow_services = split_against (fl_allow_services ls), vr_deny_services = split_against (fl_deny_services ls),
          vr_allow_categories = split_categories (fl_allow_categories ls),
          vr_deny_categories = split_categories (fl_deny_categories ls),
          vr_allow_regions = split_regions (fl_allow_regions ls), vr_deny_regions = split_regions (fl_deny_regions ls),
          vr_allow_event_codes = split_pairs (fl_allow_event_codes ls),
          vr_deny_event_codes = split_pairs (fl_deny_event_codes ls)\<rparr>)"

subsection \<open>What the lists mean\<close>

text \<open>An entry names a value when both agree up to case and surrounding white space.\<close>

definition listed :: "string list \<Rightarrow> string \<Rightarrow> bool" where
  "listed xs v \<longleftrightarrow> trim v \<noteq> [] \<and> list_ex (\<lambda>x. eq_ignore_ascii_case (trim x) (trim v)) xs"

definition some_entry :: "string list \<Rightarrow> bool" where
  "some_entry xs \<longleftrightarrow> list_ex (\<lambda>x. trim x \<noteq> []) xs"

definition pair_listed :: "string list \<Rightarrow> string \<Rightarrow> string \<Rightarrow> bool" where
  "pair_listed xs service code \<longleftrightarrow> code \<noteq> [] \<and>
     list_ex (\<lambda>x. case parse_event_code x of
       Some p \<Rightarrow> eq_ignore_ascii_case (sc_service p) (trim service) \<and> eq_ignore_ascii_case (sc_code p) (trim code)
     | None \<Rightarrow> False) xs"

definition some_pair :: "string list \<Rightarrow> bool" where
  "some_pair xs \<longleftrightarrow> list_ex (\<lambda>x. parse_event_code x \<noteq> None) xs"

lemma to_lowercase_Nil [simp]: "to_lowercase s = [] \<longleftrightarrow> s = []"
  by (simp add: to_lowercase_def)

lemma to_lowercase_empty [simp]: "to_lowercase [] = []"
  by simp

lemma contains_ci_normalize: "contains_ci (normalize_list xs) v \<longleftrightarrow> listed xs v"
  by (auto simp: contains_ci_def normalize_list_def listed_def list_ex_iff eq_ignore_ascii_case_def Let_def)
    (metis image_eqI)

lemma normalize_Nil: "normalize_list xs = [] \<longleftrightarrow> \<not> some_entry xs"
  by (auto simp: normalize_list_def some_entry_def list_ex_iff filter_empty_conv)

lemma contains_ci_with_global:
  "contains_ci (with_global (normalize_list xs)) v \<longleftrightarrow>
     listed xs v \<or> some_entry xs \<and> eq_ignore_ascii_case (trim v) GLOBAL_REGION"
proof -
  have low: "to_lowercase GLOBAL_REGION = GLOBAL_REGION" by code_simp
  have ne: "GLOBAL_REGION \<noteq> []" by (simp add: GLOBAL_REGION_def)
  have "contains_ci (normalize_list xs) v \<or> normalize_list xs \<noteq> [] \<and> to_lowercase (trim v) = GLOBAL_REGION \<longleftrightarrow>
      contains_ci (with_global (normalize_list xs)) v"
    using ne by (auto simp: contains_ci_def with_global_def list_ex_iff Let_def)
  then show ?thesis
    by (auto simp: contains_ci_normalize normalize_Nil eq_ignore_ascii_case_def low)
qed

lemma with_global_Nil [simp]: "with_global xs = [] \<longleftrightarrow> xs = []"
  by (simp add: with_global_def)

lemma pairs_match: "list_ex (\<lambda>p. matches p service code) (normalize_pairs xs) \<longleftrightarrow> pair_listed xs service code"
  by (auto simp: normalize_pairs_def set_filter_map list_ex_iff matches_def pair_listed_def parse_normalized_def
      eq_ignore_ascii_case_def split: option.splits) force+

lemma normalize_pairs_Nil: "normalize_pairs xs = [] \<longleftrightarrow> \<not> some_pair xs"
proof -
  have "filter_map g xs = [] \<longleftrightarrow> \<not> list_ex (\<lambda>x. g x \<noteq> None) xs" for g :: "string \<Rightarrow> ServiceEventCode option"
    by (induction xs) (auto split: option.splits)
  then show ?thesis
    by (simp add: normalize_pairs_def some_pair_def parse_normalized_def list_ex_iff)
qed

lemmas list_meaning = contains_ci_normalize normalize_Nil contains_ci_with_global pairs_match normalize_pairs_Nil

subsection \<open>Trimming and splitting\<close>

lemma dropWhile_idem: "dropWhile P (dropWhile P xs) = dropWhile P xs"
  by (induction xs) auto

lemma trim_trim [simp]: "trim (trim s) = trim s"
proof -
  let ?d = "dropWhile is_ascii_ws"
  have "?d (rev (?d (rev t))) = rev (?d (rev t))" if "?d t = t" for t
  proof (cases "rev (?d (rev t))")
    case Nil
    then show ?thesis by (simp only: Nil dropWhile.simps)
  next
    case (Cons c cs)
    have "t = rev (?d (rev t)) @ rev (takeWhile is_ascii_ws (rev t))"
      by (metis rev_append rev_rev_ident takeWhile_dropWhile_id)
    then have "t = c # (cs @ rev (takeWhile is_ascii_ws (rev t)))" using Cons by simp
    then have "\<not> is_ascii_ws c" using that by (metis dropWhile.simps(2) dropWhile_eq_Cons_conv list.inject that)
    then show ?thesis using Cons by simp
  qed
  from this [of "?d s"] show ?thesis by (simp add: trim_def dropWhile_idem)
qed

lemma join_split_on: "join [c] (split_on c s) = s"
proof (induction s)
  case (Cons x xs)
  obtain w ws where w: "split_on c xs = w # ws" using split_on_not_Nil [of c xs] by (cases "split_on c xs") auto
  then show ?case using Cons by (cases ws) auto
qed simp

lemma split_on_parts: "w \<in> set (split_on c s) \<Longrightarrow> c \<notin> set w"
  by (induction s arbitrary: w) (auto split: if_splits list.splits)

lemma split_on_join: "ws \<noteq> [] \<Longrightarrow> list_all (\<lambda>w. c \<notin> set w) ws \<Longrightarrow> split_on c (join [c] ws) = ws"
  by (induction "[c]" ws rule: join.induct) (auto simp: split_on_append split_on_no_sep)

lemma filter_map_length: "length (filter_map g xs) = length (filter (\<lambda>x. g x \<noteq> None) xs)"
  by (induction xs) (auto split: option.splits)

lemma parse_event_code_trim: "parse_event_code (trim v) = parse_event_code v"
  by (simp add: parse_event_code_def)

lemma parse_event_code_blank: "trim v = [] \<Longrightarrow> parse_event_code v = None"
  by (simp add: parse_event_code_def split_once_def)

subsection \<open>Properties\<close>

lemma is_ascii_ws_lower [simp]: "is_ascii_ws (to_ascii_lower c) = is_ascii_ws c"
  by (auto simp: is_ascii_ws_def to_ascii_lower_def)

lemma to_ascii_lower_twice [simp]: "to_ascii_lower (to_ascii_lower c) = to_ascii_lower c"
  by (auto simp: to_ascii_lower_def)

lemma trim_to_lowercase: "trim (to_lowercase v) = to_lowercase (trim v)"
  by (simp add: trim_def to_lowercase_def dropWhile_map rev_map comp_def)

lemma listed_lower: "listed xs (to_lowercase v) = listed xs v"
  by (simp add: listed_def trim_to_lowercase eq_ignore_ascii_case_def) (simp add: to_lowercase_def comp_def)

text \<open>
  C25. What the filter lets through. An event passes exactly when no deny list names its category,
  service, region or service and code pair, and every allow list with an entry names it; entries are
  compared without regard to case and surrounding white space. The region \<open>global\<close> is in every
  allow list of regions, and an event without a region is never dropped for its region. Categories
  are compared like the rest: writing the category of an event in lower case never changes whether
  it passes, where the comment at the head of \<^verbatim>\<open>filter.rs\<close> says that categories are matched exactly.
\<close>

theorem filter_allows_exactly:
  "(is_allowed (filter_evaluate (filter_new ls) e) \<longleftrightarrow>
    (let category = or_empty (hd_event_type_category (he_detail e)); service = or_empty (hd_service (he_detail e));
         code = or_empty (hd_event_type_code (he_detail e)); region = or_empty (he_region e)
     in \<not> listed (fl_deny_categories ls) category \<and> \<not> listed (fl_deny_services ls) service \<and>
        \<not> listed (fl_deny_regions ls) region \<and> \<not> pair_listed (fl_deny_event_codes ls) service code \<and>
        (if some_entry (fl_allow_categories ls) then listed (fl_allow_categories ls) category else True) \<and>
        (if some_entry (fl_allow_services ls) then listed (fl_allow_services ls) service else True) \<and>
        (if some_entry (fl_allow_regions ls) \<and> trim region \<noteq> []
         then listed (fl_allow_regions ls) region \<or> eq_ignore_ascii_case (trim region) ''global'' else True) \<and>
        (if some_pair (fl_allow_event_codes ls) then pair_listed (fl_allow_event_codes ls) service code else True))) \<and>
   is_allowed (filter_evaluate (filter_new ls)
       (e\<lparr>he_detail := (he_detail e)\<lparr>hd_event_type_category := map_option to_lowercase (hd_event_type_category (he_detail e))\<rparr>\<rparr>)) =
     is_allowed (filter_evaluate (filter_new ls) e)"
proof -
  have "or_empty (map_option to_lowercase c) = to_lowercase (or_empty c)" for c
    by (cases c) (simp_all add: or_empty_def)
  then show ?thesis
    by (simp add: filter_evaluate_def filter_new_def is_allowed_def list_meaning listed_lower Let_def GLOBAL_REGION_def)
qed

text \<open>
  The shape check of a region accepts the word \<open>global\<close> in any case and otherwise exactly the
  documented pattern: two lower-case letters, one or more lower-case words and one digit, joined by
  hyphens.
\<close>

theorem region_shape_is_the_pattern:
  "is_region_shaped v \<longleftrightarrow> eq_ignore_ascii_case v ''global'' \<or>
    (\<exists>p ws d. v = join ''-'' (p # ws @ [[d]]) \<and> length p = 2 \<and> list_all is_ascii_lowercase p \<and> ws \<noteq> [] \<and>
       list_all (\<lambda>w. w \<noteq> [] \<and> list_all is_ascii_lowercase w) ws \<and> is_ascii_digit d)"
  (is "_ \<longleftrightarrow> _ \<or> ?pattern")
proof -
  obtain p rest where sp: "split_on CHR ''-'' v = p # rest" using split_on_not_Nil [of "CHR ''-''" v]
    by (cases "split_on CHR ''-'' v") auto
  let ?words = "list_all (\<lambda>w. w \<noteq> [] \<and> list_all is_ascii_lowercase w)"
  let ?core = "length p = 2 \<and> list_all is_ascii_lowercase p \<and> rest \<noteq> [] \<and> butlast rest \<noteq> [] \<and>
    length (last rest) = 1 \<and> list_all is_ascii_digit (last rest) \<and> ?words (butlast rest)"
  have "is_region_shaped v \<longleftrightarrow> eq_ignore_ascii_case v ''global'' \<or> ?core"
    by (simp add: is_region_shaped_def sp GLOBAL_REGION_def Let_def) blast
  moreover have "?core \<longleftrightarrow> ?pattern"
  proof
    assume c: ?core
    then obtain d where d: "last rest = [d]" by (cases "last rest") auto
    then have "rest = butlast rest @ [[d]]" using c append_butlast_last_id [of rest] by simp
    then have "v = join ''-'' (p # butlast rest @ [[d]])" using join_split_on [of "CHR ''-''" v] sp by simp
    then show ?pattern using c d by (intro exI [of _ p] exI [of _ "butlast rest"] exI [of _ d]) simp
  next
    assume ?pattern
    then obtain p' ws d where w: "v = join ''-'' (p' # ws @ [[d]])" "length p' = 2" "list_all is_ascii_lowercase p'"
        "ws \<noteq> []" "?words ws" "is_ascii_digit d" by blast
    have "\<not> is_ascii_lowercase (CHR ''-'')" "\<not> is_ascii_digit (CHR ''-'')" by code_simp+
    then have "list_all (\<lambda>w. CHR ''-'' \<notin> set w) (p' # ws @ [[d]])"
      using w(3,5,6) by (auto simp: list_all_iff)
    then have "p # rest = p' # ws @ [[d]]" using sp w(1) split_on_join [of "p' # ws @ [[d]]"] by simp
    then show ?core using w by simp
  qed
  ultimately show ?thesis by simp
qed

text \<open>
  Start-up validation and the filter fit together: when the report is clean, building the filter
  drops no entry of the event code lists but blank ones, every configured category is one that AWS
  defines, and every configured region has the shape of one.
\<close>

theorem validated_lists_lose_nothing:
  assumes "report_ok (validate_filters ls cat)"
  shows "length (normalize_pairs (fl_deny_event_codes ls)) = length (filter (\<lambda>v. trim v \<noteq> []) (fl_deny_event_codes ls)) \<and>
    length (normalize_pairs (fl_allow_event_codes ls)) = length (filter (\<lambda>v. trim v \<noteq> []) (fl_allow_event_codes ls)) \<and>
    list_all (\<lambda>v. trim v \<in> set ([] # VALID_CATEGORIES)) (fl_allow_categories ls @ fl_deny_categories ls) \<and>
    list_all (\<lambda>v. trim v = [] \<or> is_region_shaped (to_lowercase (trim v))) (fl_allow_regions ls @ fl_deny_regions ls)"
proof -
  have ok: "validation_ok (split_list_by f vs) \<longleftrightarrow> list_all (\<lambda>v. trim v = [] \<or> f (trim v)) vs" for f vs
    by (auto simp: validation_ok_def split_list_by_def filter_empty_conv list_all_iff Let_def)
  have pairs: "length (normalize_pairs vs) = length (filter (\<lambda>v. trim v \<noteq> []) vs)"
    if "list_all (\<lambda>v. trim v = [] \<or> (case parse_normalized (trim v) of Some p \<Rightarrow> q p | None \<Rightarrow> False)) vs" for vs q
  proof -
    have "parse_normalized v \<noteq> None \<longleftrightarrow> trim v \<noteq> []" if "v \<in> set vs" for v
      using that \<open>list_all _ vs\<close> parse_event_code_blank [of v]
      by (fastforce simp: list_all_iff parse_normalized_def parse_event_code_trim split: option.splits)
    then show ?thesis
      unfolding normalize_pairs_def filter_map_length by (metis (mono_tags, lifting) filter_cong)
  qed
  show ?thesis
    using assms by (auto simp: report_ok_def validate_filters_def ok Let_def intro!: pairs)
qed

definition demo_lists :: FilterLists where
  "demo_lists = \<lparr>fl_allow_categories = [''issue''], fl_deny_categories = [], fl_allow_services = [], fl_deny_services = [],
     fl_allow_regions = ['' ap-northeast-2''], fl_deny_regions = [], fl_allow_event_codes = [],
     fl_deny_event_codes = [''vpn/aws_vpn_redundancy_loss'', '' '']\<rparr>"

theorem validated_lists_lose_nothing_witness:
  "report_ok (validate_filters demo_lists \<lparr>ct_services = [], ct_event_codes = [''VPN/AWS_VPN_REDUNDANCY_LOSS'']\<rparr>) \<and>
    length (normalize_pairs (fl_deny_event_codes demo_lists)) = 1"
proof -
  have r: "report_ok (validate_filters demo_lists \<lparr>ct_services = [], ct_event_codes = [''VPN/AWS_VPN_REDUNDANCY_LOSS'']\<rparr>)"
    by code_simp
  have "length (filter (\<lambda>v. trim v \<noteq> []) (fl_deny_event_codes demo_lists)) = 1" by code_simp
  then show ?thesis using validated_lists_lose_nothing [OF r] r by simp
qed

end
