(* ===== verification/Hen_Poller.thy ===== *)
theory Hen_Poller
  imports Hen_Filter
begin

section \<open>aws-health-event-notifier: client, trackers and poller (aws/health.rs, dedup.rs, notify.rs, poller.rs)\<close>

text \<open>
  The poll loop of the daemon. Every cycle asks AWS for the events updated since the last one,
  forwards the new ones to Slack and fires reminders for upcoming ones. AWS, Slack and the clock
  during one cycle are the record \<open>cycle_env\<close>; different cycles may see different ones. Points in time
  are integers that count nanoseconds, those of the SDK count seconds. The Slack deliveries that were
  attempted are kept in a log with their outcome. The Kubernetes event that follows a delivery is best
  effort and changes nothing, and is left out with the metrics.
\<close>

subsection \<open>The Health client\<close>

record sdk_event =
  sd_arn :: "string option"
  sd_service :: "string option"
  sd_event_type_code :: "string option"
  sd_event_type_category :: "string option"
  sd_region :: "string option"
  sd_start_time :: "int option"
  sd_end_time :: "int option"
  sd_last_updated_time :: "int option"
  sd_status_code :: "string option"

record event_query =
  eq_last_updated_times :: "(int \<times> int) option"
  eq_start_times :: "(int \<times> int) option"
  eq_services :: "string list"
  eq_categories :: "string list"
  eq_status_codes :: "string list"

text \<open>
  The SDK: a paginated call is the list of its items up to the first error. Of a detail only the event
  and the description are read. \<open>ha_fmt\<close> is the RFC 3339 form of a point in time.
\<close>

record health_api =
  ha_describe_events :: "event_query \<Rightarrow> (string + sdk_event) list"
  ha_event_details :: "string \<Rightarrow> string \<Rightarrow> string + (sdk_event option \<times> string option option) list"
  ha_affected_entities :: "string \<Rightarrow> (string + AffectedEntity) list"
  ha_fmt :: "int \<Rightarrow> string"

record EventSummary =
  es_arn :: string
  es_service :: "string option"
  es_event_type_code :: "string option"
  es_event_type_category :: "string option"
  es_region :: "string option"
  es_start_time :: "int option"
  es_end_time :: "int option"
  es_last_updated_time :: "int option"
  es_status_code :: "string option"

definition nanos :: int where "nanos = 1000000000"

definition hours :: "nat \<Rightarrow> int" where "hours h = int h * 3600 * nanos"

definition to_smithy :: "int \<Rightarrow> int" where "to_smithy t = t div nanos"

text \<open>Years outside the calendar's range, which give \<^const>\<open>None\<close>, are not modelled.\<close>

definition from_smithy :: "int \<Rightarrow> int option" where "from_smithy s = Some (s * nanos)"

definition summary_of :: "sdk_event \<Rightarrow> EventSummary" where
  "summary_of ev =
     \<lparr>es_arn = or_empty (sd_arn ev), es_service = sd_service ev, es_event_type_code = sd_event_type_code ev,
      es_event_type_category = sd_event_type_category ev, es_region = sd_region ev,
      es_start_time = Option.bind (sd_start_time ev) from_smithy, es_end_time = Option.bind (sd_end_time ev) from_smithy,
      es_last_updated_time = Option.bind (sd_last_updated_time ev) from_smithy, es_status_code = sd_status_code ev\<rparr>"

fun collect_items :: "string \<Rightarrow> ('a \<Rightarrow> 'b) \<Rightarrow> (string + 'a) list \<Rightarrow> string + 'b list" where
  "collect_items ctx g [] = Inr []"
| "collect_items ctx g (Inl e # items) = Inl ctx"
| "collect_items ctx g (Inr x # items) =
     (case collect_items ctx g items of Inl e \<Rightarrow> Inl e | Inr ys \<Rightarrow> Inr (g x # ys))"

definition list_events :: "health_api \<Rightarrow> int \<Rightarrow> int \<Rightarrow> string list \<Rightarrow> string list \<Rightarrow> string + EventSummary list" where
  "list_events api from_t to_t services categories =
     collect_items ''describe_events page failed'' summary_of
       (ha_describe_events api
          \<lparr>eq_last_updated_times = Some (to_smithy from_t, to_smithy to_t), eq_start_times = None,
           eq_services = filter (\<lambda>s. s \<noteq> []) services, eq_categories = filter (\<lambda>c. c \<noteq> []) categories,
           eq_status_codes = [''open'', ''upcoming'']\<rparr>)"

definition list_upcoming :: "health_api \<Rightarrow> int \<Rightarrow> int \<Rightarrow> string list \<Rightarrow> string list \<Rightarrow> string + EventSummary list" where
  "list_upcoming api now horizon services categories =
     collect_items ''describe_events (upcoming) page failed'' summary_of
       (ha_describe_events api
          \<lparr>eq_last_updated_times = None, eq_start_times = Some (to_smithy now, to_smithy (now + horizon)),
           eq_services = filter (\<lambda>s. s \<noteq> []) services, eq_categories = filter (\<lambda>c. c \<noteq> []) categories,
           eq_status_codes = [''upcoming'']\<rparr>)"

definition list_affected :: "health_api \<Rightarrow> string \<Rightarrow> string + AffectedEntity list" where
  "list_affected api arn =
     collect_items ''describe_affected_entities page failed'' (\<lambda>e. e) (ha_affected_entities api arn)"

definition or_else :: "'a option \<Rightarrow> 'a option \<Rightarrow> 'a option" where
  "or_else a b = (case a of Some x \<Rightarrow> Some x | None \<Rightarrow> b)"

definition hydrate :: "health_api \<Rightarrow> string \<Rightarrow> EventSummary \<Rightarrow> string + HealthEvent" where
  "hydrate api lang summary =
     (case ha_event_details api (es_arn summary) lang of
        Inl e \<Rightarrow> Inl ''describe_event_details''
      | Inr successful \<Rightarrow>
          (let api_event = (case successful of [] \<Rightarrow> None | d # ds \<Rightarrow> fst d);
               descr = map (\<lambda>latest. \<lparr>ds_language = Some lang, ds_latest_description = latest\<rparr>) (filter_map snd successful);
               entities = (case list_affected api (es_arn summary) of Inr es \<Rightarrow> es | Inl e \<Rightarrow> []);
               time = (\<lambda>own other. or_else (map_option (ha_fmt api) own)
                 (map_option (ha_fmt api) (Option.bind (Option.bind api_event other) from_smithy)))
           in Inr \<lparr>he_account = None,
                   he_region = or_else (es_region summary) (Option.bind api_event sd_region),
                   he_detail =
                     \<lparr>hd_event_arn = Some (es_arn summary),
                      hd_service = or_else (es_service summary) (Option.bind api_event sd_service),
                      hd_event_type_code = or_else (es_event_type_code summary) (Option.bind api_event sd_event_type_code),
                      hd_event_type_category =
                        or_else (es_event_type_category summary) (Option.bind api_event sd_event_type_category),
                      hd_start_time = time (es_start_time summary) sd_start_time,
                      hd_end_time = time (es_end_time summary) sd_end_time,
                      hd_last_updated_time = time (es_last_updated_time summary) sd_last_updated_time,
                      hd_status_code = or_else (es_status_code summary) (Option.bind api_event sd_status_code),
                      hd_event_description = descr, hd_affected_entities = entities\<rparr>\<rparr>))"

definition minimal_event :: "EventSummary \<Rightarrow> HealthEvent" where
  "minimal_event s =
     \<lparr>he_account = None, he_region = es_region s,
      he_detail = \<lparr>hd_event_arn = Some (es_arn s), hd_service = es_service s, hd_event_type_code = es_event_type_code s,
        hd_event_type_category = es_event_type_category s, hd_start_time = None, hd_end_time = None,
        hd_last_updated_time = None, hd_status_code = es_status_code s, hd_event_description = [],
        hd_affected_entities = []\<rparr>\<rparr>"

subsection \<open>Trackers\<close>

type_synonym Dedup = "string \<Rightarrow> int option"

definition should_process :: "Dedup \<Rightarrow> string \<Rightarrow> int option \<Rightarrow> bool" where
  "should_process seen arn last_updated =
     (case (seen arn, last_updated) of
        (None, _) \<Rightarrow> True
      | (Some prev, None) \<Rightarrow> True
      | (Some prev, Some next_t) \<Rightarrow> next_t > prev)"

definition mark_processed :: "int \<Rightarrow> string \<Rightarrow> int option \<Rightarrow> Dedup \<Rightarrow> Dedup" where
  "mark_processed now arn last_updated seen =
     seen(arn := Some (case last_updated of Some t \<Rightarrow> t | None \<Rightarrow> now))"

definition prune_older_than :: "int \<Rightarrow> int \<Rightarrow> Dedup \<Rightarrow> Dedup" where
  "prune_older_than now ttl seen =
     (\<lambda>arn. case seen arn of Some t \<Rightarrow> if t \<ge> now - ttl then Some t else None | None \<Rightarrow> None)"

type_synonym ReminderTracker = "(string \<times> nat) set"

definition should_fire :: "ReminderTracker \<Rightarrow> string \<Rightarrow> nat \<Rightarrow> bool" where
  "should_fire fired arn offset \<longleftrightarrow> (arn, offset) \<notin> fired"

definition mark_fired :: "string \<Rightarrow> nat \<Rightarrow> ReminderTracker \<Rightarrow> ReminderTracker" where
  "mark_fired arn offset fired = insert (arn, offset) fired"

definition retain_relevant :: "(string \<Rightarrow> bool) \<Rightarrow> ReminderTracker \<Rightarrow> ReminderTracker" where
  "retain_relevant relevant fired = Set.filter (\<lambda>(arn, h). relevant arn) fired"

subsection \<open>The poller\<close>

text \<open>One attempted Slack delivery: the event, the offset if it is a reminder, and whether it went through.\<close>

record delivery =
  dl_summary :: EventSummary
  dl_event :: HealthEvent
  dl_reminder :: "nat option"
  dl_ok :: bool

text \<open>The clock is read at the start of a cycle, when an event without a time is marked, for the list of
  upcoming events, for the reminders and for pruning.\<close>

record cycle_env =
  ce_api :: health_api
  ce_slack :: "delivery list \<Rightarrow> HealthEvent \<Rightarrow> nat option \<Rightarrow> string + unit"
  ce_to :: int
  ce_mark_now :: int
  ce_upcoming_now :: int
  ce_reminder_now :: int
  ce_prune_now :: int

record PollerCfg =
  pc_initial_lookback :: nat  \<comment> \<open>seconds\<close>
  pc_cold_start_suppress :: bool
  pc_services :: "string list"
  pc_categories :: "string list"
  pc_reminder_offsets_hours :: "nat list"

record Poller =
  pl_locale :: string
  pl_filter :: EventFilter
  pl_cfg :: PollerCfg

record poller_state =
  ps_seen :: Dedup
  ps_fired :: ReminderTracker
  ps_deliveries :: "delivery list"

definition PRUNE_AFTER_HOURS :: nat where "PRUNE_AFTER_HOURS = 72"

definition publish :: "cycle_env \<Rightarrow> EventSummary \<Rightarrow> HealthEvent \<Rightarrow> nat option \<Rightarrow> poller_state \<Rightarrow> bool \<times> poller_state" where
  "publish e summary event reminder st =
     (let ok = (case ce_slack e (ps_deliveries st) event reminder of Inr u \<Rightarrow> True | Inl err \<Rightarrow> False)
      in (ok, st\<lparr>ps_deliveries := ps_deliveries st @
                  [\<lparr>dl_summary = summary, dl_event = event, dl_reminder = reminder, dl_ok = ok\<rparr>]\<rparr>))"

definition poll_event :: "Poller \<Rightarrow> cycle_env \<Rightarrow> bool \<Rightarrow> EventSummary \<Rightarrow> poller_state \<Rightarrow> poller_state" where
  "poll_event pl e suppress summary st =
     (let arn = es_arn summary; last_updated = es_last_updated_time summary;
          mark = (\<lambda>s. s\<lparr>ps_seen := mark_processed (ce_mark_now e) arn last_updated (ps_seen s)\<rparr>)
      in if \<not> should_process (ps_seen st) arn last_updated then st
         else if suppress then mark st
         else case hydrate (ce_api e) (pl_locale pl) summary of
                Inl err \<Rightarrow> st
              | Inr event \<Rightarrow>
                  if \<not> is_allowed (filter_evaluate (pl_filter pl) event) then mark st
                  else let (ok, st1) = publish e summary event None st
                       in if ok then mark st1 else st1)"

definition poll_once :: "Poller \<Rightarrow> cycle_env \<Rightarrow> int \<Rightarrow> bool \<Rightarrow> poller_state \<Rightarrow> bool \<times> poller_state" where
  "poll_once pl e cursor suppress st =
     (case list_events (ce_api e) cursor (ce_to e) (pc_services (pl_cfg pl)) (pc_categories (pl_cfg pl)) of
        Inl err \<Rightarrow> (False, st)
      | Inr summaries \<Rightarrow> (True, fold (poll_event pl e suppress) summaries st))"

fun remind_offsets :: "Poller \<Rightarrow> cycle_env \<Rightarrow> bool \<Rightarrow> EventSummary \<Rightarrow> int \<Rightarrow> nat list \<Rightarrow> poller_state \<Rightarrow> poller_state" where
  "remind_offsets pl e suppress summary until_start [] st = st"
| "remind_offsets pl e suppress summary until_start (h # hs) st =
     (let arn = es_arn summary;
          mark = (\<lambda>s. s\<lparr>ps_fired := mark_fired arn h (ps_fired s)\<rparr>);
          continue_with = remind_offsets pl e suppress summary until_start hs
      in if until_start > hours h then continue_with st
         else if \<not> should_fire (ps_fired st) arn h then continue_with st
         else if suppress then continue_with (mark st)
         else if \<not> is_allowed (filter_evaluate (pl_filter pl) (minimal_event summary)) then continue_with (mark st)
         else case hydrate (ce_api e) (pl_locale pl) summary of
                Inl err \<Rightarrow> st
              | Inr event \<Rightarrow>
                  (let (ok, st1) = publish e summary event (Some h) st
                   in continue_with (if ok then mark st1 else st1)))"

definition evaluate_reminder :: "Poller \<Rightarrow> cycle_env \<Rightarrow> bool \<Rightarrow> EventSummary \<Rightarrow> poller_state \<Rightarrow> poller_state" where
  "evaluate_reminder pl e suppress summary st =
     (case es_start_time summary of
        None \<Rightarrow> st
      | Some start \<Rightarrow>
          if es_end_time summary = None then st
          else let until_start = start - ce_reminder_now e
               in if until_start \<le> 0 then st
                  else remind_offsets pl e suppress summary until_start (pc_reminder_offsets_hours (pl_cfg pl)) st)"

definition poll_reminders :: "Poller \<Rightarrow> cycle_env \<Rightarrow> bool \<Rightarrow> poller_state \<Rightarrow> bool \<times> poller_state" where
  "poll_reminders pl e suppress st =
     (let max_offset = fold max (pc_reminder_offsets_hours (pl_cfg pl)) 0
      in if max_offset = 0 then (True, st)
         else case list_upcoming (ce_api e) (ce_upcoming_now e) (hours max_offset)
                     (pc_services (pl_cfg pl)) (pc_categories (pl_cfg pl)) of
                Inl err \<Rightarrow> (False, st)
              | Inr summaries \<Rightarrow>
                  (let st1 = fold (evaluate_reminder pl e suppress) summaries st
                   in (True, st1\<lparr>ps_fired := retain_relevant (\<lambda>arn. arn \<in> set (map es_arn summaries)) (ps_fired st1)\<rparr>)))"

definition poll_cycle :: "Poller \<Rightarrow> cycle_env \<Rightarrow> int \<Rightarrow> bool \<Rightarrow> poller_state \<Rightarrow> poller_state" where
  "poll_cycle pl e cursor first_run st =
     (let suppress = (first_run \<and> pc_cold_start_suppress (pl_cfg pl));
          (ok, st1) = poll_once pl e cursor suppress st;
          st2 = (if ok \<and> pc_reminder_offsets_hours (pl_cfg pl) \<noteq> [] then snd (poll_reminders pl e suppress st1) else st1)
      in st2\<lparr>ps_seen := prune_older_than (ce_prune_now e) (hours PRUNE_AFTER_HOURS) (ps_seen st2)\<rparr>)"

text \<open>
  The loop over what each wait yields: a tick and the environment of its cycle, or shutdown. The Boolean
  tells whether the loop has returned within the observed stretch.
\<close>

datatype poll_wake = PollTick cycle_env | PollShutdown

fun poller_loop :: "Poller \<Rightarrow> int \<Rightarrow> bool \<Rightarrow> poll_wake list \<Rightarrow> poller_state \<Rightarrow> bool \<times> poller_state" where
  "poller_loop pl cursor first_run [] st = (False, st)"
| "poller_loop pl cursor first_run (PollShutdown # ws) st = (True, st)"
| "poller_loop pl cursor first_run (PollTick e # ws) st =
     poller_loop pl (ce_to e) False ws (poll_cycle pl e cursor first_run st)"

definition empty_poller_state :: poller_state where
  "empty_poller_state = \<lparr>ps_seen = (\<lambda>arn. None), ps_fired = {}, ps_deliveries = []\<rparr>"

text \<open>A lookback that does not fit the signed duration type counts as none.\<close>

definition start_cursor :: "int \<Rightarrow> nat \<Rightarrow> int" where
  "start_cursor now lookback = now - (if int lookback \<le> i64_max div 1000 then int lookback * nanos else 0)"

definition poller_run :: "Poller \<Rightarrow> int \<Rightarrow> poll_wake list \<Rightarrow> bool \<times> poller_state" where
  "poller_run pl now ws =
     poller_loop pl (start_cursor now (pc_initial_lookback (pl_cfg pl))) True ws empty_poller_state"

subsection \<open>What every cycle keeps\<close>

text \<open>The outcomes of the step for one event, and what the reminder loop keeps.\<close>

definition delivered :: "EventSummary \<Rightarrow> HealthEvent \<Rightarrow> nat option \<Rightarrow> bool \<Rightarrow> poller_state \<Rightarrow> poller_state" where
  "delivered s ev reminder ok st =
     st\<lparr>ps_deliveries := ps_deliveries st @ [\<lparr>dl_summary = s, dl_event = ev, dl_reminder = reminder, dl_ok = ok\<rparr>]\<rparr>"

lemma publish_delivered: "\<exists>ok. publish e s ev r st = (ok, delivered s ev r ok st)"
  by (simp add: publish_def delivered_def Let_def)

lemma delivered_sel [simp]:
  "ps_seen (delivered s ev r ok st) = ps_seen st"
  "ps_fired (delivered s ev r ok st) = ps_fired st"
  "ps_deliveries (delivered s ev r ok st) =
     ps_deliveries st @ [\<lparr>dl_summary = s, dl_event = ev, dl_reminder = r, dl_ok = ok\<rparr>]"
  by (simp_all add: delivered_def)

definition marked :: "cycle_env \<Rightarrow> EventSummary \<Rightarrow> poller_state \<Rightarrow> poller_state" where
  "marked e s st = st\<lparr>ps_seen := mark_processed (ce_mark_now e) (es_arn s) (es_last_updated_time s) (ps_seen st)\<rparr>"

lemma marked_sel [simp]:
  "ps_seen (marked e s st) = mark_processed (ce_mark_now e) (es_arn s) (es_last_updated_time s) (ps_seen st)"
  "ps_fired (marked e s st) = ps_fired st" "ps_deliveries (marked e s st) = ps_deliveries st"
  by (simp_all add: marked_def)

lemma poll_event_cases:
  obtains (skip) "poll_event pl e suppress s st = st"
  | (mark) "should_process (ps_seen st) (es_arn s) (es_last_updated_time s)" "poll_event pl e suppress s st = marked e s st"
  | (send) ev ok where "should_process (ps_seen st) (es_arn s) (es_last_updated_time s)" "\<not> suppress"
      "hydrate (ce_api e) (pl_locale pl) s = Inr ev" "is_allowed (filter_evaluate (pl_filter pl) ev)"
      "poll_event pl e suppress s st = (if ok then marked e s (delivered s ev None ok st) else delivered s ev None ok st)"
proof (cases "should_process (ps_seen st) (es_arn s) (es_last_updated_time s)")
  case False
  then show thesis by (intro skip) (simp add: poll_event_def Let_def)
next
  case True
  show thesis
  proof (cases "suppress \<or> (\<exists>err. hydrate (ce_api e) (pl_locale pl) s = Inl err)")
    case sup: True
    then show thesis
      using True skip mark by (cases suppress) (auto simp: poll_event_def marked_def Let_def)
  next
    case sup: False
    then obtain ev where ev: "hydrate (ce_api e) (pl_locale pl) s = Inr ev"
      by (cases "hydrate (ce_api e) (pl_locale pl) s") auto
    obtain ok where ok: "publish e s ev None st = (ok, delivered s ev None ok st)" using publish_delivered by blast
    show thesis
    proof (cases "is_allowed (filter_evaluate (pl_filter pl) ev)")
      case allowed: True
      show thesis
        by (rule send [OF True _ ev allowed, of ok])
          (use True sup ev allowed ok in \<open>auto simp: poll_event_def marked_def Let_def\<close>)
    next
      case False
      then show thesis using True sup ev by (intro mark) (auto simp: poll_event_def marked_def Let_def)
    qed
  qed
qed

lemma remind_offsets_keeps:
  assumes "P st"
    and mark: "\<And>h st. h \<in> set hs \<Longrightarrow> P st \<Longrightarrow> P (st\<lparr>ps_fired := mark_fired (es_arn s) h (ps_fired st)\<rparr>)"
    and send: "\<And>h st ev ok. h \<in> set hs \<Longrightarrow> u \<le> hours h \<Longrightarrow> \<not> suppress \<Longrightarrow>
      is_allowed (filter_evaluate (pl_filter pl) (minimal_event s)) \<Longrightarrow>
      hydrate (ce_api e) (pl_locale pl) s = Inr ev \<Longrightarrow> should_fire (ps_fired st) (es_arn s) h \<Longrightarrow> P st \<Longrightarrow>
      P (if ok then delivered s ev (Some h) ok st\<lparr>ps_fired := mark_fired (es_arn s) h (ps_fired st)\<rparr>
         else delivered s ev (Some h) ok st)"
  shows "P (remind_offsets pl e suppress s u hs st)"
  using assms
proof (induction hs arbitrary: st)
  case (Cons h hs)
  have IH: "P (remind_offsets pl e suppress s u hs st')" if "P st'" for st'
    using that Cons.prems(2,3) by (intro Cons.IH) auto
  have m: "P (st'\<lparr>ps_fired := mark_fired (es_arn s) h (ps_fired st')\<rparr>)" if "P st'" for st'
    using that Cons.prems(2) by simp
  show ?case
  proof (cases "u > hours h \<or> \<not> should_fire (ps_fired st) (es_arn s) h")
    case True
    then have "remind_offsets pl e suppress s u (h # hs) st = remind_offsets pl e suppress s u hs st"
      by (elim disjE) (simp_all add: Let_def)
    then show ?thesis using IH [OF Cons.prems(1)] by simp
  next
    case False
    note due = False
    show ?thesis
    proof (cases "suppress \<or> \<not> is_allowed (filter_evaluate (pl_filter pl) (minimal_event s))")
      case True
      then have "remind_offsets pl e suppress s u (h # hs) st =
          remind_offsets pl e suppress s u hs (st\<lparr>ps_fired := mark_fired (es_arn s) h (ps_fired st)\<rparr>)"
        using due by (elim disjE) (simp_all add: Let_def)
      then show ?thesis using IH [OF m [OF Cons.prems(1)]] by simp
    next
      case False
      show ?thesis
      proof (cases "hydrate (ce_api e) (pl_locale pl) s")
        case (Inl err)
        then have "remind_offsets pl e suppress s u (h # hs) st = st"
          using due False by (simp add: Let_def)
        then show ?thesis using Cons.prems(1) by simp
      next
        case (Inr ev)
        obtain ok where ok: "publish e s ev (Some h) st = (ok, delivered s ev (Some h) ok st)" using publish_delivered by blast
        have sent: "P (if ok then delivered s ev (Some h) ok st\<lparr>ps_fired := mark_fired (es_arn s) h (ps_fired st)\<rparr>
            else delivered s ev (Some h) ok st)"
          by (rule Cons.prems(3)) (use due False Inr Cons.prems(1) in auto)
        have "remind_offsets pl e suppress s u (h # hs) st = remind_offsets pl e suppress s u hs
            (if ok then delivered s ev (Some h) ok st\<lparr>ps_fired := mark_fired (es_arn s) h (ps_fired st)\<rparr>
             else delivered s ev (Some h) ok st)"
          using due False Inr ok by (simp add: Let_def)
        then show ?thesis using IH [OF sent] by simp
      qed
    qed
  qed
qed simp

text \<open>Summaries that an environment can hand to the poller.\<close>

definition listed_by :: "cycle_env \<Rightarrow> EventSummary \<Rightarrow> bool" where
  "listed_by e s \<longleftrightarrow> (\<exists>q x. Inr x \<in> set (ha_describe_events (ce_api e) q) \<and> s = summary_of x)"

lemma collect_items_set: "collect_items ctx g items = Inr ys \<Longrightarrow> y \<in> set ys \<Longrightarrow> \<exists>x. Inr x \<in> set items \<and> y = g x"
  by (induction ctx g items arbitrary: ys rule: collect_items.induct) (auto split: sum.splits, blast+)

lemma list_events_listed: "list_events (ce_api e) f t ss cs = Inr ys \<Longrightarrow> y \<in> set ys \<Longrightarrow> listed_by e y"
  unfolding list_events_def listed_by_def by (drule (1) collect_items_set) blast

lemma list_upcoming_listed: "list_upcoming (ce_api e) n h ss cs = Inr ys \<Longrightarrow> y \<in> set ys \<Longrightarrow> listed_by e y"
  unfolding list_upcoming_def listed_by_def by (drule (1) collect_items_set) blast

text \<open>
  The contract of the four steps a cycle consists of: what each of them keeps, the loop keeps. \<open>ok_env\<close> is
  what is assumed of the environments and \<open>ok_cursor\<close> what follows for the starts of the queried windows.
\<close>

definition upcoming_of :: "Poller \<Rightarrow> cycle_env \<Rightarrow> string + EventSummary list" where
  "upcoming_of pl e = list_upcoming (ce_api e) (ce_upcoming_now e) (hours (fold max (pc_reminder_offsets_hours (pl_cfg pl)) 0))
     (pc_services (pl_cfg pl)) (pc_categories (pl_cfg pl))"

lemma upcoming_of_listed: "upcoming_of pl e = Inr ys \<Longrightarrow> y \<in> set ys \<Longrightarrow> listed_by e y"
  unfolding upcoming_of_def by (rule list_upcoming_listed)

locale poller_invariant =
  fixes pl :: Poller and ok_env :: "cycle_env \<Rightarrow> bool" and ok_cursor :: "int \<Rightarrow> bool" and I :: "poller_state \<Rightarrow> bool"
  assumes event_keeps: "ok_env e \<Longrightarrow> ok_cursor cursor \<Longrightarrow> list_events (ce_api e) cursor (ce_to e) sv cs = Inr ss \<Longrightarrow>
      s \<in> set ss \<Longrightarrow> I st \<Longrightarrow> I (poll_event pl e suppress s st)"
    and reminder_keeps: "ok_env e \<Longrightarrow> upcoming_of pl e = Inr ss \<Longrightarrow>
      s \<in> set ss \<Longrightarrow> I st \<Longrightarrow> I (evaluate_reminder pl e suppress s st)"
    and retain_keeps: "ok_env e \<Longrightarrow> upcoming_of pl e = Inr ss \<Longrightarrow> I st \<Longrightarrow>
      I (st\<lparr>ps_fired := retain_relevant (\<lambda>arn. arn \<in> set (map es_arn ss)) (ps_fired st)\<rparr>)"
    and prune_keeps: "ok_env e \<Longrightarrow> I st \<Longrightarrow>
      I (st\<lparr>ps_seen := prune_older_than (ce_prune_now e) (hours PRUNE_AFTER_HOURS) (ps_seen st)\<rparr>)"
    and next_cursor: "ok_env e \<Longrightarrow> ok_cursor (ce_to e)"
begin

lemma poll_once_keeps:
  assumes "ok_env e" "ok_cursor cursor" "I st"
  shows "I (snd (poll_once pl e cursor suppress st))"
proof (cases "list_events (ce_api e) cursor (ce_to e) (pc_services (pl_cfg pl)) (pc_categories (pl_cfg pl))")
  case (Inl err)
  then show ?thesis using assms(3) by (simp add: poll_once_def)
next
  case (Inr ss)
  have "I (fold (poll_event pl e suppress) ss st)"
    by (rule fold_invariant [where Q = "\<lambda>s. s \<in> set ss" and P = I])
      (use assms event_keeps [OF assms(1,2) Inr] in blast)+
  then show ?thesis using Inr by (simp add: poll_once_def)
qed

lemma poll_reminders_keeps:
  assumes "ok_env e" "I st"
  shows "I (snd (poll_reminders pl e suppress st))"
proof (cases "upcoming_of pl e")
  case (Inl err)
  then show ?thesis using assms(2) by (simp add: poll_reminders_def upcoming_of_def Let_def)
next
  case (Inr ss)
  have "I (fold (evaluate_reminder pl e suppress) ss st)"
    by (rule fold_invariant [where Q = "\<lambda>s. s \<in> set ss" and P = I])
      (use assms reminder_keeps [OF assms(1) Inr] in blast)+
  from retain_keeps [OF assms(1) Inr this] show ?thesis using Inr assms(2) by (simp add: poll_reminders_def upcoming_of_def Let_def)
qed

lemma cycle_keeps:
  assumes "ok_env e" "ok_cursor cursor" "I st"
  shows "I (poll_cycle pl e cursor first_run st)"
  unfolding poll_cycle_def Let_def case_prod_unfold
  by (rule prune_keeps [OF assms(1)]) (simp add: poll_once_keeps [OF assms] poll_reminders_keeps [OF assms(1)])

lemma loop_keeps:
  "list_all (\<lambda>w. case w of PollTick e \<Rightarrow> ok_env e | PollShutdown \<Rightarrow> True) ws \<Longrightarrow> ok_cursor cursor \<Longrightarrow> I st \<Longrightarrow>
   I (snd (poller_loop pl cursor first_run ws st))"
proof (induction ws arbitrary: cursor first_run st)
  case (Cons w ws)
  then show ?case by (cases w) (simp_all add: cycle_keeps next_cursor)
qed simp

end

subsection \<open>No event version is delivered twice\<close>

definition notified :: "delivery list \<Rightarrow> (string \<times> int) list" where
  "notified ds = filter_map (\<lambda>d.
     if dl_ok d \<and> dl_reminder d = None
     then map_option (\<lambda>l. (es_arn (dl_summary d), l)) (es_last_updated_time (dl_summary d)) else None) ds"

text \<open>An event version counts as seen when the tracker holds a time at least as late.\<close>

definition covered :: "Dedup \<Rightarrow> string \<times> int \<Rightarrow> bool" where
  "covered seen v \<longleftrightarrow> (case seen (fst v) of Some t \<Rightarrow> snd v \<le> t | None \<Rightarrow> False)"

definition recent :: "int \<Rightarrow> (string \<times> int) list \<Rightarrow> (string \<times> int) list" where
  "recent B vs = filter (\<lambda>v. B \<le> snd v) vs"

definition fresh_inv :: "int \<Rightarrow> poller_state \<Rightarrow> bool" where
  "fresh_inv B st \<longleftrightarrow> distinct (recent B (notified (ps_deliveries st))) \<and>
     list_all (covered (ps_seen st)) (recent B (notified (ps_deliveries st)))"

lemma should_process_dated: "should_process seen arn (Some l) \<longleftrightarrow> \<not> covered seen (arn, l)"
  by (auto simp: should_process_def covered_def split: option.splits)

lemma covered_mark:
  assumes "should_process seen arn (Some l)"
  shows "covered (mark_processed now arn (Some l) seen) (arn, l)"
    and "covered seen v \<Longrightarrow> covered (mark_processed now arn (Some l) seen) v"
  using assms by (auto simp: should_process_def covered_def mark_processed_def split: option.splits)

lemma covered_prune: "now - ttl \<le> snd v \<Longrightarrow> covered seen v \<Longrightarrow> covered (prune_older_than now ttl seen) v"
  by (auto simp: covered_def prune_older_than_def split: option.splits)

lemma notified_append: "notified (ds @ [d]) = notified ds @ notified [d]"
  unfolding notified_def by (induction ds) (auto split: option.splits)

lemma recent_append [simp]: "recent B (xs @ ys) = recent B xs @ recent B ys"
  by (simp add: recent_def)

definition dated :: "cycle_env \<Rightarrow> bool" where
  "dated e \<longleftrightarrow> (\<forall>s. listed_by e s \<longrightarrow> es_last_updated_time s \<noteq> None)"

lemma notified_one:
  "notified [\<lparr>dl_summary = s, dl_event = ev, dl_reminder = r, dl_ok = ok\<rparr>] =
     (if ok \<and> r = None then (case es_last_updated_time s of Some l \<Rightarrow> [(es_arn s, l)] | None \<Rightarrow> []) else [])"
  by (simp add: notified_def split: option.splits)

lemma poll_event_fresh:
  assumes l: "es_last_updated_time s = Some l" and st: "fresh_inv B st"
  shows "fresh_inv B (poll_event pl e suppress s st)"
proof -
  have kept: "list_all (covered (ps_seen (marked e s st))) (recent B (notified (ps_deliveries st)))"
      "(es_arn s, l) \<notin> set (recent B (notified (ps_deliveries st)))" "covered (ps_seen (marked e s st)) (es_arn s, l)"
    if p: "should_process (ps_seen st) (es_arn s) (es_last_updated_time s)"
    using p st covered_mark [OF p [unfolded l]] by (auto simp: l fresh_inv_def list_all_iff should_process_dated)
  show ?thesis
  proof (cases rule: poll_event_cases [of pl e suppress s st])
    case skip
    then show ?thesis using st by simp
  next
    case mark
    then show ?thesis using st kept by (simp add: fresh_inv_def)
  next
    case (send ev ok)
    have "recent B [(es_arn s, l)] = (if B \<le> l then [(es_arn s, l)] else [])" by (simp add: recent_def)
    then show ?thesis
      using send kept st
      by (cases ok) (auto simp: fresh_inv_def notified_append notified_one l recent_def)
  qed
qed

lemma remind_offsets_frame:
  "ps_seen (remind_offsets pl e suppress s u hs st) = ps_seen st \<and>
   notified (ps_deliveries (remind_offsets pl e suppress s u hs st)) = notified (ps_deliveries st)"
  by (rule remind_offsets_keeps) (simp_all add: notified_append notified_one)

lemma evaluate_reminder_frame:
  "ps_seen (evaluate_reminder pl e suppress s st) = ps_seen st"
  "notified (ps_deliveries (evaluate_reminder pl e suppress s st)) = notified (ps_deliveries st)"
  by (simp_all add: evaluate_reminder_def remind_offsets_frame Let_def split: option.splits)

text \<open>\<open>B\<close> bounds the cut-offs of all prunings.\<close>

interpretation fresh: poller_invariant pl "\<lambda>e. dated e \<and> ce_prune_now e - hours PRUNE_AFTER_HOURS \<le> B" "\<lambda>cursor. True"
  "fresh_inv B" for pl B
proof unfold_locales
  fix e cursor sv cs ss s st suppress
  assume e: "dated e \<and> ce_prune_now e - hours PRUNE_AFTER_HOURS \<le> B" and st: "fresh_inv B st"
    and s: "list_events (ce_api e) cursor (ce_to e) sv cs = Inr ss" "s \<in> set ss"
  obtain l where "es_last_updated_time s = Some l" using e list_events_listed [OF s] by (auto simp: dated_def)
  then show "fresh_inv B (poll_event pl e suppress s st)" using st by (rule poll_event_fresh)
next
  fix e s st suppress
  show "fresh_inv B st \<Longrightarrow> fresh_inv B (evaluate_reminder pl e suppress s st)"
    by (simp add: fresh_inv_def evaluate_reminder_frame)
next
  fix st :: poller_state and fired
  show "fresh_inv B st \<Longrightarrow> fresh_inv B (st\<lparr>ps_fired := fired\<rparr>)"
    by (simp add: fresh_inv_def)
next
  fix e st
  show "dated e \<and> ce_prune_now e - hours PRUNE_AFTER_HOURS \<le> B \<Longrightarrow> fresh_inv B st \<Longrightarrow>
      fresh_inv B (st\<lparr>ps_seen := prune_older_than (ce_prune_now e) (hours PRUNE_AFTER_HOURS) (ps_seen st)\<rparr>)"
    by (auto simp: fresh_inv_def list_all_iff recent_def intro!: covered_prune)
qed simp

subsection \<open>What is delivered\<close>

text \<open>Why a delivery was made: in a cycle of the run it was hydrated from AWS and passed the filter, and a
  reminder was due.\<close>

definition warranted :: "Poller \<Rightarrow> poll_wake list \<Rightarrow> delivery \<Rightarrow> bool" where
  "warranted pl ws d \<longleftrightarrow> (\<exists>e. PollTick e \<in> set ws \<and> listed_by e (dl_summary d) \<and>
     hydrate (ce_api e) (pl_locale pl) (dl_summary d) = Inr (dl_event d) \<and>
     (case dl_reminder d of
        None \<Rightarrow> is_allowed (filter_evaluate (pl_filter pl) (dl_event d))
      | Some h \<Rightarrow> h \<in> set (pc_reminder_offsets_hours (pl_cfg pl)) \<and> es_end_time (dl_summary d) \<noteq> None \<and>
          is_allowed (filter_evaluate (pl_filter pl) (minimal_event (dl_summary d))) \<and>
          (case es_start_time (dl_summary d) of
             None \<Rightarrow> False
           | Some start \<Rightarrow> 0 < start - ce_reminder_now e \<and> start - ce_reminder_now e \<le> hours h)))"

lemma evaluate_reminder_cases:
  obtains (skip) "evaluate_reminder pl e suppress s st = st"
  | (run) start where "es_start_time s = Some start" "es_end_time s \<noteq> None" "0 < start - ce_reminder_now e"
      "evaluate_reminder pl e suppress s st =
         remind_offsets pl e suppress s (start - ce_reminder_now e) (pc_reminder_offsets_hours (pl_cfg pl)) st"
proof (cases "es_start_time s")
  case None
  then show thesis by (intro skip) (simp add: evaluate_reminder_def)
next
  case (Some start)
  show thesis
  proof (cases "es_end_time s = None \<or> start - ce_reminder_now e \<le> 0")
    case True
    then show thesis using Some by (intro skip) (auto simp: evaluate_reminder_def)
  next
    case False
    then show thesis using Some by (intro run) (auto simp: evaluate_reminder_def)
  qed
qed

lemma poll_event_warranted:
  assumes "PollTick e \<in> set ws" "listed_by e s" "list_all (warranted pl ws) (ps_deliveries st)"
  shows "list_all (warranted pl ws) (ps_deliveries (poll_event pl e suppress s st))"
proof (cases rule: poll_event_cases [of pl e suppress s st])
  case (send ev ok)
  have "warranted pl ws \<lparr>dl_summary = s, dl_event = ev, dl_reminder = None, dl_ok = ok\<rparr>"
    unfolding warranted_def using assms(1,2) send(3,4) by auto
  then show ?thesis using send(5) assms(3) by (cases ok) simp_all
qed (use assms(3) in simp_all)

lemma evaluate_reminder_warranted:
  assumes "PollTick e \<in> set ws" "listed_by e s" "list_all (warranted pl ws) (ps_deliveries st)"
  shows "list_all (warranted pl ws) (ps_deliveries (evaluate_reminder pl e suppress s st))"
proof (cases rule: evaluate_reminder_cases [of pl e suppress s st])
  case (run start)
  have w: "warranted pl ws \<lparr>dl_summary = s, dl_event = ev, dl_reminder = Some h, dl_ok = ok\<rparr>"
    if "h \<in> set (pc_reminder_offsets_hours (pl_cfg pl))" "start - ce_reminder_now e \<le> hours h"
      "is_allowed (filter_evaluate (pl_filter pl) (minimal_event s))" "hydrate (ce_api e) (pl_locale pl) s = Inr ev" for h ev ok
    unfolding warranted_def using assms(1,2) that run(1-3) by auto
  show ?thesis
    unfolding run(4)
    by (rule remind_offsets_keeps [where P = "\<lambda>st. list_all (warranted pl ws) (ps_deliveries st)"])
      (use assms(3) w in simp_all)
qed (use assms(3) in simp)

interpretation warranted: poller_invariant pl "\<lambda>e. PollTick e \<in> set ws" "\<lambda>cursor. True"
  "\<lambda>st. list_all (warranted pl ws) (ps_deliveries st)" for pl ws
  by unfold_locales
    (use list_events_listed upcoming_of_listed poll_event_warranted evaluate_reminder_warranted in \<open>blast | simp\<close>)+

text \<open>What later cycles of a run can still attempt: \<open>T\<close> is the end of the last queried window.\<close>

definition windowed :: "cycle_env \<Rightarrow> bool" where
  "windowed e \<longleftrightarrow> (\<forall>q x f t. eq_last_updated_times q = Some (f, t) \<longrightarrow> Inr x \<in> set (ha_describe_events (ce_api e) q) \<longrightarrow>
     (case sd_last_updated_time x of Some u \<Rightarrow> f \<le> u \<and> u \<le> t | None \<Rightarrow> False))"

definition not_before :: "int \<Rightarrow> delivery \<Rightarrow> bool" where
  "not_before T d \<longleftrightarrow> dl_reminder d \<noteq> None \<or>
     (case es_last_updated_time (dl_summary d) of Some l \<Rightarrow> to_smithy T * nanos \<le> l | None \<Rightarrow> False)"

definition extends_after :: "int \<Rightarrow> delivery list \<Rightarrow> poller_state \<Rightarrow> bool" where
  "extends_after T ds0 st \<longleftrightarrow> (\<exists>ds. ps_deliveries st = ds0 @ ds \<and> list_all (not_before T) ds)"

lemma extends_after_delivered:
  assumes "extends_after T ds0 st" "not_before T \<lparr>dl_summary = s, dl_event = ev, dl_reminder = r, dl_ok = ok\<rparr>"
    and "ps_deliveries st' = ps_deliveries (delivered s ev r ok st)"
  shows "extends_after T ds0 st'"
proof -
  obtain ds where "ps_deliveries st = ds0 @ ds" "list_all (not_before T) ds" using assms(1) by (auto simp: extends_after_def)
  then show ?thesis unfolding extends_after_def using assms(2,3)
    by (intro exI [of _ "ds @ [\<lparr>dl_summary = s, dl_event = ev, dl_reminder = r, dl_ok = ok\<rparr>]"]) simp
qed

lemma list_events_windowed:
  assumes "windowed e" "T \<le> cursor" "list_events (ce_api e) cursor (ce_to e) sv cs = Inr ss" "s \<in> set ss"
  shows "\<exists>l. es_last_updated_time s = Some l \<and> to_smithy T * nanos \<le> l"
proof -
  obtain x where x: "s = summary_of x" "Inr x \<in> set (ha_describe_events (ce_api e)
      \<lparr>eq_last_updated_times = Some (to_smithy cursor, to_smithy (ce_to e)), eq_start_times = None,
       eq_services = filter (\<lambda>s. s \<noteq> []) sv, eq_categories = filter (\<lambda>c. c \<noteq> []) cs,
       eq_status_codes = [''open'', ''upcoming'']\<rparr>)"
    using collect_items_set [OF assms(3) [unfolded list_events_def] assms(4)] by blast
  obtain u where u: "sd_last_updated_time x = Some u" "to_smithy cursor \<le> u"
    using assms(1) [unfolded windowed_def, rule_format, OF _ x(2)] by (auto split: option.splits)
  have "to_smithy T \<le> u" using u(2) assms(2) zdiv_mono1 [of T cursor nanos] by (simp add: to_smithy_def nanos_def)
  then show ?thesis using u(1) x(1) by (simp add: summary_of_def from_smithy_def nanos_def)
qed

interpretation after: poller_invariant pl "\<lambda>e. windowed e \<and> T \<le> ce_to e" "\<lambda>cursor. T \<le> cursor"
  "extends_after T ds0" for pl T ds0
proof unfold_locales
  fix e cursor sv cs ss s st suppress
  assume e: "windowed e \<and> T \<le> ce_to e" and c: "T \<le> cursor" and st: "extends_after T ds0 st"
    and s: "list_events (ce_api e) cursor (ce_to e) sv cs = Inr ss" "s \<in> set ss"
  have nb: "not_before T \<lparr>dl_summary = s, dl_event = ev, dl_reminder = None, dl_ok = ok\<rparr>" for ev ok
    using list_events_windowed [OF _ c s] e by (auto simp: not_before_def)
  show "extends_after T ds0 (poll_event pl e suppress s st)"
  proof (cases rule: poll_event_cases [of pl e suppress s st])
    case (send ev ok)
    then show ?thesis by (intro extends_after_delivered [OF st nb, of _ ev ok]) simp
  qed (use st in \<open>simp_all add: extends_after_def\<close>)
next
  fix e s st suppress
  assume st: "extends_after T ds0 st"
  show "extends_after T ds0 (evaluate_reminder pl e suppress s st)"
  proof (cases rule: evaluate_reminder_cases [of pl e suppress s st])
    case (run start)
    show ?thesis unfolding run(4)
    proof (rule remind_offsets_keeps [where P = "extends_after T ds0"])
      fix h st ev ok
      assume "extends_after T ds0 st"
      then show "extends_after T ds0 (if ok then delivered s ev (Some h) ok st\<lparr>ps_fired := mark_fired (es_arn s) h (ps_fired st)\<rparr>
          else delivered s ev (Some h) ok st)"
        by (rule extends_after_delivered [where r = "Some h" and ok = ok and ev = ev and s = s]) (simp_all add: not_before_def)
    qed (use st in \<open>simp_all add: extends_after_def\<close>)
  qed (use st in simp)
qed (simp_all add: extends_after_def)

fun end_cursor :: "int \<Rightarrow> poll_wake list \<Rightarrow> int" where
  "end_cursor cursor [] = cursor"
| "end_cursor cursor (PollShutdown # ws) = cursor"
| "end_cursor cursor (PollTick e # ws) = end_cursor (ce_to e) ws"

lemma poller_loop_append:
  "poller_loop pl cursor first_run (ws @ ws') st =
     (let (stopped, st1) = poller_loop pl cursor first_run ws st
      in if stopped then (stopped, st1) else poller_loop pl (end_cursor cursor ws) (first_run \<and> ws = []) ws' st1)"
proof (induction ws arbitrary: cursor first_run st)
  case (Cons w ws)
  then show ?case by (cases w) (simp_all add: Let_def split: prod.splits)
qed simp

text \<open>The reminders of one event and offset that went through.\<close>

definition reminded :: "string \<Rightarrow> nat \<Rightarrow> delivery list \<Rightarrow> nat" where
  "reminded arn h ds = length (filter (\<lambda>d. dl_ok d \<and> dl_reminder d = Some h \<and> es_arn (dl_summary d) = arn) ds)"

definition once_inv :: "string \<Rightarrow> nat \<Rightarrow> poller_state \<Rightarrow> bool" where
  "once_inv arn h st \<longleftrightarrow> reminded arn h (ps_deliveries st) \<le> (if (arn, h) \<in> ps_fired st then 1 else 0)"

text \<open>
  What the upcoming query of a cycle, the poller's own, says of an event when AWS answers it: listed or not.
\<close>

definition lists_upcoming :: "bool \<Rightarrow> Poller \<Rightarrow> string \<Rightarrow> cycle_env \<Rightarrow> bool" where
  "lists_upcoming yes pl arn e \<longleftrightarrow> (case upcoming_of pl e of
     Inl err \<Rightarrow> True
   | Inr ss \<Rightarrow> (arn \<in> set (map es_arn ss)) = yes)"

abbreviation each_tick :: "(cycle_env \<Rightarrow> bool) \<Rightarrow> poll_wake list \<Rightarrow> bool" where
  "each_tick P ws \<equiv> list_all (\<lambda>w. case w of PollTick e \<Rightarrow> P e | PollShutdown \<Rightarrow> True) ws"

lemma reminded_append: "reminded arn h (ds @ [d]) =
    reminded arn h ds + (if dl_ok d \<and> dl_reminder d = Some h \<and> es_arn (dl_summary d) = arn then 1 else 0)"
  by (simp add: reminded_def)

lemma remind_offsets_once:
  assumes "once_inv arn h st"
  shows "once_inv arn h (remind_offsets pl e suppress s u hs st)"
proof (rule remind_offsets_keeps [where P = "once_inv arn h"])
  fix g st ev ok
  assume "once_inv arn h st" "should_fire (ps_fired st) (es_arn s) g"
  then show "once_inv arn h (if ok then delivered s ev (Some g) ok st\<lparr>ps_fired := mark_fired (es_arn s) g (ps_fired st)\<rparr>
      else delivered s ev (Some g) ok st)"
    by (cases ok) (auto simp: once_inv_def reminded_append mark_fired_def should_fire_def split: if_splits)
qed (use assms in \<open>auto simp: once_inv_def mark_fired_def split: if_splits\<close>)

interpretation once: poller_invariant pl "lists_upcoming True pl arn" "\<lambda>cursor. True" "once_inv arn h" for pl arn h
proof unfold_locales
  fix e s st suppress
  assume st: "once_inv arn h st"
  show "once_inv arn h (poll_event pl e suppress s st)"
    by (cases rule: poll_event_cases [of pl e suppress s st])
      (use st in \<open>simp_all add: once_inv_def reminded_append split: if_splits\<close>)
  show "once_inv arn h (evaluate_reminder pl e suppress s st)"
    by (cases rule: evaluate_reminder_cases [of pl e suppress s st]) (use st remind_offsets_once in simp_all)
next
  fix e ss st
  assume "lists_upcoming True pl arn e" "upcoming_of pl e = Inr ss" "once_inv arn h st"
  then show "once_inv arn h (st\<lparr>ps_fired := retain_relevant (\<lambda>arn. arn \<in> set (map es_arn ss)) (ps_fired st)\<rparr>)"
    by (simp add: lists_upcoming_def once_inv_def retain_relevant_def)
next
  fix e st
  show "once_inv arn h st \<Longrightarrow>
      once_inv arn h (st\<lparr>ps_seen := prune_older_than (ce_prune_now e) (hours PRUNE_AFTER_HOURS) (ps_seen st)\<rparr>)"
    by (simp add: once_inv_def)
qed simp

text \<open>While an event is not listed as upcoming, no reminder for it is sent.\<close>

lemma other_event_not_reminded:
  assumes "es_arn s \<noteq> arn" "reminded arn h (ps_deliveries st) \<le> k"
  shows "reminded arn h (ps_deliveries (evaluate_reminder pl e suppress s st)) \<le> k"
proof (cases rule: evaluate_reminder_cases [of pl e suppress s st])
  case (run start)
  show ?thesis
    unfolding run(4)
    by (rule remind_offsets_keeps [where P = "\<lambda>st. reminded arn h (ps_deliveries st) \<le> k"])
      (use assms in \<open>simp_all add: reminded_append\<close>)
qed (use assms in simp)

interpretation unlisted: poller_invariant pl "lists_upcoming False pl arn" "\<lambda>cursor. True"
  "\<lambda>st. reminded arn h (ps_deliveries st) \<le> k" for pl arn h k
proof unfold_locales
  fix e s suppress and st :: poller_state
  assume "reminded arn h (ps_deliveries st) \<le> k"
  then show "reminded arn h (ps_deliveries (poll_event pl e suppress s st)) \<le> k"
    by (cases rule: poll_event_cases [of pl e suppress s st]) (simp_all add: reminded_append split: if_splits)
next
  fix e ss s suppress and st :: poller_state
  assume "lists_upcoming False pl arn e" "upcoming_of pl e = Inr ss" "s \<in> set ss" and r: "reminded arn h (ps_deliveries st) \<le> k"
  then have "es_arn s \<noteq> arn" by (auto simp: lists_upcoming_def)
  then show "reminded arn h (ps_deliveries (evaluate_reminder pl e suppress s st)) \<le> k"
    using r by (rule other_event_not_reminded)
qed simp_all

lemma poller_loop_parts:
  "snd (poller_loop pl cursor first_run (ws @ ws') st) = snd (poller_loop pl cursor first_run ws st) \<or>
   (\<exists>c f. snd (poller_loop pl cursor first_run (ws @ ws') st) =
      snd (poller_loop pl c f ws' (snd (poller_loop pl cursor first_run ws st))))"
  unfolding poller_loop_append by (cases "poller_loop pl cursor first_run ws st") auto

text \<open>The suppressed first cycle.\<close>

lemma suppressed_event_frame:
  "ps_deliveries (poll_event pl e True s st) = ps_deliveries st" "ps_fired (poll_event pl e True s st) = ps_fired st"
  by (simp_all add: poll_event_def Let_def)

lemma suppressed_events_frame:
  "ps_deliveries (fold (poll_event pl e True) ss st) = ps_deliveries st"
  "ps_fired (fold (poll_event pl e True) ss st) = ps_fired st"
  by (induction ss arbitrary: st) (simp_all add: suppressed_event_frame)

lemma suppressed_event_seen:
  assumes "es_last_updated_time s = Some l"
  shows "covered (ps_seen (poll_event pl e True s st)) (es_arn s, l)"
    and "covered (ps_seen st) v \<Longrightarrow> covered (ps_seen (poll_event pl e True s st)) v"
  using covered_mark [of "ps_seen st" "es_arn s" l] assms
  by (auto simp: poll_event_def Let_def should_process_dated)

lemma suppressed_events_keep:
  assumes "list_all (\<lambda>s. es_last_updated_time s \<noteq> None) ss" "covered (ps_seen st) v"
  shows "covered (ps_seen (fold (poll_event pl e True) ss st)) v"
  using assms by (induction ss arbitrary: st) (auto simp: suppressed_event_seen(2))

lemma suppressed_events_seen:
  assumes "list_all (\<lambda>s. es_last_updated_time s \<noteq> None) ss" "s \<in> set ss" "es_last_updated_time s = Some l"
  shows "covered (ps_seen (fold (poll_event pl e True) ss st)) (es_arn s, l)"
  using assms(1,2)
proof (induction ss arbitrary: st)
  case (Cons x ss)
  then show ?case
    using suppressed_events_keep [of ss] suppressed_event_seen(1) [OF assms(3)] by (cases "x = s") auto
qed simp

lemma suppressed_offsets:
  "remind_offsets pl e True s u hs st =
     st\<lparr>ps_fired := ps_fired st \<union> {(es_arn s, h) |h. h \<in> set hs \<and> u \<le> hours h}\<rparr>"
proof (induction hs arbitrary: st)
  case (Cons h hs)
  have "{(es_arn s, g) |g. g \<in> set (h # hs) \<and> u \<le> hours g} =
      (if u \<le> hours h then {(es_arn s, h)} else {}) \<union> {(es_arn s, g) |g. g \<in> set hs \<and> u \<le> hours g}" by auto
  then show ?case
    by (auto simp: Let_def Cons.IH should_fire_def mark_fired_def insert_absorb)
qed simp

definition due :: "Poller \<Rightarrow> cycle_env \<Rightarrow> EventSummary \<Rightarrow> nat \<Rightarrow> bool" where
  "due pl e s h \<longleftrightarrow> h \<in> set (pc_reminder_offsets_hours (pl_cfg pl)) \<and> es_end_time s \<noteq> None \<and>
     (case es_start_time s of None \<Rightarrow> False
      | Some start \<Rightarrow> 0 < start - ce_reminder_now e \<and> start - ce_reminder_now e \<le> hours h)"

lemma suppressed_reminder:
  "evaluate_reminder pl e True s st = st\<lparr>ps_fired := ps_fired st \<union> {(es_arn s, h) |h. due pl e s h}\<rparr>"
  by (auto simp: evaluate_reminder_def due_def suppressed_offsets Let_def split: option.splits)

lemma suppressed_reminders:
  "fold (evaluate_reminder pl e True) ss st =
     st\<lparr>ps_fired := ps_fired st \<union> {(es_arn s, h) |s h. s \<in> set ss \<and> due pl e s h}\<rparr>"
proof (induction ss arbitrary: st)
  case (Cons s ss)
  have "{(es_arn x, h) |x h. x \<in> set (s # ss) \<and> due pl e x h} =
      {(es_arn s, h) |h. due pl e s h} \<union> {(es_arn x, h) |x h. x \<in> set ss \<and> due pl e x h}" by auto
  then show ?case by (simp add: Cons.IH Un_assoc) (simp add: suppressed_reminder Un_assoc)
qed simp

lemma poll_reminders_suppressed_frame:
  "ps_deliveries (snd (poll_reminders pl e True st)) = ps_deliveries st"
  "ps_seen (snd (poll_reminders pl e True st)) = ps_seen st"
  by (simp_all add: poll_reminders_def Let_def suppressed_reminders split: sum.splits)

lemma fold_max_zero: "fold max hs (0::nat) = 0 \<Longrightarrow> h \<in> set hs \<Longrightarrow> h = 0"
  using Max.set_eq_fold [of 0 hs] by (metis List.finite_set Max_ge finite.insertI insert_iff le_zero_eq list.simps(15))

lemma poll_reminders_seeds:
  assumes "list_upcoming (ce_api e) (ce_upcoming_now e) (hours (fold max (pc_reminder_offsets_hours (pl_cfg pl)) 0))
      (pc_services (pl_cfg pl)) (pc_categories (pl_cfg pl)) = Inr us"
    and "s \<in> set us" "due pl e s h"
  shows "(es_arn s, h) \<in> ps_fired (snd (poll_reminders pl e True st))"
proof -
  have "fold max (pc_reminder_offsets_hours (pl_cfg pl)) 0 \<noteq> 0"
    using assms(3) fold_max_zero [of "pc_reminder_offsets_hours (pl_cfg pl)" h]
    by (fastforce simp: due_def hours_def split: option.splits)
  then show ?thesis
    using assms by (auto simp: poll_reminders_def Let_def suppressed_reminders retain_relevant_def)
qed

subsection \<open>Properties\<close>

text \<open>
  C15. No version of an event is announced twice: the announcements that went through in a run are pairwise
  different versions, a version being an event and its last update, among those updated no earlier than
  the point up to which the tracker was pruned. AWS is taken to date its events, which it documents.
\<close>

theorem no_version_announced_twice:
  assumes "list_all (\<lambda>w. case w of PollTick e \<Rightarrow> dated e \<and> ce_prune_now e - hours PRUNE_AFTER_HOURS \<le> B | PollShutdown \<Rightarrow> True) ws"
  shows "distinct (recent B (notified (ps_deliveries (snd (poller_run pl now ws)))))"
proof -
  have "fresh_inv B (snd (poller_run pl now ws))"
    unfolding poller_run_def
    by (rule fresh.loop_keeps [OF assms]) (simp_all add: fresh_inv_def empty_poller_state_def notified_def recent_def)
  then show ?thesis by (simp add: fresh_inv_def)
qed

text \<open>
  C16. Every message the daemon tries to send is warranted: it is about an event AWS listed in a cycle of the
  run, with the details of that cycle, an announcement passed the filter, and a reminder has a configured
  offset, passed the filter, is about an event with a start and an end, and is sent within the offset
  before the start.
\<close>

theorem every_message_is_warranted:
  "list_all (warranted pl ws) (ps_deliveries (snd (poller_run pl now ws)))"
  unfolding poller_run_def
  by (rule warranted.loop_keeps [of ws ws]) (auto simp: empty_poller_state_def list_all_iff split: poll_wake.splits)

text \<open>
  C17. A window is not queried again. Take a run with a cycle whose window ends at \<open>ce_to e\<close>, such that no later
  window ends earlier (the clock does not go back) and in the later cycles AWS answers a query with events that
  were updated in its window, which it documents. Then the later cycles attempt no announcement of an event last
  updated before \<open>ce_to e\<close> cut to the whole second, the precision of the queries, whether an earlier
  announcement went through, was refused by Slack, or was never attempted because AWS failed. Only an
  event updated within that last second can still be announced again. So for all others the comments that promise
  a retry in the next cycle do not hold.
\<close>

theorem past_window_is_never_revisited:
  assumes "list_all (\<lambda>w. case w of PollTick e' \<Rightarrow> windowed e' \<and> ce_to e \<le> ce_to e' | PollShutdown \<Rightarrow> True) later"
  shows "\<exists>ds. ps_deliveries (snd (poller_run pl now (earlier @ [PollTick e] @ later))) =
      ps_deliveries (snd (poller_run pl now (earlier @ [PollTick e]))) @ ds \<and> list_all (not_before (ce_to e)) ds"
proof -
  define cursor where "cursor = start_cursor now (pc_initial_lookback (pl_cfg pl))"
  obtain stopped st where l1: "poller_loop pl cursor True (earlier @ [PollTick e]) empty_poller_state = (stopped, st)"
    by fastforce
  have all: "poller_loop pl cursor True (earlier @ [PollTick e] @ later) empty_poller_state =
      (if stopped then (stopped, st) else poller_loop pl (end_cursor cursor (earlier @ [PollTick e])) False later st)"
    using poller_loop_append [of pl cursor True "earlier @ [PollTick e]" later empty_poller_state] l1 by simp
  show ?thesis
  proof (cases stopped)
    case True
    then show ?thesis using all l1 by (intro exI [of _ "[]"]) (simp add: poller_run_def cursor_def)
  next
    case False
    have c: "end_cursor cursor' (ws @ [PollTick e]) = ce_to e"
      if "\<not> fst (poller_loop pl cursor' f (ws @ [PollTick e]) s)" for cursor' f ws s
      using that by (induction pl cursor' f ws s rule: poller_loop.induct) simp_all
    have "extends_after (ce_to e) (ps_deliveries st) (snd (poller_loop pl (ce_to e) False later st))"
      by (rule after.loop_keeps [OF assms]) (simp_all add: extends_after_def)
    then show ?thesis
      using all l1 False c [of cursor True earlier empty_poller_state] by (simp add: poller_run_def cursor_def extends_after_def)
  qed
qed

text \<open>
  C34. A reminder is sent once. Consider a run in which AWS, in the cycles where it answers the poller's own upcoming
  query, first does not list an event, then lists it throughout, and then no longer lists it: the event comes within
  the largest offset, stays upcoming, and starts. At most one reminder of the event goes through for each offset,
  however many cycles fail or are repeated and whatever the other queries answer.
\<close>

theorem reminder_goes_through_once:
  assumes "each_tick (lists_upcoming False pl arn) before" and "each_tick (lists_upcoming True pl arn) during"
    and "each_tick (lists_upcoming False pl arn) after"
  shows "reminded arn h (ps_deliveries (snd (poller_run pl now (before @ during @ after)))) \<le> 1"
proof -
  have d: "reminded arn h (ps_deliveries (snd (poller_loop pl c f (during @ after) st))) \<le> 1"
    if st: "reminded arn h (ps_deliveries st) \<le> 0" for c f st
  proof -
    have "once_inv arn h (snd (poller_loop pl c f during st))"
      by (rule once.loop_keeps [OF assms(2)]) (use st in \<open>simp_all add: once_inv_def\<close>)
    then have one: "reminded arn h (ps_deliveries (snd (poller_loop pl c f during st))) \<le> 1"
      by (simp add: once_inv_def split: if_splits)
    show ?thesis
      using poller_loop_parts [of pl c f during after st] unlisted.loop_keeps [OF assms(3) _ one] one by auto
  qed
  let ?c = "start_cursor now (pc_initial_lookback (pl_cfg pl))"
  have "reminded arn h (ps_deliveries (snd (poller_loop pl ?c True before empty_poller_state))) \<le> 0"
    by (rule unlisted.loop_keeps [OF assms(1)]) (simp_all add: empty_poller_state_def reminded_def)
  then show ?thesis
    using poller_loop_parts [of pl ?c True before "during @ after" empty_poller_state] d unfolding poller_run_def by fastforce
qed

text \<open>
  A suppressed cold start is silent and leaves nothing pending: the first cycle sends nothing, what it
  listed is not processed again unless it is older than the pruning cut-off, and every reminder due
  then is recorded as fired.
\<close>

theorem cold_start_is_silent:
  assumes "pc_cold_start_suppress (pl_cfg pl)" and "dated e"
    and ss: "list_events (ce_api e) cursor (ce_to e) (pc_services (pl_cfg pl)) (pc_categories (pl_cfg pl)) = Inr ss"
    and us: "list_upcoming (ce_api e) (ce_upcoming_now e) (hours (fold max (pc_reminder_offsets_hours (pl_cfg pl)) 0))
      (pc_services (pl_cfg pl)) (pc_categories (pl_cfg pl)) = Inr us"
  shows "ps_deliveries (poll_cycle pl e cursor True st) = ps_deliveries st \<and>
    (\<forall>s l. s \<in> set ss \<longrightarrow> es_last_updated_time s = Some l \<longrightarrow> ce_prune_now e - hours PRUNE_AFTER_HOURS \<le> l \<longrightarrow>
       \<not> should_process (ps_seen (poll_cycle pl e cursor True st)) (es_arn s) (Some l)) \<and>
    (\<forall>s h. s \<in> set us \<longrightarrow> due pl e s h \<longrightarrow> (es_arn s, h) \<in> ps_fired (poll_cycle pl e cursor True st))"
proof (intro conjI allI impI)
  define st1 where "st1 = fold (poll_event pl e True) ss st"
  define st2 where "st2 = (if pc_reminder_offsets_hours (pl_cfg pl) \<noteq> [] then snd (poll_reminders pl e True st1) else st1)"
  have cyc: "poll_cycle pl e cursor True st =
      st2\<lparr>ps_seen := prune_older_than (ce_prune_now e) (hours PRUNE_AFTER_HOURS) (ps_seen st2)\<rparr>"
    using assms(1) ss by (simp add: poll_cycle_def poll_once_def st1_def st2_def Let_def)
  have fr: "ps_deliveries st2 = ps_deliveries st" "ps_seen st2 = ps_seen st1"
    by (simp_all add: st2_def st1_def poll_reminders_suppressed_frame suppressed_events_frame)
  show "ps_deliveries (poll_cycle pl e cursor True st) = ps_deliveries st" by (simp add: cyc fr)
  fix s
  show "\<not> should_process (ps_seen (poll_cycle pl e cursor True st)) (es_arn s) (Some l)"
    if "s \<in> set ss" "es_last_updated_time s = Some l" "ce_prune_now e - hours PRUNE_AFTER_HOURS \<le> l" for l
  proof -
    have "list_all (\<lambda>s. es_last_updated_time s \<noteq> None) ss"
      using assms(2) list_events_listed [OF ss] by (auto simp: list_all_iff dated_def)
    then have "covered (ps_seen st1) (es_arn s, l)" unfolding st1_def using that(1,2) by (rule suppressed_events_seen)
    then show ?thesis using that(3) by (simp add: cyc fr should_process_dated covered_prune)
  qed
  show "(es_arn s, h) \<in> ps_fired (poll_cycle pl e cursor True st)" if "s \<in> set us" "due pl e s h" for h
    using poll_reminders_seeds [OF us that] that(2) by (auto simp: cyc st2_def due_def)
qed

subsection \<open>A daemon and one event\<close>

text \<open>One event, last updated at second 100 and starting at second 86500, which AWS lists for every window with
  second 100, and as upcoming for every window with second 86500.\<close>

definition demo_sdk_event :: sdk_event where
  "demo_sdk_event = \<lparr>sd_arn = Some ''a1'', sd_service = Some ''EC2'', sd_event_type_code = Some ''R'',
     sd_event_type_category = Some ''issue'', sd_region = Some ''global'', sd_start_time = Some 86500, sd_end_time = Some 90000,
     sd_last_updated_time = Some 100, sd_status_code = Some ''open''\<rparr>"

definition demo_health_api :: health_api where
  "demo_health_api = \<lparr>ha_describe_events = (\<lambda>q. case eq_last_updated_times q of
       Some (f, t) \<Rightarrow> if f \<le> 100 \<and> 100 \<le> t then [Inr demo_sdk_event] else []
     | None \<Rightarrow> (case eq_start_times q of
         Some (f, t) \<Rightarrow> if f \<le> 86500 \<and> 86500 \<le> t then [Inr demo_sdk_event] else []
       | None \<Rightarrow> [Inr demo_sdk_event])),
     ha_event_details = (\<lambda>arn lang. Inr [(None, Some (Some ''text''))]), ha_affected_entities = (\<lambda>arn. []),
     ha_fmt = (\<lambda>t. ''t'')\<rparr>"

definition demo_cycle :: "bool \<Rightarrow> int \<Rightarrow> cycle_env" where
  "demo_cycle up t = \<lparr>ce_api = demo_health_api, ce_slack = (\<lambda>ds ev r. if up then Inr () else Inl ''503''),
     ce_to = t * nanos, ce_mark_now = t * nanos, ce_upcoming_now = t * nanos, ce_reminder_now = t * nanos,
     ce_prune_now = t * nanos\<rparr>"

definition demo_poller :: "bool \<Rightarrow> Poller" where
  "demo_poller suppress = \<lparr>pl_locale = ''en'', pl_filter = filter_new demo_lists,
     pl_cfg = \<lparr>pc_initial_lookback = 0, pc_cold_start_suppress = suppress, pc_services = [], pc_categories = [],
       pc_reminder_offsets_hours = [24, 2]\<rparr>\<rparr>"

lemma demo_listed: "listed_by (demo_cycle up t) s \<Longrightarrow> s = summary_of demo_sdk_event"
  by (auto simp: listed_by_def demo_cycle_def demo_health_api_def split: option.splits if_splits)

lemma demo_prune_now [simp]: "ce_prune_now (demo_cycle up t) = t * nanos"
  by (simp add: demo_cycle_def)

lemma demo_dated: "dated (demo_cycle up t)"
  unfolding dated_def by (auto dest!: demo_listed simp: summary_of_def demo_sdk_event_def from_smithy_def)

lemma demo_windowed: "windowed (demo_cycle up t)"
  by (auto simp: windowed_def demo_cycle_def demo_health_api_def demo_sdk_event_def split: if_splits)

theorem no_version_announced_twice_witness:
  "let ds = ps_deliveries (snd (poller_run (demo_poller False) 0 [PollTick (demo_cycle True 100), PollTick (demo_cycle True 160)]))
   in distinct (recent 0 (notified ds)) \<and> notified ds = [(''a1'', 100 * nanos)]"
proof -
  have "distinct (recent 0 (notified (ps_deliveries (snd (poller_run (demo_poller False) 0
      [PollTick (demo_cycle True 100), PollTick (demo_cycle True 160)])))))"
    by (rule no_version_announced_twice)
      (simp add: demo_dated hours_def PRUNE_AFTER_HOURS_def nanos_def)
  moreover have "notified (ps_deliveries (snd (poller_run (demo_poller False) 0
      [PollTick (demo_cycle True 100), PollTick (demo_cycle True 160)]))) = [(''a1'', 100 * nanos)]"
    by code_simp
  ultimately show ?thesis by (simp add: Let_def)
qed

text \<open>Slack refuses the announcement in the first cycle and accepts everything in the second, and the event
  is lost.\<close>

theorem past_window_is_never_revisited_witness:
  "let w = [PollTick (demo_cycle False 150)]; ds = ps_deliveries (snd (poller_run (demo_poller False) 0 w));
       ds' = ps_deliveries (snd (poller_run (demo_poller False) 0 (w @ [PollTick (demo_cycle True 210)])))
   in (\<exists>rest. ds' = ds @ rest \<and> list_all (not_before (150 * nanos)) rest) \<and>
      map (\<lambda>d. (dl_reminder d, dl_ok d)) ds' = [(None, False), (Some 24, False), (Some 24, True)]"
proof -
  have "\<exists>ds. ps_deliveries (snd (poller_run (demo_poller False) 0
        ([] @ [PollTick (demo_cycle False 150)] @ [PollTick (demo_cycle True 210)]))) =
      ps_deliveries (snd (poller_run (demo_poller False) 0 ([] @ [PollTick (demo_cycle False 150)]))) @ ds \<and>
      list_all (not_before (ce_to (demo_cycle False 150))) ds"
    by (rule past_window_is_never_revisited)
      (simp add: demo_windowed, simp add: demo_cycle_def nanos_def)
  moreover have "map (\<lambda>d. (dl_reminder d, dl_ok d)) (ps_deliveries (snd (poller_run (demo_poller False) 0
      [PollTick (demo_cycle False 150), PollTick (demo_cycle True 210)]))) =
      [(None, False), (Some 24, False), (Some 24, True)]"
    by code_simp
  moreover have "ce_to (demo_cycle False 150) = 150 * nanos" by (simp add: demo_cycle_def)
  ultimately show ?thesis by (simp add: Let_def)
qed

text \<open>The event comes into the window of a day after the first cycle and is gone from it in the last.\<close>

theorem reminder_goes_through_once_witness:
  "let ds = ps_deliveries (snd (poller_run (demo_poller False) 0 ([PollTick (demo_cycle True 50)] @
     [PollTick (demo_cycle False 150), PollTick (demo_cycle True 210), PollTick (demo_cycle True 270)] @
     [PollTick (demo_cycle True 86600)])))
   in reminded ''a1'' 24 ds \<le> 1 \<and> reminded ''a1'' 24 ds = 1"
proof -
  have "reminded ''a1'' 24 (ps_deliveries (snd (poller_run (demo_poller False) 0 ([PollTick (demo_cycle True 50)] @
     [PollTick (demo_cycle False 150), PollTick (demo_cycle True 210), PollTick (demo_cycle True 270)] @
     [PollTick (demo_cycle True 86600)])))) \<le> 1"
    by (rule reminder_goes_through_once) code_simp+
  moreover have "reminded ''a1'' 24 (ps_deliveries (snd (poller_run (demo_poller False) 0 ([PollTick (demo_cycle True 50)] @
     [PollTick (demo_cycle False 150), PollTick (demo_cycle True 210), PollTick (demo_cycle True 270)] @
     [PollTick (demo_cycle True 86600)])))) = 1"
    by code_simp
  ultimately show ?thesis by (simp add: Let_def)
qed

theorem cold_start_is_silent_witness:
  "ps_deliveries (poll_cycle (demo_poller True) (demo_cycle True 150) 0 True empty_poller_state) = [] \<and>
   \<not> should_process (ps_seen (poll_cycle (demo_poller True) (demo_cycle True 150) 0 True empty_poller_state)) ''a1'' (Some (100 * nanos)) \<and>
   (''a1'', 24) \<in> ps_fired (poll_cycle (demo_poller True) (demo_cycle True 150) 0 True empty_poller_state)"
proof -
  let ?s = "summary_of demo_sdk_event" and ?e = "demo_cycle True 150"
  have "list_events (ce_api ?e) 0 (ce_to ?e) (pc_services (pl_cfg (demo_poller True))) (pc_categories (pl_cfg (demo_poller True))) = Inr [?s]"
    "list_upcoming (ce_api ?e) (ce_upcoming_now ?e) (hours (fold max (pc_reminder_offsets_hours (pl_cfg (demo_poller True))) 0))
      (pc_services (pl_cfg (demo_poller True))) (pc_categories (pl_cfg (demo_poller True))) = Inr [?s]"
    by code_simp+
  note c = cold_start_is_silent [OF _ demo_dated this, of empty_poller_state]
  have "pc_cold_start_suppress (pl_cfg (demo_poller True))" by (simp add: demo_poller_def)
  note c = c [OF this]
  have s: "es_arn ?s = ''a1''" "es_last_updated_time ?s = Some (100 * nanos)" "due (demo_poller True) ?e ?s 24"
    "ce_prune_now ?e - hours PRUNE_AFTER_HOURS \<le> 100 * nanos" by code_simp+
  show ?thesis using c s by (simp add: empty_poller_state_def)
qed

end
