(* ===== verification/Vas_Policy.thy ===== *)
theory Vas_Policy
  imports Rust_Text Complex_Main
begin

section \<open>volume-autoscaler: scaling rules and assignment of instances (autoscaler.rs, instance\_volume/policy.rs, crd.rs)\<close>

text \<open>
  How an InstanceVolumeAutoscaler resource becomes resize settings, how large one step is, and which
  instances each autoscaler may touch. Durations are whole seconds, 32-bit integers are integers
  with their bounds where the code meets them. The code reads a Kubernetes quantity in floating point;
  the two answers it needs of it are the parameter \<open>quantity\<close>. Tags are association lists in key order.
\<close>

definition i32_max :: int where "i32_max = 2147483647"

subsection \<open>Scaling rules\<close>

datatype SelectPolicy = SelectMax | SelectMin | SelectDisabled

datatype ScalingPolicyType = PercentType | GiBType

record ScalingPolicy =
  sp_type :: ScalingPolicyType
  sp_value :: int

record ScalingRules =
  sr_select_policy :: SelectPolicy
  sr_policies :: "ScalingPolicy list"
  sr_cooldown_duration :: "string option"

record Behavior =
  bh_scale_up :: "ScalingRules option"

datatype Step = StepPercent int | StepGiB int

definition DEFAULT_UTILIZATION_PERCENT :: int where "DEFAULT_UTILIZATION_PERCENT = 80"
definition DEFAULT_STEP_PERCENT :: int where "DEFAULT_STEP_PERCENT = 10"
definition DEFAULT_STEP_GIB :: int where "DEFAULT_STEP_GIB = 1"

fun compile_policies :: "ScalingPolicy list \<Rightarrow> string + Step list" where
  "compile_policies [] = Inr []"
| "compile_policies (p # ps) =
     (if sp_value p \<le> 0 then Inl (''scaleUp policy value must be positive, got '' @ show_int (sp_value p))
      else case compile_policies ps of
             Inl e \<Rightarrow> Inl e
           | Inr ss \<Rightarrow> Inr ((case sp_type p of PercentType \<Rightarrow> StepPercent (sp_value p) | GiBType \<Rightarrow> StepGiB (sp_value p)) # ss))"

definition compile_steps :: "ScalingPolicy list \<Rightarrow> string + Step list" where
  "compile_steps policies =
     (if policies = [] then Inr [StepPercent DEFAULT_STEP_PERCENT, StepGiB DEFAULT_STEP_GIB]
      else compile_policies policies)"

fun step_size :: "int \<Rightarrow> Step \<Rightarrow> int" where
  "step_size cur (StepPercent p) = trunc_div (cur * p + 99) 100"
| "step_size cur (StepGiB g) = g"

definition step_up :: "int \<Rightarrow> Step list \<Rightarrow> bool \<Rightarrow> int" where
  "step_up cur steps select_min =
     (let sizes = map (step_size cur) steps;
          step = (case sizes of [] \<Rightarrow> 0 | x # xs \<Rightarrow> if select_min then fold min xs x else fold max xs x);
          next_size = max (cur + step) (cur + 1)
      in if - i32_max - 1 \<le> next_size \<and> next_size \<le> i32_max then next_size else i32_max)"

subsection \<open>Cooldowns\<close>

definition MIN_COOLDOWN :: nat where "MIN_COOLDOWN = 6 * 3600"

definition saturating_add_u64 :: "nat \<Rightarrow> nat \<Rightarrow> nat" where
  "saturating_add_u64 a b = min u64_max (a + b)"

definition cooldown_unit :: "char \<Rightarrow> nat option" where
  "cooldown_unit c =
     (if c = CHR ''h'' then Some 3600 else if c = CHR ''m'' then Some 60 else if c = CHR ''s'' then Some 1 else None)"

fun cooldown_chars :: "nat \<Rightarrow> string \<Rightarrow> string \<Rightarrow> nat option" where
  "cooldown_chars secs digits [] = (if digits = [] then Some secs else None)"
| "cooldown_chars secs digits (c # cs) =
     (if is_ascii_digit c then cooldown_chars secs (digits @ [c]) cs
      else case cooldown_unit c of
             None \<Rightarrow> None
           | Some unit_secs \<Rightarrow>
               (case parse_uint u64_max digits of
                  None \<Rightarrow> None
                | Some n \<Rightarrow> cooldown_chars (saturating_add_u64 secs (saturating_mul_u64 n unit_secs)) [] cs))"

definition parse_cooldown :: "string \<Rightarrow> string + nat" where
  "parse_cooldown raw =
     (case (if raw = [] then None else cooldown_chars 0 [] raw) of
        Some d \<Rightarrow> Inr d
      | None \<Rightarrow> Inl (''invalid duration '' @ debug_str raw @ '': use h, m, and s such as 6h30m''))"

definition format_cooldown :: "nat \<Rightarrow> string" where
  "format_cooldown s =
     (let parts = [(s div 3600, CHR ''h''), ((s mod 3600) div 60, CHR ''m''), (s mod 60, CHR ''s'')];
          out = concat (map (\<lambda>(n, u). show_nat n @ [u]) (filter (\<lambda>(n, u). n > 0) parts))
      in if out = [] then ''0s'' else out)"

definition cooldown_of :: "string option \<Rightarrow> string + nat" where
  "cooldown_of raw_opt =
     (case raw_opt of
        None \<Rightarrow> Inr MIN_COOLDOWN
      | Some raw \<Rightarrow>
          (case parse_cooldown raw of
             Inl e \<Rightarrow> Inl (''behavior.scaleUp.cooldownDuration: '' @ e)
           | Inr d \<Rightarrow>
               if d < MIN_COOLDOWN
               then Inl (''behavior.scaleUp.cooldownDuration '' @ debug_str raw @
                 '' is shorter than 6h, which keeps a volume within the EBS limit of four modifications in 24 hours'')
               else Inr d))"

subsection \<open>Autoscaler resources\<close>

datatype TargetKind = InstanceKind | TagSelectorKind

record ScaleTargetRef =
  tr_kind :: TargetKind
  tr_name :: "string option"
  tr_tags :: "(string \<times> string) list option"

text \<open>Of a metric only the utilization varies. Metadata and spec of a resource are one record.\<close>

record InstanceVolumeAutoscaler =
  iva_name :: "string option"
  iva_uid :: "string option"
  iva_generation :: "int option"
  iva_scale_target_ref :: ScaleTargetRef
  iva_max_capacity :: string
  iva_metrics :: "int list"
  iva_behavior :: "Behavior option"
  iva_alert_enabled :: bool

text \<open>A quantity in whole GiB, rounded up, and whether it is at least one GiB.\<close>

record quantity_reader =
  qr_gib :: "string \<Rightarrow> string + int"
  qr_at_least_1gib :: "string \<Rightarrow> bool"

record Instance =
  in_id :: string
  in_name :: string
  in_tags :: "(string \<times> string) list"
  in_root_device_name :: string
  in_root_volume_id :: string
  in_root_volume_size_gib :: int

record Effective =
  ef_policy :: string
  ef_uid :: string
  ef_generation :: "int option"
  ef_paused :: bool
  ef_alert_enabled :: bool
  ef_usage_threshold_percent :: int
  ef_select_min :: bool
  ef_steps :: "Step list"
  ef_max_volume_size_gib :: int
  ef_cooldown :: nat

datatype Target = TargetInstance string | TargetTags "(string \<times> string) list"

fun target_matches :: "Target \<Rightarrow> Instance \<Rightarrow> bool" where
  "target_matches (TargetInstance i) inst \<longleftrightarrow> in_id inst = i"
| "target_matches (TargetTags tags) inst \<longleftrightarrow> list_all (\<lambda>(k, v). map_of (in_tags inst) k = Some v) tags"

record Compiled =
  cp_target :: Target
  cp_effective :: Effective

definition is_instance_id :: "string \<Rightarrow> bool" where
  "is_instance_id s \<longleftrightarrow> starts_with ''i-'' s \<and>
     (let hex = drop 2 s
      in 8 \<le> length hex \<and> length hex \<le> 17 \<and>
         list_all (\<lambda>b. is_ascii_digit b \<or> (CHR ''a'' \<le> b \<and> b \<le> CHR ''f'')) hex)"

definition compile_target :: "ScaleTargetRef \<Rightarrow> string + Target" where
  "compile_target r =
     (case tr_kind r of
        InstanceKind \<Rightarrow>
          if tr_tags r \<noteq> None then Inl ''scaleTargetRef.tags is not allowed with kind Instance''
          else (case tr_name r of
                  Some i \<Rightarrow> if is_instance_id i then Inr (TargetInstance i)
                            else Inl (''scaleTargetRef.name '' @ debug_str i @ '' is not an EC2 instance ID'')
                | None \<Rightarrow> Inl ''scaleTargetRef.name is required with kind Instance'')
      | TagSelectorKind \<Rightarrow>
          if tr_name r \<noteq> None then Inl ''scaleTargetRef.name is not allowed with kind TagSelector''
          else let tags = (case tr_tags r of Some t \<Rightarrow> t | None \<Rightarrow> [])
               in if tags = [] then Inl ''scaleTargetRef.tags is required with kind TagSelector''
                  else if list_ex (\<lambda>(k, v). k = [] \<or> v = []) tags
                       then Inl ''scaleTargetRef.tags entries need a non-empty key and value''
                  else if length tags > 50 \<or> list_ex (\<lambda>(k, v). length k > 128 \<or> length v > 256) tags
                       then Inl ''scaleTargetRef.tags allows up to 50 tags with keys up to 128 and values up to 256 characters''
                  else Inr (TargetTags tags))"

definition compile_autoscaler :: "quantity_reader \<Rightarrow> InstanceVolumeAutoscaler \<Rightarrow> string + Compiled" where
  "compile_autoscaler qr iva =
     (case compile_target (iva_scale_target_ref iva) of
        Inl e \<Rightarrow> Inl e
      | Inr target \<Rightarrow>
     (case qr_gib qr (iva_max_capacity iva) of
        Inl e \<Rightarrow> Inl (''maxCapacity: '' @ e)
      | Inr mx \<Rightarrow>
          if \<not> qr_at_least_1gib qr (iva_max_capacity iva) then Inl ''maxCapacity must be at least 1Gi''
          else
            let threshold = (case iva_metrics iva of [] \<Rightarrow> DEFAULT_UTILIZATION_PERCENT | m # ms \<Rightarrow> m)
            in if length (iva_metrics iva) > 1 then Inl ''metrics supports a single storage metric''
               else if \<not> (1 \<le> threshold \<and> threshold \<le> 100)
                    then Inl (''averageUtilization must be between 1 and 100, got '' @ show_int threshold)
               else
                 let rules = (case Option.bind (iva_behavior iva) bh_scale_up of
                        Some r \<Rightarrow> r
                      | None \<Rightarrow> \<lparr>sr_select_policy = SelectMax, sr_policies = [], sr_cooldown_duration = None\<rparr>);
                     select = sr_select_policy rules
                 in (case compile_steps (sr_policies rules) of
                       Inl e \<Rightarrow> Inl e
                     | Inr steps \<Rightarrow>
                         (case cooldown_of (sr_cooldown_duration rules) of
                            Inl e \<Rightarrow> Inl e
                          | Inr cooldown \<Rightarrow>
                              Inr \<lparr>cp_target = target,
                                   cp_effective = \<lparr>ef_policy = (case iva_name iva of Some n \<Rightarrow> n | None \<Rightarrow> []),
                                     ef_uid = (case iva_uid iva of Some u \<Rightarrow> u | None \<Rightarrow> []),
                                     ef_generation = iva_generation iva, ef_paused = (select = SelectDisabled),
                                     ef_alert_enabled = iva_alert_enabled iva, ef_usage_threshold_percent = threshold,
                                     ef_select_min = (select = SelectMin), ef_steps = steps,
                                     ef_max_volume_size_gib = mx, ef_cooldown = cooldown\<rparr>\<rparr>))))"

subsection \<open>Assignment\<close>

record Resolver =
  rs_autoscalers :: "Compiled list"
  rs_invalid :: "(string \<times> string) list"

abbreviation policy_of :: "Compiled \<Rightarrow> string" where
  "policy_of c \<equiv> ef_policy (cp_effective c)"

definition resolver_new :: "quantity_reader \<Rightarrow> InstanceVolumeAutoscaler list \<Rightarrow> Resolver" where
  "resolver_new qr ivas =
     \<lparr>rs_autoscalers = sort_key policy_of
        (filter_map (\<lambda>iva. case compile_autoscaler qr iva of Inr c \<Rightarrow> Some c | Inl e \<Rightarrow> None) ivas),
      rs_invalid = filter_map (\<lambda>iva. case compile_autoscaler qr iva of
         Inr c \<Rightarrow> None | Inl e \<Rightarrow> Some (case iva_name iva of Some n \<Rightarrow> n | None \<Rightarrow> [], e)) ivas\<rparr>"

definition names :: "Resolver \<Rightarrow> string list" where
  "names r = map policy_of (rs_autoscalers r)"

definition resolver_get :: "Resolver \<Rightarrow> string \<Rightarrow> Compiled option" where
  "resolver_get r name = List.find (\<lambda>c. policy_of c = name) (rs_autoscalers r)"

definition matching :: "Resolver \<Rightarrow> Instance \<Rightarrow> Compiled list" where
  "matching r inst = filter (\<lambda>c. target_matches (cp_target c) inst) (rs_autoscalers r)"

record Plan =
  pn_managed :: "(nat \<times> Effective) list"
  pn_refused :: "(nat \<times> string list) list"
  pn_unmanaged :: nat
  pn_conflicts :: "string \<Rightarrow> string set option"

definition add_conflicts :: "Compiled list \<Rightarrow> (string \<Rightarrow> string set option) \<Rightarrow> string \<Rightarrow> string set option" where
  "add_conflicts m conflicts =
     (if length m < 2 then conflicts
      else fold (\<lambda>c cs. cs(policy_of c := Some ((case cs (policy_of c) of Some s \<Rightarrow> s | None \<Rightarrow> {}) \<union>
             set (map policy_of (filter (\<lambda>other. policy_of other \<noteq> policy_of c) m))))) m conflicts)"

definition assign :: "nat \<times> Compiled list \<Rightarrow> Plan \<Rightarrow> Plan" where
  "assign im plan =
     (case snd im of
        [] \<Rightarrow> plan\<lparr>pn_unmanaged := pn_unmanaged plan + 1\<rparr>
      | [c] \<Rightarrow> if pn_conflicts plan (policy_of c) = None
               then plan\<lparr>pn_managed := pn_managed plan @ [(fst im, cp_effective c)]\<rparr>
               else plan\<lparr>pn_refused := pn_refused plan @ [(fst im, [policy_of c])]\<rparr>
      | m \<Rightarrow> plan\<lparr>pn_refused := pn_refused plan @ [(fst im, map policy_of m)]\<rparr>)"

definition plan_instances :: "Resolver \<Rightarrow> Instance list \<Rightarrow> Plan" where
  "plan_instances r instances =
     (let ms = map (matching r) instances
      in fold assign (zip [0..<length ms] ms)
           \<lparr>pn_managed = [], pn_refused = [], pn_unmanaged = 0, pn_conflicts = fold add_conflicts ms (\<lambda>p. None)\<rparr>)"

subsection \<open>Steps\<close>

fun positive_step :: "Step \<Rightarrow> bool" where
  "positive_step (StepPercent p) \<longleftrightarrow> 0 < p"
| "positive_step (StepGiB g) \<longleftrightarrow> 0 < g"

text \<open>What a step proposes: a percentage of the capacity rounded up, or a fixed amount.\<close>

fun proposal :: "int \<Rightarrow> Step \<Rightarrow> int" where
  "proposal cur (StepPercent p) = \<lceil>real_of_int (cur * p) / 100\<rceil>"
| "proposal cur (StepGiB g) = g"

lemma ceiling_div_100: "\<lceil>real_of_int x / 100\<rceil> = (x + 99) div 100"
proof (rule ceiling_unique)
  let ?z = "(x + 99) div 100"
  have z: "100 * ?z \<le> x + 99" "x + 99 < 100 * ?z + 100"
    using div_mult_mod_eq [of "x + 99" 100] pos_mod_sign [of 100 "x + 99"] pos_mod_bound [of 100 "x + 99"] by linarith+
  then have "real_of_int (100 * ?z - 100) < real_of_int x" "real_of_int x \<le> real_of_int (100 * ?z)"
    by (simp_all only: of_int_less_iff of_int_le_iff)
  then show "real_of_int ?z - 1 < real_of_int x / 100" "real_of_int x / 100 \<le> real_of_int ?z" by simp_all
qed

lemma step_size_proposal:
  assumes "0 \<le> cur" "positive_step s"
  shows "step_size cur s = proposal cur s"
proof (cases s)
  case (StepPercent p)
  have "0 \<le> cur * p" using assms StepPercent by simp
  then show ?thesis
    unfolding StepPercent step_size.simps proposal.simps ceiling_div_100 by (simp add: trunc_div_def)
qed simp

lemma fold_max_Max: "fold max xs (x :: int) = Max (set (x # xs))" and fold_min_Min: "fold min xs (x :: int) = Min (set (x # xs))"
  by (simp_all only: Max.set_eq_fold Min.set_eq_fold)

lemma proposal_bounds:
  assumes "0 \<le> cur" "positive_step s"
  shows "0 \<le> proposal cur s"
proof (cases s)
  case (StepPercent p)
  then have "0 \<le> real_of_int (cur * p) / 100" using assms by simp
  then show ?thesis using StepPercent by (simp add: order_trans [OF _ le_of_int_ceiling])
qed (use assms in simp)

text \<open>
  The size after one step is the capacity plus the largest proposal, the smallest one if the rules
  select the minimum, at least one GiB and never above the 32-bit range; so a volume below the top of
  the range always grows.
\<close>

theorem step_up_takes_the_selected_step:
  assumes "0 \<le> cur" "cur < i32_max" "steps \<noteq> []" "list_all positive_step steps"
  shows "step_up cur steps select_min =
      min i32_max (cur + max 1 ((if select_min then Min else Max) (set (map (proposal cur) steps)))) \<and>
    cur < step_up cur steps select_min \<and> step_up cur steps select_min \<le> i32_max"
proof -
  obtain x xs where s: "map (proposal cur) steps = x # xs" using assms(3) by (cases steps) auto
  have sizes: "map (step_size cur) steps = x # xs"
    using assms(1,4) s [symmetric] by (auto simp: step_size_proposal list_all_iff)
  define S where "S = (if select_min then Min else Max) (set (map (proposal cur) steps))"
  have S: "(if select_min then fold min xs x else fold max xs x) = S"
    unfolding S_def s by (simp only: fold_max_Max fold_min_Min) simp
  have "S \<in> set (map (proposal cur) steps)"
    unfolding S_def using assms(3) by (cases select_min) (auto simp del: set_map intro!: Min_in Max_in)
  then have "0 \<le> S" using assms(1,4) proposal_bounds by (auto simp: list_all_iff)
  then show ?thesis
    using assms(1,2) unfolding S_def [symmetric] step_up_def Let_def sizes list.case S
    by (auto simp: i32_max_def)
qed

theorem step_up_takes_the_selected_step_witness:
  "step_up 30 [StepPercent 10, StepGiB 1] False = 33 \<and> 30 < step_up 30 [StepPercent 10, StepGiB 1] False"
proof -
  have "\<lceil>3 :: real\<rceil> = 3" by linarith
  then show ?thesis
    using step_up_takes_the_selected_step [of 30 "[StepPercent 10, StepGiB 1]" False] by (simp add: i32_max_def)
qed

subsection \<open>Cooldowns\<close>

lemma cooldown_chars_digits:
  "list_all is_ascii_digit ds \<Longrightarrow> cooldown_chars secs acc (ds @ cs) = cooldown_chars secs (acc @ ds) cs"
  by (induction ds arbitrary: acc) simp_all

lemma cooldown_chars_part:
  assumes "cooldown_unit u = Some k" "\<not> is_ascii_digit u" "n * k + secs \<le> u64_max" "0 < k"
  shows "cooldown_chars secs [] (show_nat n @ u # cs) = cooldown_chars (secs + n * k) [] cs"
proof -
  have "n \<le> n * k" using assms(4) by simp
  then have "parse_uint u64_max (show_nat n) = Some n" using assms(3) by (intro parse_uint_show_nat) linarith
  then show ?thesis
    using assms by (simp add: cooldown_chars_digits [OF show_nat_digits] saturating_add_u64_def saturating_mul_u64_def)
qed

lemma cooldown_units [simp]:
  "cooldown_unit CHR ''h'' = Some 3600" "cooldown_unit CHR ''m'' = Some 60" "cooldown_unit CHR ''s'' = Some 1"
  "\<not> is_ascii_digit CHR ''h''" "\<not> is_ascii_digit CHR ''m''" "\<not> is_ascii_digit CHR ''s''"
  by (simp_all add: cooldown_unit_def is_ascii_digit_def)

lemma cooldown_chars_optional:
  assumes "cooldown_unit u = Some k" "\<not> is_ascii_digit u" "n * k + secs \<le> u64_max" "0 < k"
  shows "cooldown_chars secs [] ((if 0 < n then show_nat n @ [u] else []) @ cs) = cooldown_chars (secs + n * k) [] cs"
  using cooldown_chars_part [OF assms] by simp

text \<open>
  C33. Cooldowns survive printing: a cooldown shown in a status is read back as the same number of seconds.
\<close>

theorem cooldown_roundtrip:
  assumes "s \<le> u64_max"
  shows "parse_cooldown (format_cooldown s) = Inr s"
proof (cases "s = 0")
  case True
  have "format_cooldown 0 = ''0s''" by (simp add: format_cooldown_def Let_def del: concat_eq_Nil_conv)
  moreover have "parse_cooldown ''0s'' = Inr 0"
    using cooldown_chars_part [of "CHR ''s''" 1 0 0 "[]"] by (simp add: parse_cooldown_def str_eval)
  ultimately show ?thesis using True by simp
next
  case False
  define h m t where "h = s div 3600" and "m = (s mod 3600) div 60" and "t = s mod 60"
  have "s mod 3600 mod 60 = s mod 60" by (simp add: mod_mod_cancel)
  then have s: "s = h * 3600 + m * 60 + t"
    unfolding h_def m_def t_def using div_mult_mod_eq [of s 3600] div_mult_mod_eq [of "s mod 3600" 60] by linarith
  let ?p = "\<lambda>(n :: nat) u. if 0 < n then show_nat n @ [u] else []"
  have out: "concat (map (\<lambda>(n, u). show_nat n @ [u]) (filter (\<lambda>(n, u). n > 0)
      [(h, CHR ''h''), (m, CHR ''m''), (t, CHR ''s'')])) = ?p h CHR ''h'' @ ?p m CHR ''m'' @ ?p t CHR ''s''" by simp
  define shown where "shown = ?p h CHR ''h'' @ ?p m CHR ''m'' @ ?p t CHR ''s''"
  have ne: "shown \<noteq> []" using False s by (auto simp: shown_def)
  have "cooldown_chars 0 [] (?p h CHR ''h'' @ ?p m CHR ''m'' @ ?p t CHR ''s'' @ []) = Some s"
    using assms s cooldown_chars_optional [of "CHR ''h''" 3600 h 0 "?p m CHR ''m'' @ ?p t CHR ''s'' @ []"]
      cooldown_chars_optional [of "CHR ''m''" 60 m "h * 3600" "?p t CHR ''s'' @ []"]
      cooldown_chars_optional [of "CHR ''s''" 1 t "h * 3600 + m * 60" "[]"]
    by (simp only: cooldown_units cooldown_chars.simps) simp
  then have "cooldown_chars 0 [] shown = Some s" by (simp only: shown_def append_Nil2)
  moreover have "format_cooldown s = shown"
    unfolding format_cooldown_def Let_def h_def [symmetric] m_def [symmetric] t_def [symmetric] out shown_def [symmetric]
    using ne by simp
  ultimately show ?thesis using ne by (simp add: parse_cooldown_def)
qed

theorem cooldown_roundtrip_witness: "parse_cooldown (format_cooldown 23430) = Inr 23430 \<and> format_cooldown 23430 = ''6h30m30s''"
proof -
  have "format_cooldown 23430 = ''6h30m30s''"
    by (simp add: format_cooldown_def Let_def str_eval del: concat_eq_Nil_conv)
  then show ?thesis using cooldown_roundtrip [of 23430] by (simp add: u64_max_def)
qed

subsection \<open>Compiled settings\<close>

definition target_ok :: "Target \<Rightarrow> bool" where
  "target_ok t \<longleftrightarrow> (case t of
     TargetInstance i \<Rightarrow> is_instance_id i
   | TargetTags tags \<Rightarrow> tags \<noteq> [] \<and> length tags \<le> 50 \<and>
       list_all (\<lambda>(k, v). k \<noteq> [] \<and> length k \<le> 128 \<and> v \<noteq> [] \<and> length v \<le> 256) tags)"

definition effective_ok :: "Effective \<Rightarrow> bool" where
  "effective_ok e \<longleftrightarrow> 1 \<le> ef_usage_threshold_percent e \<and> ef_usage_threshold_percent e \<le> 100 \<and>
     ef_steps e \<noteq> [] \<and> list_all positive_step (ef_steps e) \<and> MIN_COOLDOWN \<le> ef_cooldown e"

lemma compile_policies_positive: "compile_policies ps = Inr ss \<Longrightarrow> list_all positive_step ss \<and> length ss = length ps"
proof (induction ps arbitrary: ss)
  case (Cons p ps)
  then show ?case by (cases "sp_type p") (auto split: if_splits sum.splits)
qed simp

lemma compile_steps_positive: "compile_steps ps = Inr ss \<Longrightarrow> ss \<noteq> [] \<and> list_all positive_step ss"
  by (auto simp: compile_steps_def DEFAULT_STEP_PERCENT_def DEFAULT_STEP_GIB_def split: if_splits
      dest!: compile_policies_positive)

lemma cooldown_of_min: "cooldown_of raw = Inr d \<Longrightarrow> MIN_COOLDOWN \<le> d"
  by (auto simp: cooldown_of_def split: option.splits sum.splits if_splits)

lemma compile_target_ok: "compile_target r = Inr t \<Longrightarrow> target_ok t"
  by (auto simp: compile_target_def target_ok_def list_all_iff list_ex_iff not_less Let_def
      split: TargetKind.splits if_splits option.splits) blast+

text \<open>
  C32. A resource that passes validation gives settings in range: a threshold between 1 and 100 percent,
  at least one step and only positive ones, a cooldown of at least six hours, and a target that is an
  instance id or a bounded non-empty set of tags.
\<close>

theorem compiled_settings_are_in_range:
  assumes "compile_autoscaler qr iva = Inr c"
  shows "effective_ok (cp_effective c) \<and> target_ok (cp_target c)"
proof -
  from assms obtain t where t: "compile_target (iva_scale_target_ref iva) = Inr t"
    by (cases "compile_target (iva_scale_target_ref iva)") (auto simp: compile_autoscaler_def)
  from assms t obtain mx where mx: "qr_gib qr (iva_max_capacity iva) = Inr mx"
    by (cases "qr_gib qr (iva_max_capacity iva)") (auto simp: compile_autoscaler_def)
  show ?thesis
    using assms t mx compile_target_ok [OF t]
    by (auto simp: compile_autoscaler_def Let_def effective_ok_def split: if_splits sum.splits
        dest: compile_steps_positive cooldown_of_min)
qed

definition demo_quantities :: quantity_reader where
  "demo_quantities = \<lparr>qr_gib = (\<lambda>s. Inr 1000), qr_at_least_1gib = (\<lambda>s. True)\<rparr>"

definition demo_iva :: "string \<Rightarrow> (string \<times> string) list \<Rightarrow> InstanceVolumeAutoscaler" where
  "demo_iva name tags = \<lparr>iva_name = Some name, iva_uid = Some ''u'', iva_generation = Some 1,
     iva_scale_target_ref = \<lparr>tr_kind = TagSelectorKind, tr_name = None, tr_tags = Some tags\<rparr>, iva_max_capacity = ''1000Gi'',
     iva_metrics = [], iva_behavior = None, iva_alert_enabled = True\<rparr>"

theorem compiled_settings_are_in_range_witness:
  "\<exists>c. compile_autoscaler demo_quantities (demo_iva ''db'' [(''Role'', ''db'')]) = Inr c \<and> effective_ok (cp_effective c) \<and>
     ef_steps (cp_effective c) = [StepPercent 10, StepGiB 1]"
proof -
  obtain c where c: "compile_autoscaler demo_quantities (demo_iva ''db'' [(''Role'', ''db'')]) = Inr c"
    "ef_steps (cp_effective c) = [StepPercent 10, StepGiB 1]"
    by (simp add: compile_autoscaler_def demo_iva_def demo_quantities_def compile_target_def Let_def compile_steps_def cooldown_of_def
        DEFAULT_UTILIZATION_PERCENT_def DEFAULT_STEP_PERCENT_def DEFAULT_STEP_GIB_def)
  then show ?thesis using compiled_settings_are_in_range [OF c(1)] by blast
qed

subsection \<open>Assignment\<close>

text \<open>Whether an autoscaler of this name targets an instance that another one targets too.\<close>

definition overlaps :: "Resolver \<Rightarrow> Instance list \<Rightarrow> string \<Rightarrow> bool" where
  "overlaps r instances p \<longleftrightarrow>
     list_ex (\<lambda>inst. 2 \<le> length (matching r inst) \<and> p \<in> set (map policy_of (matching r inst))) instances"

definition sole_owner :: "Resolver \<Rightarrow> Instance list \<Rightarrow> Instance \<Rightarrow> Effective option" where
  "sole_owner r instances inst =
     (case matching r inst of [c] \<Rightarrow> if overlaps r instances (policy_of c) then None else Some (cp_effective c) | _ \<Rightarrow> None)"

lemma add_conflicts_dom: "dom (add_conflicts m cs) = dom cs \<union> (if 2 \<le> length m then set (map policy_of m) else {})"
proof -
  have "dom (fold (\<lambda>c cs. cs(policy_of c := Some (F c cs))) xs cs) = dom cs \<union> set (map policy_of xs)" for F xs
    by (induction xs arbitrary: cs) auto
  then show ?thesis by (simp add: add_conflicts_def)
qed

lemma conflicts_dom:
  "dom (fold add_conflicts ms cs) = dom cs \<union> {p. list_ex (\<lambda>m. 2 \<le> length m \<and> p \<in> set (map policy_of m)) ms}"
  by (induction ms arbitrary: cs) (auto simp: add_conflicts_dom)

lemma conflicts_overlaps:
  "(fold add_conflicts (map (matching r) instances) (\<lambda>p. None)) p = None \<longleftrightarrow> \<not> overlaps r instances p"
proof -
  have "(fold add_conflicts (map (matching r) instances) (\<lambda>p. None)) p = None \<longleftrightarrow>
      p \<notin> dom (fold add_conflicts (map (matching r) instances) (\<lambda>p. None))" by (simp add: domIff)
  also have "\<dots> \<longleftrightarrow> \<not> overlaps r instances p"
    unfolding conflicts_dom by (simp add: overlaps_def list_ex_iff)
  finally show ?thesis .
qed

lemma assign_conflicts [simp]: "pn_conflicts (assign im plan) = pn_conflicts plan"
  by (auto simp: assign_def split: list.splits)

lemma assign_fields:
  "pn_managed (assign (i, m) plan) = pn_managed plan @
     (case m of [c] \<Rightarrow> if pn_conflicts plan (policy_of c) = None then [(i, cp_effective c)] else [] | _ \<Rightarrow> [])"
  "pn_refused (assign (i, m) plan) = pn_refused plan @
     (case m of [] \<Rightarrow> []
      | [c] \<Rightarrow> if pn_conflicts plan (policy_of c) = None then [] else [(i, map policy_of m)]
      | _ \<Rightarrow> [(i, map policy_of m)])"
  "pn_unmanaged (assign (i, m) plan) = pn_unmanaged plan + (if m = [] then 1 else 0)"
  by (auto simp: assign_def split: list.splits)

lemma fold_assign:
  fixes plan :: Plan and r :: Resolver and all :: "Instance list"
  assumes "\<And>p. pn_conflicts plan p = None \<longleftrightarrow> \<not> overlaps r all p"
  shows "pn_managed (fold assign (zip is (map (matching r) xs)) plan) = pn_managed plan @
       filter_map (\<lambda>(i, x). map_option (Pair i) (sole_owner r all x)) (zip is xs) \<and>
     pn_refused (fold assign (zip is (map (matching r) xs)) plan) = pn_refused plan @
       filter_map (\<lambda>(i, x). if matching r x = [] \<or> sole_owner r all x \<noteq> None then None
         else Some (i, map policy_of (matching r x))) (zip is xs) \<and>
     pn_unmanaged (fold assign (zip is (map (matching r) xs)) plan) =
       pn_unmanaged plan + length (filter (\<lambda>(i, x). matching r x = []) (zip is xs))"
  using assms
proof (induction xs arbitrary: "is" plan)
  case (Cons x xs)
  show ?case
  proof (cases "is")
    case (Cons i js)
    then show ?thesis
      using Cons.IH [of "assign (i, matching r x) plan" js] Cons.prems
      by (auto simp: assign_fields sole_owner_def split: list.splits)
  qed simp
qed simp

lemma plan_fields:
  "pn_managed (plan_instances r instances) =
     filter_map (\<lambda>(i, x). map_option (Pair i) (sole_owner r instances x)) (zip [0..<length instances] instances) \<and>
   pn_refused (plan_instances r instances) =
     filter_map (\<lambda>(i, x). if matching r x \<noteq> [] \<and> sole_owner r instances x = None
       then Some (i, map policy_of (matching r x)) else None) (zip [0..<length instances] instances) \<and>
   pn_unmanaged (plan_instances r instances) = length (filter (\<lambda>x. matching r x = []) instances)"
proof -
  define plan where "plan = \<lparr>pn_managed = [], pn_refused = [], pn_unmanaged = 0,
      pn_conflicts = fold add_conflicts (map (matching r) instances) (\<lambda>p. None)\<rparr>"
  have "length (filter (\<lambda>(i, x). matching r x = []) (zip is xs)) = length (filter (\<lambda>x. matching r x = []) xs)"
    if "length is = length xs" for "is" :: "nat list" and xs
    using that by (induction "is" xs rule: list_induct2) auto
  moreover have "(\<lambda>(i, x). if matching r x \<noteq> [] \<and> sole_owner r instances x = None then Some (i, map policy_of (matching r x)) else None) =
      (\<lambda>(i :: nat, x). if matching r x = [] \<or> sole_owner r instances x \<noteq> None then None else Some (i, map policy_of (matching r x)))"
    by (auto simp: fun_eq_iff)
  ultimately show ?thesis
    using fold_assign [of plan r instances "[0..<length instances]" instances] conflicts_overlaps [of r instances]
    by (simp add: plan_instances_def plan_def Let_def)
qed

lemma managed_sole_owner:
  assumes "(i, eff) \<in> set (pn_managed (plan_instances r instances))"
  shows "i < length instances \<and> sole_owner r instances (instances ! i) = Some eff"
proof -
  obtain x where "(i, x) \<in> set (zip [0..<length instances] instances)" "sole_owner r instances x = Some eff"
    using assms unfolding conjunct1 [OF plan_fields] set_filter_map by auto
  then show ?thesis by (auto simp: in_set_zip)
qed

text \<open>
  C26. Instances are assigned exclusively: an instance is managed exactly if one autoscaler targets it and that
  autoscaler shares no instance with another; it is refused, with all the names, if some autoscaler
  targets it and it is not managed; and the untargeted rest is counted.
\<close>

theorem plan_assigns_exclusively:
  "pn_managed (plan_instances r instances) =
     filter_map (\<lambda>(i, x). map_option (Pair i) (sole_owner r instances x)) (zip [0..<length instances] instances) \<and>
   pn_refused (plan_instances r instances) =
     filter_map (\<lambda>(i, x). if matching r x \<noteq> [] \<and> sole_owner r instances x = None
       then Some (i, map policy_of (matching r x)) else None) (zip [0..<length instances] instances) \<and>
   pn_unmanaged (plan_instances r instances) = length (filter (\<lambda>x. matching r x = []) instances)"
  by (rule plan_fields)

end
