(* ===== verification/Vas_Scan.thy ===== *)
theory Vas_Scan
  imports Rust_Text
begin

section \<open>volume-autoscaler: unused volume scanner (pvscan.rs, pvscan/)\<close>

text \<open>
  Once per pass the scanner classifies every PersistentVolumeClaim and PersistentVolume, marks the unused
  ones with annotations and reports those unused for a day. It never deletes anything. Points in time
  and durations count nanoseconds. Rendering and reading RFC 3339 times belong to the crate chrono and are
  the parameter \<open>rfc3339\<close>. A pass yields the patches and Kubernetes events it sends, in order, and the
  summary gauges; single metrics and log lines are left out.
\<close>

record rfc3339 =
  rf_format :: "int \<Rightarrow> string"  \<comment> \<open>whole seconds\<close>
  rf_parse :: "string \<Rightarrow> int option"

definition second_nanos :: int where "second_nanos = 1000000000"

subsection \<open>Types\<close>

definition KIND_PVC :: string where "KIND_PVC = ''persistentvolumeclaim''"
definition KIND_PV :: string where "KIND_PV = ''persistentvolume''"

definition REASON_NO_CONSUMER_POD :: string where "REASON_NO_CONSUMER_POD = ''no_consumer_pod''"
definition REASON_STATEFULSET_SCALED_DOWN :: string where "REASON_STATEFULSET_SCALED_DOWN = ''statefulset_scaled_down''"
definition REASON_UNBOUND :: string where "REASON_UNBOUND = ''unbound''"
definition REASON_AVAILABLE :: string where "REASON_AVAILABLE = ''available''"
definition REASON_RELEASED :: string where "REASON_RELEASED = ''released''"
definition REASON_FAILED :: string where "REASON_FAILED = ''failed''"
definition REASON_MISSING_CLAIM :: string where "REASON_MISSING_CLAIM = ''missing_claim''"
definition REASON_UNUSED_CLAIM :: string where "REASON_UNUSED_CLAIM = ''bound_to_unused_claim''"
definition REASON_MOUNTED_BY_POD :: string where "REASON_MOUNTED_BY_POD = ''mounted_by_pod''"
definition REASON_STATEFULSET_SLOT :: string where "REASON_STATEFULSET_SLOT = ''statefulset_slot''"
definition REASON_BOUND_TO_USED_CLAIM :: string where "REASON_BOUND_TO_USED_CLAIM = ''bound_to_used_claim''"
definition REASON_PENDING :: string where "REASON_PENDING = ''pending''"

definition UNUSED_PVC_REASONS :: "string list" where
  "UNUSED_PVC_REASONS = [REASON_NO_CONSUMER_POD, REASON_STATEFULSET_SCALED_DOWN, REASON_UNBOUND]"

definition UNUSED_PV_REASONS :: "string list" where
  "UNUSED_PV_REASONS = [REASON_RELEASED, REASON_AVAILABLE, REASON_FAILED, REASON_MISSING_CLAIM, REASON_UNUSED_CLAIM]"

type_synonym annotations = "string \<Rightarrow> string option"

record Pvc =
  pvc_namespace :: string
  pvc_name :: string
  pvc_uid :: string
  pvc_phase :: string
  pvc_volume_name :: string
  pvc_storage_class :: string
  pvc_capacity_bytes :: int
  pvc_annotations :: annotations

record Pv =
  pv_name :: string
  pv_uid :: string
  pv_phase :: string
  pv_storage_class :: string
  pv_capacity_bytes :: int
  pv_reclaim_policy :: string
  pv_claim_namespace :: string
  pv_claim_name :: string
  pv_claim_uid :: string
  pv_volume_id :: string
  pv_annotations :: annotations

record StatefulSet =
  ss_namespace :: string
  ss_name :: string
  ss_replicas :: int
  ss_ordinal_start :: int
  ss_claim_templates :: "string list"

record Inventory =
  iy_pvcs :: "Pvc list"
  iy_pvs :: "Pv list"
  iy_claims_in_use :: "string set"
  iy_stateful_sets :: "StatefulSet list"

record Finding =
  fi_kind :: string
  fi_namespace :: string
  fi_name :: string
  fi_uid :: string
  fi_unused :: bool
  fi_reason :: string
  fi_unused_since :: "int option"
  fi_age :: int
  fi_reportable :: bool
  fi_capacity_bytes :: int
  fi_storage_class :: string
  fi_volume_id :: string
  fi_volume_name :: string
  fi_claim_namespace :: string
  fi_claim_name :: string
  fi_reclaim_policy :: string
  fi_annotations :: annotations

definition unused_days :: "Finding \<Rightarrow> nat" where
  "unused_days f = nat (fi_age f div second_nanos) div (24 * 3600)"

subsection \<open>Annotations\<close>

definition PREFIX :: string where "PREFIX = ''volume-autoscaler''"

definition ann_key :: "string \<Rightarrow> string" where
  "ann_key suffix = PREFIX @ ''/'' @ suffix"

definition KEY_UNUSED :: string where "KEY_UNUSED = ''unused''"
definition KEY_UNUSED_SINCE :: string where "KEY_UNUSED_SINCE = ''unused-since''"
definition KEY_UNUSED_REASON :: string where "KEY_UNUSED_REASON = ''unused-reason''"
definition KEY_UNUSED_DAYS :: string where "KEY_UNUSED_DAYS = ''unused-days''"
definition KEY_VOLUME_ID :: string where "KEY_VOLUME_ID = ''volume-id''"
definition KEY_OBSERVED_AT :: string where "KEY_OBSERVED_AT = ''unused-observed-at''"

definition DATA_KEYS :: "string list" where
  "DATA_KEYS = [KEY_UNUSED, KEY_UNUSED_SINCE, KEY_UNUSED_REASON, KEY_UNUSED_DAYS, KEY_VOLUME_ID]"

definition REFRESH_INTERVAL :: int where "REFRESH_INTERVAL = 24 * 3600 * second_nanos"

record AnnotationSet =
  an_set :: "(string \<times> string) list"
  an_remove :: "string list"

definition build_annotations :: "rfc3339 \<Rightarrow> Finding \<Rightarrow> AnnotationSet" where
  "build_annotations rf f =
     (let entries = (if fi_unused f then
            [(ann_key KEY_UNUSED, ''true''),
             (ann_key KEY_UNUSED_SINCE, case fi_unused_since f of Some t \<Rightarrow> rf_format rf t | None \<Rightarrow> []),
             (ann_key KEY_UNUSED_REASON, fi_reason f), (ann_key KEY_UNUSED_DAYS, show_nat (unused_days f))] @
            (if fi_volume_id f \<noteq> [] then [(ann_key KEY_VOLUME_ID, fi_volume_id f)] else [])
          else []);
          gone = filter (\<lambda>k. map_of entries k = None) (map ann_key DATA_KEYS)
      in \<lparr>an_set = entries, an_remove = gone @ (if fi_unused f then [] else [ann_key KEY_OBSERVED_AT])\<rparr>)"

definition observed_at_is_stale :: "rfc3339 \<Rightarrow> string option \<Rightarrow> int \<Rightarrow> int \<Rightarrow> bool" where
  "observed_at_is_stale rf raw now refresh =
     (case Option.bind raw (rf_parse rf) of None \<Rightarrow> True | Some last_t \<Rightarrow> now - last_t \<ge> refresh)"

definition needs_write :: "rfc3339 \<Rightarrow> AnnotationSet \<Rightarrow> annotations \<Rightarrow> int \<Rightarrow> bool" where
  "needs_write rf a existing now =
     (let still_present = list_ex (\<lambda>k. existing k \<noteq> None) (an_remove a)
      in if an_set a = [] then still_present
         else if list_ex (\<lambda>(k, v). existing k \<noteq> Some v) (an_set a) then True
         else if still_present then True
         else observed_at_is_stale rf (existing (ann_key KEY_OBSERVED_AT)) now REFRESH_INTERVAL)"

subsection \<open>Classification\<close>

text \<open>Decimal text of a 32-bit integer, an optional sign included, as the standard library reads it.\<close>

definition parse_i32 :: "string \<Rightarrow> int option" where
  "parse_i32 s =
     (case s of
        [] \<Rightarrow> None
      | c # cs \<Rightarrow>
          if c = CHR ''-'' then (if cs \<noteq> [] \<and> list_all is_ascii_digit cs \<and> digits_value 0 cs \<le> 2147483648
                                 then Some (- int (digits_value 0 cs)) else None)
          else let ds = (if c = CHR ''+'' then cs else s)
               in if ds \<noteq> [] \<and> list_all is_ascii_digit ds \<and> digits_value 0 ds \<le> 2147483647
                  then Some (int (digits_value 0 ds)) else None)"

text \<open>Addition of \<^verbatim>\<open>i32\<close> values in a release build.\<close>

definition wrapping_add_i32 :: "int \<Rightarrow> int \<Rightarrow> int" where
  "wrapping_add_i32 a b = (a + b + 2147483648) mod 4294967296 - 2147483648"

fun template_slot :: "Pvc \<Rightarrow> StatefulSet \<Rightarrow> string list \<Rightarrow> bool option" where
  "template_slot c s [] = None"
| "template_slot c s (tmpl # ts) =
     (let p = tmpl @ ''-'' @ ss_name s @ ''-''
      in if \<not> starts_with p (pvc_name c) then template_slot c s ts
         else case parse_i32 (drop (length p) (pvc_name c)) of
                None \<Rightarrow> template_slot c s ts
              | Some ordinal \<Rightarrow> Some (ordinal \<ge> ss_ordinal_start s \<and> ordinal < wrapping_add_i32 (ss_ordinal_start s) (ss_replicas s)))"

fun stateful_set_slot :: "Pvc \<Rightarrow> StatefulSet list \<Rightarrow> bool option" where
  "stateful_set_slot c [] = None"
| "stateful_set_slot c (s # ss) =
     (if ss_namespace s \<noteq> pvc_namespace c then stateful_set_slot c ss
      else case template_slot c s (ss_claim_templates s) of None \<Rightarrow> stateful_set_slot c ss | Some live \<Rightarrow> Some live)"

definition classify_pvc :: "Pvc \<Rightarrow> string set \<Rightarrow> StatefulSet list \<Rightarrow> string \<Rightarrow> bool \<times> string" where
  "classify_pvc c in_use sets k =
     (if k \<in> in_use then (False, REASON_MOUNTED_BY_POD)
      else case stateful_set_slot c sets of
             Some live \<Rightarrow> if live then (False, REASON_STATEFULSET_SLOT) else (True, REASON_STATEFULSET_SCALED_DOWN)
           | None \<Rightarrow> if pvc_phase c \<noteq> ''Bound'' then (True, REASON_UNBOUND) else (True, REASON_NO_CONSUMER_POD))"

definition classify_pv ::
    "Pv \<Rightarrow> string \<Rightarrow> (string \<Rightarrow> bool option) \<Rightarrow> (string \<Rightarrow> string option) \<Rightarrow> bool \<times> string" where
  "classify_pv v k claim_unused claim_uid =
     (if pv_phase v = ''Available'' then (True, REASON_AVAILABLE)
      else if pv_phase v = ''Released'' then (True, REASON_RELEASED)
      else if pv_phase v = ''Failed'' then (True, REASON_FAILED)
      else if pv_phase v = ''Bound'' then
        (if pv_claim_name v = [] then (True, REASON_MISSING_CLAIM)
         else case claim_unused k of
                None \<Rightarrow> (True, REASON_MISSING_CLAIM)
              | Some unused \<Rightarrow>
                  if pv_claim_uid v \<noteq> [] \<and> claim_uid k \<noteq> Some (pv_claim_uid v) then (True, REASON_MISSING_CLAIM)
                  else if unused then (True, REASON_UNUSED_CLAIM) else (False, REASON_BOUND_TO_USED_CLAIM))
      else (False, REASON_PENDING))"

definition unused_since :: "rfc3339 \<Rightarrow> annotations \<Rightarrow> int \<Rightarrow> int" where
  "unused_since rf existing now =
     (case Option.bind (existing (ann_key KEY_UNUSED_SINCE)) (rf_parse rf) of
        Some t \<Rightarrow> if t \<le> now then t else now
      | None \<Rightarrow> now)"

definition finalize :: "rfc3339 \<Rightarrow> Finding \<Rightarrow> int \<Rightarrow> int \<Rightarrow> Finding" where
  "finalize rf f min_age now =
     (if \<not> fi_unused f then f
      else let since = unused_since rf (fi_annotations f) now; age = now - since
           in f\<lparr>fi_unused_since := Some since, fi_age := age, fi_reportable := (age \<ge> min_age)\<rparr>)"

definition empty_finding :: Finding where
  "empty_finding = \<lparr>fi_kind = [], fi_namespace = [], fi_name = [], fi_uid = [], fi_unused = False, fi_reason = [],
     fi_unused_since = None, fi_age = 0, fi_reportable = False, fi_capacity_bytes = 0, fi_storage_class = [],
     fi_volume_id = [], fi_volume_name = [], fi_claim_namespace = [], fi_claim_name = [], fi_reclaim_policy = [],
     fi_annotations = (\<lambda>k. None)\<rparr>"

definition claim_key :: "Pvc \<Rightarrow> string" where
  "claim_key c = pvc_namespace c @ ''/'' @ pvc_name c"

definition claim_verdict :: "Inventory \<Rightarrow> Pvc \<Rightarrow> bool \<times> string" where
  "claim_verdict iy c =
     classify_pvc c (iy_claims_in_use iy) (filter (\<lambda>s. ss_namespace s = pvc_namespace c) (iy_stateful_sets iy)) (claim_key c)"

definition claim_finding :: "rfc3339 \<Rightarrow> Inventory \<Rightarrow> int \<Rightarrow> int \<Rightarrow> Pvc \<Rightarrow> Finding" where
  "claim_finding rf iy min_age now c =
     (let (unused, reason) = claim_verdict iy c
      in finalize rf
           (empty_finding\<lparr>fi_kind := KIND_PVC, fi_namespace := pvc_namespace c, fi_name := pvc_name c, fi_uid := pvc_uid c,
              fi_unused := unused, fi_reason := reason, fi_capacity_bytes := pvc_capacity_bytes c,
              fi_storage_class := pvc_storage_class c,
              fi_volume_id := (case map_of (rev (map (\<lambda>v. (pv_name v, pv_volume_id v)) (iy_pvs iy))) (pvc_volume_name c) of
                 Some i \<Rightarrow> i | None \<Rightarrow> []),
              fi_volume_name := pvc_volume_name c, fi_annotations := pvc_annotations c\<rparr>) min_age now)"

definition volume_finding ::
    "rfc3339 \<Rightarrow> (string \<Rightarrow> bool option) \<Rightarrow> (string \<Rightarrow> string option) \<Rightarrow> int \<Rightarrow> int \<Rightarrow> Pv \<Rightarrow> Finding" where
  "volume_finding rf claim_unused claim_uid min_age now v =
     (let (unused, reason) = classify_pv v (pv_claim_namespace v @ ''/'' @ pv_claim_name v) claim_unused claim_uid
      in finalize rf
           (empty_finding\<lparr>fi_kind := KIND_PV, fi_name := pv_name v, fi_uid := pv_uid v, fi_unused := unused,
              fi_reason := reason, fi_capacity_bytes := pv_capacity_bytes v, fi_storage_class := pv_storage_class v,
              fi_volume_id := pv_volume_id v, fi_claim_namespace := pv_claim_namespace v,
              fi_claim_name := pv_claim_name v, fi_reclaim_policy := pv_reclaim_policy v,
              fi_annotations := pv_annotations v\<rparr>) min_age now)"

text \<open>The later entry of a key wins in the maps the code builds.\<close>

definition classify :: "rfc3339 \<Rightarrow> Inventory \<Rightarrow> int \<Rightarrow> int \<Rightarrow> Finding list" where
  "classify rf iy min_age now =
     (let claim_unused = map_of (rev (map (\<lambda>c. (claim_key c, fst (claim_verdict iy c))) (iy_pvcs iy)));
          claim_uid = map_of (rev (map (\<lambda>c. (claim_key c, pvc_uid c)) (iy_pvcs iy)))
      in map (claim_finding rf iy min_age now) (iy_pvcs iy) @
         map (volume_finding rf claim_unused claim_uid min_age now) (iy_pvs iy))"

subsection \<open>One pass\<close>

definition REASON_UNUSED_DETECTED :: string where "REASON_UNUSED_DETECTED = ''UnusedVolumeDetected''"
definition REASON_UNUSED_CLEARED :: string where "REASON_UNUSED_CLEARED = ''UnusedVolumeCleared''"

datatype scan_effect =
    AnnotatePvc string string AnnotationSet bool
  | AnnotatePv string AnnotationSet bool
  | ScanEvent string string string string string string  \<comment> \<open>kind, namespace, name, uid, reason, message\<close>

datatype scan_outcome = OutcomeWritten | OutcomeUnchanged | OutcomeDryRun

text \<open>The answer of the API server to an annotation patch may depend on what was sent before.\<close>

record Scanner =
  sn_dry_run :: bool
  sn_events :: bool
  sn_min_unused_age :: int
  sn_rfc :: rfc3339
  sn_annotate :: "scan_effect list \<Rightarrow> Finding \<Rightarrow> string + unit"

definition MIN_UNUSED_AGE :: int where "MIN_UNUSED_AGE = 24 * 3600 * second_nanos"

definition describe_capacity :: "Finding \<Rightarrow> string" where
  "describe_capacity f =
     (if fi_capacity_bytes f = 0 then ''no provisioned capacity''
      else let size = show_int (trunc_div (fi_capacity_bytes f) (1024 * 1024 * 1024)) @ ''Gi''
           in if fi_volume_id f = [] then size else size @ '' on '' @ fi_volume_id f)"

definition desired_annotations :: "rfc3339 \<Rightarrow> Finding \<Rightarrow> int \<Rightarrow> AnnotationSet" where
  "desired_annotations rf f now =
     (let d = build_annotations rf f
      in if an_set d = [] then d else d\<lparr>an_set := an_set d @ [(ann_key KEY_OBSERVED_AT, rf_format rf now)]\<rparr>)"

definition scan_publish :: "Scanner \<Rightarrow> Finding \<Rightarrow> int \<Rightarrow> scan_effect list \<Rightarrow> (string + scan_outcome) \<times> scan_effect list" where
  "scan_publish sn f now tr =
     (if \<not> needs_write (sn_rfc sn) (build_annotations (sn_rfc sn) f) (fi_annotations f) now then (Inr OutcomeUnchanged, tr)
      else if sn_dry_run sn then (Inr OutcomeDryRun, tr)
      else let d = desired_annotations (sn_rfc sn) f now; answer = sn_annotate sn tr f;
               ok = (case answer of Inr u \<Rightarrow> True | Inl e \<Rightarrow> False);
               patch = (if fi_kind f = KIND_PVC then AnnotatePvc (fi_namespace f) (fi_name f) d ok else AnnotatePv (fi_name f) d ok)
           in (case answer of Inl e \<Rightarrow> Inl e | Inr u \<Rightarrow> Inr OutcomeWritten, tr @ [patch]))"

definition scan_emit :: "Scanner \<Rightarrow> Finding \<Rightarrow> scan_outcome \<Rightarrow> scan_effect list" where
  "scan_emit sn f outcome =
     (if \<not> sn_events sn \<or> sn_dry_run sn then []
      else let event = ScanEvent (fi_kind f) (if fi_kind f = KIND_PVC then fi_namespace f else []) (fi_name f) (fi_uid f)
           in if fi_reportable f
              then [event REASON_UNUSED_DETECTED (''Unused for '' @ show_nat (unused_days f) @ '' days ('' @ fi_reason f @ ''), holding '' @
                      describe_capacity f @
                      ''. Nothing was deleted. Review and remove it manually if the data is no longer needed.'')]
              else if \<not> fi_unused f \<and> outcome = OutcomeWritten
              then [event REASON_UNUSED_CLEARED (''Back in use ('' @ fi_reason f @ ''). The unused mark has been removed.'')]
              else [])"

definition scan_step :: "Scanner \<Rightarrow> int \<Rightarrow> Finding \<Rightarrow> scan_effect list \<Rightarrow> scan_effect list" where
  "scan_step sn now f tr =
     (case scan_publish sn f now tr of
        (Inr outcome, tr1) \<Rightarrow> tr1 @ scan_emit sn f outcome
      | (Inl e, tr1) \<Rightarrow> tr1)"

definition summarize :: "Finding list \<Rightarrow> (string \<times> string \<times> nat \<times> int) list" where
  "summarize findings =
     (let entry = (\<lambda>kind reason.
            let hit = filter (\<lambda>f. fi_reportable f \<and> fi_kind f @ ''/'' @ fi_reason f = kind @ ''/'' @ reason) findings
            in (kind, reason, length hit, fold (\<lambda>f total. wrapping_add_i64 total (fi_capacity_bytes f)) hit 0))
      in map (entry KIND_PVC) UNUSED_PVC_REASONS @ map (entry KIND_PV) UNUSED_PV_REASONS)"

definition scan_reconcile ::
    "Scanner \<Rightarrow> string + Inventory \<Rightarrow> int \<Rightarrow> (string + nat) \<times> scan_effect list \<times> (string \<times> string \<times> nat \<times> int) list" where
  "scan_reconcile sn inventory now =
     (case inventory of
        Inl err \<Rightarrow> (Inl (''read volume inventory: '' @ err), [], [])
      | Inr iy \<Rightarrow>
          (let findings = classify (sn_rfc sn) iy (sn_min_unused_age sn) now
           in (Inr (length findings), fold (scan_step sn now) findings [], summarize findings)))"

subsection \<open>Verdicts\<close>

definition claim_of :: "Inventory \<Rightarrow> Pv \<Rightarrow> Pvc option" where
  "claim_of iy v = (if pv_claim_name v = [] then None else
     List.find (\<lambda>c. claim_key c = pv_claim_namespace v @ ''/'' @ pv_claim_name v) (iy_pvcs iy))"

lemma map_of_rev_distinct: "distinct (map fst xs) \<Longrightarrow> map_of (rev xs) = map_of xs"
proof (induction xs)
  case (Cons x xs)
  then have "map_of xs (fst x) = None" by (simp add: map_of_eq_None_iff)
  then show ?case using Cons by (cases x) (auto simp: map_of_append map_add_def split: option.splits)
qed simp

lemma map_of_find: "map_of (map (\<lambda>c. (g c, h c)) xs) k = map_option h (List.find (\<lambda>c. g c = k) xs)"
  by (induction xs) simp_all

text \<open>
  C31. A bound volume follows its claim. With one claim per namespace and name, a bound volume is unused
  exactly if its claim is missing, carries another uid than the volume recorded, or is itself judged unused.
  A volume in another phase is unused exactly if it is available, released or failed.
\<close>

theorem volume_verdict_follows_its_claim:
  assumes "distinct (map claim_key (iy_pvcs iy))" and "n < length (iy_pvs iy)" and v: "v = iy_pvs iy ! n"
  shows "fi_unused (classify rf iy min_age now ! (length (iy_pvcs iy) + n)) \<longleftrightarrow>
    (if pv_phase v = ''Bound''
     then (case claim_of iy v of
             None \<Rightarrow> True
           | Some c \<Rightarrow> (pv_claim_uid v \<noteq> [] \<and> pvc_uid c \<noteq> pv_claim_uid v) \<or> fst (claim_verdict iy c))
     else pv_phase v \<in> {''Available'', ''Released'', ''Failed''})"
proof -
  have d: "distinct (map fst (map (\<lambda>c. (claim_key c, g c)) (iy_pvcs iy)))" for g :: "Pvc \<Rightarrow> 'b"
    using assms(1) by (simp add: comp_def)
  have fin: "fi_unused (finalize rf f a b) = fi_unused f" for f a b by (simp add: finalize_def Let_def)
  show ?thesis
    using assms(2)
    by (simp add: classify_def nth_append v [symmetric] volume_finding_def fin case_prod_unfold Let_def classify_pv_def
        map_of_rev_distinct [OF d] map_of_find claim_of_def split: option.splits)
qed

definition demo_pvc :: Pvc where
  "demo_pvc = \<lparr>pvc_namespace = ''ns'', pvc_name = ''data'', pvc_uid = ''u2'', pvc_phase = ''Bound'', pvc_volume_name = ''pv'',
     pvc_storage_class = ''gp3'', pvc_capacity_bytes = 1, pvc_annotations = (\<lambda>k. None)\<rparr>"

definition demo_pv :: Pv where
  "demo_pv = \<lparr>pv_name = ''pv'', pv_uid = ''p'', pv_phase = ''Bound'', pv_storage_class = ''gp3'', pv_capacity_bytes = 1,
     pv_reclaim_policy = ''Retain'', pv_claim_namespace = ''ns'', pv_claim_name = ''data'', pv_claim_uid = ''u1'',
     pv_volume_id = ''vol-1'', pv_annotations = (\<lambda>k. None)\<rparr>"

definition demo_inventory :: Inventory where
  "demo_inventory = \<lparr>iy_pvcs = [demo_pvc], iy_pvs = [demo_pv], iy_claims_in_use = {''ns/data''}, iy_stateful_sets = []\<rparr>"

text \<open>The claim is mounted, but it is not the claim the volume was bound to.\<close>

theorem volume_verdict_follows_its_claim_witness:
  "\<not> fst (claim_verdict demo_inventory demo_pvc) \<and>
   fi_unused (classify \<lparr>rf_format = (\<lambda>t. []), rf_parse = (\<lambda>s. None)\<rparr> demo_inventory 0 0 ! 1)"
proof -
  have "distinct (map claim_key (iy_pvcs demo_inventory))" "0 < length (iy_pvs demo_inventory)" "demo_pv = iy_pvs demo_inventory ! 0"
    by (simp_all add: demo_inventory_def)
  from volume_verdict_follows_its_claim [OF this, of "\<lparr>rf_format = (\<lambda>t. []), rf_parse = (\<lambda>s. None)\<rparr>" 0 0]
  have "fi_unused (classify \<lparr>rf_format = (\<lambda>t. []), rf_parse = (\<lambda>s. None)\<rparr> demo_inventory 0 0 ! 1)"
    by (simp add: demo_inventory_def demo_pv_def demo_pvc_def claim_of_def claim_key_def)
  moreover have "\<not> fst (claim_verdict demo_inventory demo_pvc)"
    by (simp add: claim_verdict_def demo_inventory_def demo_pvc_def claim_key_def classify_pvc_def)
  ultimately show ?thesis by simp
qed

subsection \<open>The unused clock\<close>

text \<open>What the API server makes of a patch, and what the annotations of an object are after a pass that sees \<open>f\<close>.\<close>

definition apply_patch :: "AnnotationSet \<Rightarrow> annotations \<Rightarrow> annotations" where
  "apply_patch d ann = (\<lambda>k. if k \<in> set (an_remove d) then None else case map_of (an_set d) k of Some v \<Rightarrow> Some v | None \<Rightarrow> ann k)"

definition annotated :: "rfc3339 \<Rightarrow> int \<Rightarrow> bool \<Rightarrow> Finding \<Rightarrow> annotations" where
  "annotated rf now ok f =
     (if ok \<and> needs_write rf (build_annotations rf f) (fi_annotations f) now
      then apply_patch (desired_annotations rf f now) (fi_annotations f) else fi_annotations f)"

text \<open>The findings of successive passes over one object: the time of the pass, what it sees, and whether the
  API server accepts its patch.\<close>

fun successive :: "rfc3339 \<Rightarrow> int \<Rightarrow> (int \<times> Finding \<times> bool) list \<Rightarrow> annotations \<Rightarrow> Finding list" where
  "successive rf min_age [] ann = []"
| "successive rf min_age ((now, seen, ok) # ps) ann =
     (let f = finalize rf (seen\<lparr>fi_annotations := ann\<rparr>) min_age now
      in f # successive rf min_age ps (annotated rf now ok f))"

definition whole_second :: "int \<Rightarrow> int" where
  "whole_second t = t div second_nanos * second_nanos"

definition reads_back :: "rfc3339 \<Rightarrow> bool" where
  "reads_back rf \<longleftrightarrow> (\<forall>t. rf_parse rf (rf_format rf t) = Some (whole_second t))"

lemma whole_second_le: "whole_second t \<le> t"
  using pos_mod_sign [of second_nanos t] div_mult_mod_eq [of t second_nanos]
  by (simp add: whole_second_def second_nanos_def)

lemma whole_second_idem [simp]: "whole_second (whole_second t) = whole_second t"
  by (simp add: whole_second_def second_nanos_def)

lemma ann_key_eq [simp]: "ann_key a = ann_key b \<longleftrightarrow> a = b"
  by (simp add: ann_key_def)

lemmas key_names = KEY_UNUSED_def KEY_UNUSED_SINCE_def KEY_UNUSED_REASON_def KEY_UNUSED_DAYS_def KEY_VOLUME_ID_def
  KEY_OBSERVED_AT_def DATA_KEYS_def

lemma annotated_since:
  assumes "fi_unused f" "fi_unused_since f = Some t" "ok \<or> fi_annotations f (ann_key KEY_UNUSED_SINCE) = Some (rf_format rf t)"
  shows "annotated rf now ok f (ann_key KEY_UNUSED_SINCE) = Some (rf_format rf t)"
proof -
  have d: "an_set (build_annotations rf f) \<noteq> []" "(ann_key KEY_UNUSED_SINCE, rf_format rf t) \<in> set (an_set (build_annotations rf f))"
    using assms by (simp_all add: build_annotations_def Let_def)
  show ?thesis
  proof (cases "ok \<and> needs_write rf (build_annotations rf f) (fi_annotations f) now")
    case True
    then show ?thesis
      using assms(1,2)
      by (simp add: annotated_def apply_patch_def desired_annotations_def build_annotations_def Let_def key_names)
  next
    case False
    then show ?thesis
      using assms d by (auto simp: annotated_def needs_write_def Let_def list_ex_iff split: if_splits)
  qed
qed

lemma annotated_kept:
  assumes "fi_unused f" "fi_unused_since f = Some t"
  shows "annotated rf now ok f (ann_key KEY_UNUSED_SINCE) \<in> {Some (rf_format rf t), fi_annotations f (ann_key KEY_UNUSED_SINCE)}"
  using annotated_since [OF assms, of ok rf now] by (cases ok) (simp_all add: annotated_def)

lemma successive_clock:
  assumes "reads_back rf" "ann (ann_key KEY_UNUSED_SINCE) = Some x" "rf_parse rf x = Some (whole_second t)"
    "list_all (\<lambda>(now, seen, ok). fi_unused seen \<and> t \<le> now) ps"
  shows "map (\<lambda>f. (fi_unused_since f, fi_reportable f)) (successive rf min_age ps ann) =
    map (\<lambda>(now, seen, ok). (Some (whole_second t), min_age \<le> now - whole_second t)) ps"
  using assms(2-)
proof (induction ps arbitrary: ann x)
  case (Cons p ps)
  obtain now seen ok where p: "p = (now, seen, ok)" by (cases p) auto
  define f where "f = finalize rf (seen\<lparr>fi_annotations := ann\<rparr>) min_age now"
  have le: "whole_second t \<le> now" using Cons.prems(3) whole_second_le [of t] by (simp add: p)
  have f: "fi_unused f" "fi_unused_since f = Some (whole_second t)" "fi_reportable f \<longleftrightarrow> min_age \<le> now - whole_second t"
    "fi_annotations f = ann"
    using Cons.prems le by (simp_all add: f_def finalize_def unused_since_def p Let_def)
  have "\<exists>y. annotated rf now ok f (ann_key KEY_UNUSED_SINCE) = Some y \<and> rf_parse rf y = Some (whole_second t)"
    using annotated_kept [OF f(1,2), of rf now ok] Cons.prems(1,2) assms(1) f(4) by (auto simp: reads_back_def)
  then obtain y where "annotated rf now ok f (ann_key KEY_UNUSED_SINCE) = Some y" "rf_parse rf y = Some (whole_second t)" by blast
  from Cons.IH [where ann = "annotated rf now ok f", OF this] Cons.prems(3) show ?case by (simp add: p f_def [symmetric] f Let_def)
qed simp

text \<open>
  C30. The unused clock runs from the first mark. If times are read back as written, to the second, and the
  first pass that finds an unmarked object unused stores its mark, then every later pass in an unbroken
  series of unused verdicts dates the object from that first pass, whatever reason it gives and whether or
  not its own patch is accepted, and reports the object exactly once the minimum age has passed since.
\<close>

theorem unused_clock_runs_from_the_first_mark:
  assumes "reads_back rf" "ann (ann_key KEY_UNUSED_SINCE) = None" "fi_unused seen"
    "list_all (\<lambda>(now, seen', ok). fi_unused seen' \<and> start \<le> now) ps"
  shows "map (\<lambda>f. (fi_unused_since f, fi_reportable f)) (tl (successive rf min_age ((start, seen, True) # ps) ann)) =
    map (\<lambda>(now, seen', ok). (Some (whole_second start), min_age \<le> now - whole_second start)) ps"
proof -
  define f where "f = finalize rf (seen\<lparr>fi_annotations := ann\<rparr>) min_age start"
  have "fi_unused f" "fi_unused_since f = Some start"
    using assms(2,3) by (simp_all add: f_def finalize_def unused_since_def Let_def)
  then have "annotated rf start True f (ann_key KEY_UNUSED_SINCE) = Some (rf_format rf start)"
    by (intro annotated_since) simp_all
  then show ?thesis
    using assms(1) successive_clock [where ann = "annotated rf start True f", OF assms(1) _ _ assms(4)]
    by (simp add: f_def [symmetric] Let_def reads_back_def)
qed

definition demo_rfc :: rfc3339 where
  "demo_rfc = \<lparr>rf_format = (\<lambda>t. let s = t div second_nanos in (if 0 \<le> s then CHR ''+'' else CHR ''-'') # replicate (nat \<bar>s\<bar>) CHR ''i''),
     rf_parse = (\<lambda>s. case s of [] \<Rightarrow> None
       | c # cs \<Rightarrow> Some ((if c = CHR ''+'' then int (length cs) else - int (length cs)) * second_nanos))\<rparr>"

lemma demo_reads_back: "reads_back demo_rfc"
  by (auto simp: reads_back_def demo_rfc_def whole_second_def Let_def)

theorem unused_clock_runs_from_the_first_mark_witness:
  "map (\<lambda>f. (fi_unused_since f, fi_reportable f)) (tl (successive demo_rfc (2 * second_nanos)
     [(second_nanos + 5, empty_finding\<lparr>fi_unused := True\<rparr>, True),
      (second_nanos + 7, empty_finding\<lparr>fi_unused := True, fi_reason := REASON_UNBOUND\<rparr>, False),
      (3 * second_nanos, empty_finding\<lparr>fi_unused := True\<rparr>, True)] (\<lambda>k. None))) =
   [(Some second_nanos, False), (Some second_nanos, True)]"
  by (subst unused_clock_runs_from_the_first_mark [OF demo_reads_back])
    (simp_all add: whole_second_def second_nanos_def)

subsection \<open>Marks of objects in use\<close>

lemma in_use_desired:
  assumes "\<not> fi_unused f"
  shows "desired_annotations rf f now = \<lparr>an_set = [], an_remove = map ann_key (DATA_KEYS @ [KEY_OBSERVED_AT])\<rparr>"
  using assms by (simp add: desired_annotations_def build_annotations_def Let_def)

text \<open>
  An object in use carries no mark. A pass that sees the object in use and whose patch, if it sends one,
  is accepted leaves none of the scanner's annotations and every other annotation as it was, and the
  next pass that sees it in use sends nothing.
\<close>

theorem in_use_object_carries_no_mark:
  assumes "\<not> fi_unused f" "\<not> fi_unused f'" "fi_annotations f' = annotated (sn_rfc sn) now True f"
  shows "annotated (sn_rfc sn) now True f = (\<lambda>k. if k \<in> set (map ann_key (DATA_KEYS @ [KEY_OBSERVED_AT])) then None else fi_annotations f k) \<and>
    scan_publish sn f' now' tr = (Inr OutcomeUnchanged, tr)"
proof -
  let ?rf = "sn_rfc sn"
  let ?keys = "map ann_key (DATA_KEYS @ [KEY_OBSERVED_AT])"
  have b: "build_annotations ?rf g = \<lparr>an_set = [], an_remove = ?keys\<rparr>" if "\<not> fi_unused g" for g
    using that by (simp add: build_annotations_def Let_def)
  have nw: "needs_write ?rf (build_annotations ?rf g) ann t \<longleftrightarrow> list_ex (\<lambda>k. ann k \<noteq> None) ?keys" if "\<not> fi_unused g" for g ann t
    by (simp add: b [OF that] needs_write_def)
  have ann: "annotated (sn_rfc sn) now True f = (\<lambda>k. if k \<in> set ?keys then None else fi_annotations f k)"
    unfolding annotated_def nw [OF assms(1)] in_use_desired [OF assms(1)]
    by (auto simp: apply_patch_def list_ex_iff fun_eq_iff)
  then have "\<not> needs_write ?rf (build_annotations ?rf f') (fi_annotations f') now'"
    unfolding nw [OF assms(2)] assms(3) by (simp add: list_ex_iff)
  then show ?thesis using ann by (simp add: scan_publish_def)
qed

definition demo_scanner :: Scanner where
  "demo_scanner = \<lparr>sn_dry_run = False, sn_events = True, sn_min_unused_age = MIN_UNUSED_AGE, sn_rfc = demo_rfc,
     sn_annotate = (\<lambda>tr f. Inr ())\<rparr>"

definition demo_marked :: Finding where
  "demo_marked = empty_finding\<lparr>fi_annotations := (\<lambda>k. if k = ann_key KEY_UNUSED then Some ''true''
     else if k = ''team'' then Some ''db'' else None)\<rparr>"

theorem in_use_object_carries_no_mark_witness:
  "(let ann = annotated (sn_rfc demo_scanner) 0 True demo_marked
    in ann (ann_key KEY_UNUSED) = None \<and> ann ''team'' = Some ''db'') \<and>
   scan_publish demo_scanner (empty_finding\<lparr>fi_annotations := annotated (sn_rfc demo_scanner) 0 True demo_marked\<rparr>) 1 [] =
     (Inr OutcomeUnchanged, [])"
proof -
  have "\<not> fi_unused demo_marked" "\<not> fi_unused (empty_finding\<lparr>fi_annotations := annotated (sn_rfc demo_scanner) 0 True demo_marked\<rparr>)"
    by (simp_all add: demo_marked_def empty_finding_def)
  note c = in_use_object_carries_no_mark [OF this, where sn = demo_scanner and now = 0 and now' = 1 and tr = "[]"]
  have i: "annotated (sn_rfc demo_scanner) 0 True demo_marked =
      (\<lambda>k. if k \<in> set (map ann_key (DATA_KEYS @ [KEY_OBSERVED_AT])) then None else fi_annotations demo_marked k)"
    "scan_publish demo_scanner (empty_finding\<lparr>fi_annotations := annotated (sn_rfc demo_scanner) 0 True demo_marked\<rparr>) 1 [] =
      (Inr OutcomeUnchanged, [])"
    by (rule c [THEN conjunct1], simp) (rule c [THEN conjunct2], simp)
  have "annotated (sn_rfc demo_scanner) 0 True demo_marked (ann_key KEY_UNUSED) = None"
    "annotated (sn_rfc demo_scanner) 0 True demo_marked ''team'' = Some ''db''"
    unfolding i(1) by (simp_all add: demo_marked_def key_names ann_key_def PREFIX_def)
  then show ?thesis using i(2) by (simp add: Let_def)
qed

text \<open>A dry run sends neither patches nor events.\<close>

lemma dry_run_scan_sends_nothing: "sn_dry_run sn \<Longrightarrow> fst (snd (scan_reconcile sn inventory now)) = []"
proof -
  assume "sn_dry_run sn"
  then have "scan_step sn now f tr = tr" for f tr by (simp add: scan_step_def scan_publish_def scan_emit_def)
  then have "fold (scan_step sn now) fs [] = []" for fs by (induction fs) simp_all
  then show ?thesis by (simp add: scan_reconcile_def Let_def split: sum.splits)
qed

text \<open>
  Claims of StatefulSets are recognised by name alone, and the first set that fits decides. Two sets can
  generate the same claim name; then a claim that a live replica holds open is called scaled down.
\<close>

lemma first_matching_set_decides:
  "let c = demo_pvc\<lparr>pvc_name := ''a-b-c-0''\<rparr>;
       idle = \<lparr>ss_namespace = ''ns'', ss_name = ''b-c'', ss_replicas = 0, ss_ordinal_start = 0, ss_claim_templates = [''a'']\<rparr>;
       live = \<lparr>ss_namespace = ''ns'', ss_name = ''c'', ss_replicas = 1, ss_ordinal_start = 0, ss_claim_templates = [''a-b'']\<rparr>
   in classify_pvc c {} [idle, live] (claim_key c) = (True, REASON_STATEFULSET_SCALED_DOWN) \<and>
      classify_pvc c {} [live, idle] (claim_key c) = (False, REASON_STATEFULSET_SLOT)"
  by (simp add: Let_def classify_pvc_def demo_pvc_def parse_i32_def is_ascii_digit_def wrapping_add_i32_def)

end
