(* ===== verification/Vas_Resizer.thy ===== *)
theory Vas_Resizer
  imports Vas_Policy Vas_Scan
begin

section \<open>volume-autoscaler: resizer (instance\_volume/resizer.rs, resizer/, recstore.rs, k8s/cordon.rs)\<close>

text \<open>
  What one reconcile pass does to one instance: measure its root file system, cordon its Node while it is
  full, grow the volume, wait, extend the file system, measure again. AWS, SSM, the API server and the
  clock are the record \<open>rz_env\<close>, whose answers may depend on everything sent so far in the pass; what is
  sent is collected in order with its outcome. Points in time count nanoseconds. Metrics, log lines and
  the wording of alerts are left out: the reports to Events, alerts and dashboards appear as one report each.
\<close>

subsection \<open>Recommendations\<close>

record Entry =
  re_node_name :: string
  re_node_uid :: string
  re_action :: string
  re_throughput_mibps :: int
  re_iops :: int
  re_current_mibps :: int
  re_current_iops :: int
  re_observed_at :: "int option"

type_synonym Store = "string \<Rightarrow> Entry option"

definition store_publish :: "string \<Rightarrow> Entry \<Rightarrow> Store \<Rightarrow> Store" where
  "store_publish vol e st = (if vol = [] then st else st(vol := Some e))"

definition store_delete :: "string \<Rightarrow> Store \<Rightarrow> Store" where
  "store_delete vol st = st(vol := None)"

definition store_retain :: "string set \<Rightarrow> Store \<Rightarrow> Store" where
  "store_retain keep st = (\<lambda>vol. if vol \<in> keep then st vol else None)"

definition store_lookup :: "int \<Rightarrow> string \<Rightarrow> int \<Rightarrow> Store \<Rightarrow> Entry option" where
  "store_lookup now vol max_age st =
     (case st vol of
        None \<Rightarrow> None
      | Some e \<Rightarrow> (case re_observed_at e of None \<Rightarrow> None | Some t \<Rightarrow> if now - t > max_age then None else Some e))"

definition node_ref :: "string \<Rightarrow> Store \<Rightarrow> (string \<times> string) option" where
  "node_ref vol st =
     (case st vol of
        None \<Rightarrow> None
      | Some e \<Rightarrow> if re_node_name e = [] then None else Some (re_node_name e, re_node_uid e))"

subsection \<open>Nodes, volumes and observations\<close>

record CordonNode =
  cn_name :: string
  cn_uid :: string
  cn_unschedulable :: bool
  cn_protective :: bool
  cn_condition :: "bool option"

record ModifySpec =
  ms_size_gib :: int
  ms_throughput_mibps :: int
  ms_iops :: int

record VolumeModification =
  vm_state :: string
  vm_start_time :: "int option"
  vm_target_gib :: int

record ModSummary =
  mo_node_name :: string
  mo_node_uid :: string
  mo_volume_id :: string
  mo_size_from_gib :: int
  mo_size_to_gib :: int
  mo_tp_from_mibps :: int
  mo_tp_to_mibps :: int
  mo_iops_from :: int
  mo_iops_to :: int
  mo_fallback :: bool

record Observation =
  ob_capacity_gib :: int
  ob_usage :: "int option"
  ob_desired_gib :: "int option"
  ob_reason :: string
  ob_message :: string
  ob_scaled_at :: "int option"
  ob_cooldown_until :: "int option"

definition observation_new :: "int \<Rightarrow> Observation" where
  "observation_new gib = \<lparr>ob_capacity_gib = gib, ob_usage = None, ob_desired_gib = None, ob_reason = [], ob_message = [],
     ob_scaled_at = None, ob_cooldown_until = None\<rparr>"

definition observation_set :: "string \<Rightarrow> string \<Rightarrow> Observation \<Rightarrow> Observation" where
  "observation_set reason message ob = ob\<lparr>ob_reason := reason, ob_message := message\<rparr>"

subsection \<open>The world of one pass\<close>

datatype rz_script = MEASURE_ROOT_FS | RESIZE_ROOT_FS

datatype cordon_call = Cordon string | Uncordon string | Forget string | SetCondition string bool string

datatype rz_report =
    ReportStarted int int int
  | ReportFailure string string ModSummary
  | ReportSuccess int int ModSummary

datatype rz_effect =
    Script string rz_script bool
  | ModifyVolume string ModifySpec bool
  | NodeCall cordon_call bool
  | NodeEvent string string
  | Report rz_report

record rz_env =
  rz_run_script :: "rz_effect list \<Rightarrow> string \<Rightarrow> rz_script \<Rightarrow> string + string"
  rz_modify_volume :: "rz_effect list \<Rightarrow> string \<Rightarrow> ModifySpec \<Rightarrow> string + unit"
  rz_last_modification :: "rz_effect list \<Rightarrow> string \<Rightarrow> string + VolumeModification option"
  rz_wait :: "rz_effect list \<Rightarrow> string \<Rightarrow> string + unit"
  rz_node_api :: "rz_effect list \<Rightarrow> cordon_call \<Rightarrow> string + unit"
  rz_clock :: "rz_effect list \<Rightarrow> int"

record Resizer =
  rz_dry_run :: bool
  rz_cordon :: bool
  rz_recs :: "Store option"
  rz_apply_on_resize :: bool
  rz_interval :: int
  rz_format :: "int \<Rightarrow> string"

record rz_state =
  st_log :: "rz_effect list"
  st_node :: "CordonNode option"
  st_obs :: Observation

definition went_ok :: "string + 'a \<Rightarrow> bool" where
  "went_ok r = (case r of Inr x \<Rightarrow> True | Inl e \<Rightarrow> False)"

definition log_effect :: "rz_effect \<Rightarrow> rz_state \<Rightarrow> rz_state" where
  "log_effect x st = st\<lparr>st_log := st_log st @ [x]\<rparr>"

definition set_obs :: "string \<Rightarrow> string \<Rightarrow> rz_state \<Rightarrow> rz_state" where
  "set_obs reason message st = st\<lparr>st_obs := observation_set reason message (st_obs st)\<rparr>"

subsection \<open>Measuring\<close>

text \<open>The wording of the standard library for unreadable numbers is left out of the message.\<close>

definition strip_percent :: "string \<Rightarrow> string" where
  "strip_percent s = rev (dropWhile (\<lambda>c. c = CHR ''%'') (rev s))"

definition parse_usage_percent :: "string \<Rightarrow> string + int" where
  "parse_usage_percent out =
     (let s = trim (strip_percent (trim out))
      in if s = [] then Inl ''empty usage output''
         else case parse_i32 s of
                None \<Rightarrow> Inl (''parse usage '' @ debug_str out)
              | Some n \<Rightarrow> if 0 \<le> n \<and> n \<le> 100 then Inr n else Inl (''usage '' @ show_int n @ '' out of range''))"

definition run_script :: "rz_env \<Rightarrow> string \<Rightarrow> rz_script \<Rightarrow> rz_state \<Rightarrow> (string + string) \<times> rz_state" where
  "run_script env inst script st =
     (let r = rz_run_script env (st_log st) inst script in (r, log_effect (Script inst script (went_ok r)) st))"

definition measure_usage :: "rz_env \<Rightarrow> string \<Rightarrow> rz_state \<Rightarrow> (string + int) \<times> rz_state" where
  "measure_usage env inst st =
     (let (r, st1) = run_script env inst MEASURE_ROOT_FS st
      in (case r of Inl e \<Rightarrow> Inl e | Inr out \<Rightarrow> parse_usage_percent out, st1))"

subsection \<open>Protective cordon\<close>

definition node_call :: "rz_env \<Rightarrow> cordon_call \<Rightarrow> rz_state \<Rightarrow> bool \<times> rz_state" where
  "node_call env c st = (let ok = went_ok (rz_node_api env (st_log st) c) in (ok, log_effect (NodeCall c ok) st))"

definition cordon_node :: "Resizer \<Rightarrow> rz_env \<Rightarrow> rz_state \<Rightarrow> rz_state" where
  "cordon_node rz env st =
     (case st_node st of
        None \<Rightarrow> st
      | Some n \<Rightarrow>
          if \<not> rz_cordon rz \<or> cn_protective n \<or> cn_unschedulable n \<or> rz_dry_run rz then st
          else let (ok, st1) = node_call env (Cordon (cn_name n)) st
               in if \<not> ok then st1
                  else (log_effect (NodeEvent (cn_name n) ''ProtectiveCordonApplied'') st1)
                    \<lparr>st_node := Some (n\<lparr>cn_unschedulable := True, cn_protective := True\<rparr>)\<rparr>)"

definition uncordon_node :: "Resizer \<Rightarrow> rz_env \<Rightarrow> rz_state \<Rightarrow> rz_state" where
  "uncordon_node rz env st =
     (case st_node st of
        None \<Rightarrow> st
      | Some n \<Rightarrow>
          if \<not> rz_cordon rz \<or> \<not> cn_protective n \<or> rz_dry_run rz then st
          else if \<not> cn_unschedulable n then
            (let (ok, st1) = node_call env (Forget (cn_name n)) st
             in if ok then st1\<lparr>st_node := Some (n\<lparr>cn_protective := False\<rparr>)\<rparr> else st1)
          else
            (let (ok, st1) = node_call env (Uncordon (cn_name n)) st
             in if \<not> ok then st1
                else (log_effect (NodeEvent (cn_name n) ''ProtectiveCordonReleased'') st1)
                  \<lparr>st_node := Some (n\<lparr>cn_unschedulable := False, cn_protective := False\<rparr>)\<rparr>))"

definition sync_protective_condition :: "Resizer \<Rightarrow> rz_env \<Rightarrow> int \<Rightarrow> Effective \<Rightarrow> rz_state \<Rightarrow> rz_state" where
  "sync_protective_condition rz env usage eff st =
     (case st_node st of
        None \<Rightarrow> st
      | Some n \<Rightarrow>
          if \<not> rz_cordon rz then st
          else let want = cn_protective n; under = (usage < ef_usage_threshold_percent eff)
               in if cn_condition n = Some want \<or> (\<not> want \<and> cn_condition n = None \<and> \<not> under) \<or> rz_dry_run rz then st
                  else let reason = (if want then ''ProtectiveCordonApplied''
                                     else if cn_condition n = None then ''ProtectiveCordonNotNeeded''
                                     else if under \<and> \<not> cn_unschedulable n then ''ProtectiveCordonReleased''
                                     else ''ProtectiveCordonMarkRemoved'');
                           (ok, st1) = node_call env (SetCondition (cn_name n) want reason) st
                       in if ok then st1\<lparr>st_node := Some (n\<lparr>cn_condition := Some want\<rparr>)\<rparr> else st1)"

definition apply_protective_cordon :: "Resizer \<Rightarrow> rz_env \<Rightarrow> int \<Rightarrow> Effective \<Rightarrow> rz_state \<Rightarrow> rz_state" where
  "apply_protective_cordon rz env usage eff st = sync_protective_condition rz env usage eff (cordon_node rz env st)"

definition release_protective_cordon :: "Resizer \<Rightarrow> rz_env \<Rightarrow> int \<Rightarrow> Effective \<Rightarrow> rz_state \<Rightarrow> rz_state" where
  "release_protective_cordon rz env usage eff st = sync_protective_condition rz env usage eff (uncordon_node rz env st)"

subsection \<open>Growing a volume\<close>

definition target_size :: "int \<Rightarrow> Effective \<Rightarrow> int" where
  "target_size cur eff = step_up cur (ef_steps eff) (ef_select_min eff)"

text \<open>A cooldown that does not fit the signed duration type counts as none.\<close>

definition cooldown_delta :: "nat \<Rightarrow> int" where
  "cooldown_delta secs = (if int secs \<le> i64_max div 1000 then int secs * second_nanos else 0)"

definition cooldown_block :: "rz_env \<Rightarrow> string \<Rightarrow> nat \<Rightarrow> rz_state \<Rightarrow> string + int option option" where
  "cooldown_block env vol cooldown st =
     (case rz_last_modification env (st_log st) vol of
        Inl e \<Rightarrow> Inl e
      | Inr None \<Rightarrow> Inr None
      | Inr (Some m) \<Rightarrow>
          if vm_state m = ''modifying'' \<or> vm_state m = ''optimizing'' then Inr (Some None)
          else Inr (case vm_start_time m of
                 None \<Rightarrow> None
               | Some start \<Rightarrow>
                   (let until_t = start + cooldown_delta cooldown
                    in if rz_clock env (st_log st) < until_t then Some (Some until_t) else None)))"

definition throughput_piggyback :: "Resizer \<Rightarrow> int \<Rightarrow> string \<Rightarrow> Entry option" where
  "throughput_piggyback rz now vol =
     (case rz_recs rz of
        None \<Rightarrow> None
      | Some recs \<Rightarrow>
          if \<not> rz_apply_on_resize rz then None
          else case store_lookup now vol (2 * rz_interval rz) recs of
                 None \<Rightarrow> None
               | Some e \<Rightarrow> if re_action e \<noteq> ''increase'' \<or> re_throughput_mibps e \<le> re_current_mibps e then None else Some e)"

definition new_mod_summary :: "Resizer \<Rightarrow> string \<Rightarrow> int \<Rightarrow> int \<Rightarrow> Entry option \<Rightarrow> ModSummary" where
  "new_mod_summary rz vol cur target entry =
     (let owner = (case Option.bind (rz_recs rz) (node_ref vol) of Some nu \<Rightarrow> nu | None \<Rightarrow> ([], []));
          of_entry = (\<lambda>g. case entry of Some e \<Rightarrow> g e | None \<Rightarrow> 0)
      in \<lparr>mo_node_name = fst owner, mo_node_uid = snd owner, mo_volume_id = vol, mo_size_from_gib = cur, mo_size_to_gib = target,
          mo_tp_from_mibps = of_entry re_current_mibps, mo_tp_to_mibps = of_entry re_throughput_mibps,
          mo_iops_from = of_entry re_current_iops, mo_iops_to = of_entry re_iops, mo_fallback = False\<rparr>)"

definition modify_volume :: "rz_env \<Rightarrow> string \<Rightarrow> ModifySpec \<Rightarrow> rz_state \<Rightarrow> (string + unit) \<times> rz_state" where
  "modify_volume env vol spec st =
     (let r = rz_modify_volume env (st_log st) vol spec in (r, log_effect (ModifyVolume vol spec (went_ok r)) st))"

definition size_only :: "int \<Rightarrow> ModifySpec" where
  "size_only gib = \<lparr>ms_size_gib = gib, ms_throughput_mibps = 0, ms_iops = 0\<rparr>"

definition report_failure :: "string \<Rightarrow> string \<Rightarrow> ModSummary \<Rightarrow> rz_state \<Rightarrow> rz_state" where
  "report_failure stage cause m st = log_effect (Report (ReportFailure stage cause m)) st"

text \<open>The request, with the fall-back to the size alone. The summary tells whether it fell back.\<close>

definition request_modification ::
    "rz_env \<Rightarrow> string \<Rightarrow> int \<Rightarrow> Entry option \<Rightarrow> ModSummary \<Rightarrow> rz_state \<Rightarrow> (string + ModSummary) \<times> rz_state" where
  "request_modification env vol target entry m st =
     (case entry of
        None \<Rightarrow>
          (case modify_volume env vol (size_only target) st of
             (Inl e, st1) \<Rightarrow> (Inl (''modify volume: '' @ e), report_failure ''modify'' (''ModifyVolume failed: '' @ e) m st1)
           | (Inr u, st1) \<Rightarrow> (Inr m, st1))
      | Some x \<Rightarrow>
          (case modify_volume env vol
               ((size_only target)\<lparr>ms_throughput_mibps := re_throughput_mibps x, ms_iops := re_iops x\<rparr>) st of
             (Inr u, st1) \<Rightarrow> (Inr m, st1)
           | (Inl e, st1) \<Rightarrow>
               (case modify_volume env vol (size_only target) st1 of
                  (Inl e2, st2) \<Rightarrow> (Inl (''modify volume: '' @ e2),
                     report_failure ''modify'' (''ModifyVolume failed: '' @ e2) (m\<lparr>mo_fallback := True\<rparr>) st2)
                | (Inr u, st2) \<Rightarrow> (Inr (m\<lparr>mo_fallback := True\<rparr>), st2))))"

text \<open>From the accepted request to the end of the pass.\<close>

definition finish_resize ::
    "Resizer \<Rightarrow> rz_env \<Rightarrow> Instance \<Rightarrow> Effective \<Rightarrow> int \<Rightarrow> int \<Rightarrow> int \<Rightarrow> ModSummary \<Rightarrow> rz_state \<Rightarrow> string option \<times> rz_state" where
  "finish_resize rz env inst eff usage target start m st =
     (case rz_wait env (st_log st) (in_root_volume_id inst) of
        Inl e \<Rightarrow> (Some (''wait for modification: '' @ e),
                  report_failure ''wait'' (''volume did not reach optimizing: '' @ e) m st)
      | Inr u \<Rightarrow>
          (case run_script env (in_id inst) RESIZE_ROOT_FS st of
             (Inl e, st1) \<Rightarrow> (Some (''resize filesystem: '' @ e),
                report_failure ''resize'' (''filesystem resize failed: '' @ e) m st1)
           | (Inr out, st1) \<Rightarrow>
               (let (r, st2) = measure_usage env (in_id inst) st1;
                    after = (case r of Inr a \<Rightarrow> a | Inl e \<Rightarrow> 0);
                    st3 = (if went_ok r \<and> after < ef_usage_threshold_percent eff
                           then release_protective_cordon rz env after eff st2 else st2);
                    st4 = log_effect (Report (ReportSuccess usage after m)) st3
                in (None, set_obs ''SucceededRescale''
                      (''grew from '' @ show_int (in_root_volume_size_gib inst) @ '' GiB to '' @ show_int target @ '' GiB at '' @
                       show_int usage @ ''% usage'')
                      (st4\<lparr>st_obs := (st_obs st4)\<lparr>ob_capacity_gib := target, ob_usage := Some after, ob_scaled_at := Some start,
                         ob_cooldown_until := Some (start + cooldown_delta (ef_cooldown eff))\<rparr>\<rparr>)))))"

definition grow_volume :: "Resizer \<Rightarrow> rz_env \<Rightarrow> Instance \<Rightarrow> Effective \<Rightarrow> int \<Rightarrow> int \<Rightarrow> rz_state \<Rightarrow> string option \<times> rz_state" where
  "grow_volume rz env inst eff usage target st =
     (let vol = in_root_volume_id inst; cur = in_root_volume_size_gib inst;
          entry = throughput_piggyback rz (rz_clock env (st_log st)) vol;
          m = new_mod_summary rz vol cur target entry
      in if rz_dry_run rz then (None, set_obs ''DryRun'' (''would grow to '' @ show_int target @ '' GiB'') st)
         else let start = rz_clock env (st_log st);
                  st1 = log_effect (Report (ReportStarted cur target usage)) st
              in (case request_modification env vol target entry m st1 of
                    (Inl e, st2) \<Rightarrow> (Some e, st2)
                  | (Inr m2, st2) \<Rightarrow> finish_resize rz env inst eff usage target start m2 st2))"

definition cooldown_message :: "Resizer \<Rightarrow> Effective \<Rightarrow> int option \<Rightarrow> string" where
  "cooldown_message rz eff until_t =
     (case until_t of
        None \<Rightarrow> ''a modification of the volume is still in progress''
      | Some t \<Rightarrow> ''the volume was modified within the '' @ format_cooldown (ef_cooldown eff) @
          '' cooldown, next modification after '' @ rz_format rz t)"

definition above_threshold :: "Resizer \<Rightarrow> rz_env \<Rightarrow> Instance \<Rightarrow> Effective \<Rightarrow> int \<Rightarrow> rz_state \<Rightarrow> string option \<times> rz_state" where
  "above_threshold rz env inst eff usage st =
     (let st1 = apply_protective_cordon rz env usage eff st;
          target = target_size (in_root_volume_size_gib inst) eff;
          st2 = st1\<lparr>st_obs := (st_obs st1)\<lparr>ob_desired_gib := Some target\<rparr>\<rparr>
      in if target > ef_max_volume_size_gib eff
         then (None, set_obs ''MaxCapacityReached'' (show_int target @ '' GiB would exceed maxCapacity '' @
                show_int (ef_max_volume_size_gib eff) @ '' GiB'') st2)
         else case cooldown_block env (in_root_volume_id inst) (ef_cooldown eff) st2 of
                Inl e \<Rightarrow> (Some (''check cooldown: '' @ e), st2)
              | Inr (Some until_t) \<Rightarrow>
                  (None, set_obs ''Cooldown'' (cooldown_message rz eff until_t)
                     (st2\<lparr>st_obs := (st_obs st2)\<lparr>ob_cooldown_until := until_t\<rparr>\<rparr>))
              | Inr None \<Rightarrow> grow_volume rz env inst eff usage target st2)"

definition reconcile_instance :: "Resizer \<Rightarrow> rz_env \<Rightarrow> Instance \<Rightarrow> Effective \<Rightarrow> rz_state \<Rightarrow> string option \<times> rz_state" where
  "reconcile_instance rz env inst eff st =
     (if in_root_volume_id inst = [] then (None, set_obs ''NoRootVolume'' ''no root EBS volume resolved'' st)
      else if ef_paused eff then (None, set_obs ''ScalingDisabled'' ''behavior.scaleUp.selectPolicy is Disabled'' st)
      else case measure_usage env (in_id inst) st of
             (Inl e, st1) \<Rightarrow> (Some (''measure usage: '' @ e), st1\<lparr>st_obs := (st_obs st1)\<lparr>ob_reason := ''FailedGetResourceMetric''\<rparr>\<rparr>)
           | (Inr usage, st1) \<Rightarrow>
               (let st2 = st1\<lparr>st_obs := (st_obs st1)\<lparr>ob_usage := Some usage\<rparr>\<rparr>
                in if usage < ef_usage_threshold_percent eff
                   then (None, release_protective_cordon rz env usage eff
                          (set_obs ''BelowTarget'' (''usage '' @ show_int usage @ ''% is below the '' @
                             show_int (ef_usage_threshold_percent eff) @ ''% target'') st2))
                   else above_threshold rz env inst eff usage st2))"

definition start_state :: "Instance \<Rightarrow> CordonNode option \<Rightarrow> rz_state" where
  "start_state inst node = \<lparr>st_log = [], st_node = node, st_obs = observation_new (in_root_volume_size_gib inst)\<rparr>"

text \<open>The task of one managed instance: an error becomes the message of the observation.\<close>

definition instance_task :: "Resizer \<Rightarrow> rz_env \<Rightarrow> Instance \<Rightarrow> Effective \<Rightarrow> CordonNode option \<Rightarrow> rz_state" where
  "instance_task rz env inst eff node =
     (case reconcile_instance rz env inst eff (start_state inst node) of
        (None, st) \<Rightarrow> st
      | (Some e, st) \<Rightarrow>
          st\<lparr>st_obs := (st_obs st)\<lparr>ob_reason := (if ob_reason (st_obs st) = [] then ''FailedRescale'' else ob_reason (st_obs st)),
             ob_message := e\<rparr>\<rparr>)"

subsection \<open>What a pass sends\<close>

definition modifications :: "rz_effect list \<Rightarrow> (string \<times> ModifySpec \<times> bool) list" where
  "modifications = filter_map (\<lambda>x. case x of ModifyVolume v s ok \<Rightarrow> Some (v, s, ok) | _ \<Rightarrow> None)"

definition scripts :: "rz_effect list \<Rightarrow> rz_script list" where
  "scripts = filter_map (\<lambda>x. case x of Script i s ok \<Rightarrow> Some s | _ \<Rightarrow> None)"

definition node_calls :: "rz_effect list \<Rightarrow> (cordon_call \<times> bool) list" where
  "node_calls = filter_map (\<lambda>x. case x of NodeCall c ok \<Rightarrow> Some (c, ok) | _ \<Rightarrow> None)"

lemma log_effect_sel [simp]:
  "st_log (log_effect x st) = st_log st @ [x]" "st_node (log_effect x st) = st_node st" "st_obs (log_effect x st) = st_obs st"
  by (simp_all add: log_effect_def)

lemma set_obs_sel [simp]: "st_log (set_obs r m st) = st_log st" "st_node (set_obs r m st) = st_node st"
  by (simp_all add: set_obs_def)

lemma projections [simp]:
  "modifications [] = []" "modifications (xs @ ys) = modifications xs @ modifications ys"
  "modifications (Script i s ok # xs) = modifications xs" "modifications (ModifyVolume v sp ok # xs) = (v, sp, ok) # modifications xs"
  "modifications (NodeCall c ok # xs) = modifications xs" "modifications (NodeEvent n r # xs) = modifications xs"
  "modifications (Report rep # xs) = modifications xs"
  "scripts [] = []" "scripts (xs @ ys) = scripts xs @ scripts ys"
  "scripts (Script i s ok # xs) = s # scripts xs" "scripts (ModifyVolume v sp ok # xs) = scripts xs"
  "scripts (NodeCall c ok # xs) = scripts xs" "scripts (NodeEvent n r # xs) = scripts xs" "scripts (Report rep # xs) = scripts xs"
  "node_calls [] = []" "node_calls (xs @ ys) = node_calls xs @ node_calls ys"
  "node_calls (Script i s ok # xs) = node_calls xs" "node_calls (ModifyVolume v sp ok # xs) = node_calls xs"
  "node_calls (NodeCall c ok # xs) = (c, ok) # node_calls xs" "node_calls (NodeEvent n r # xs) = node_calls xs"
  "node_calls (Report rep # xs) = node_calls xs"
  by (simp_all add: modifications_def scripts_def node_calls_def filter_map_append)

lemma node_call_sel [simp]:
  "snd (node_call env c st) = log_effect (NodeCall c (fst (node_call env c st))) st"
  by (simp add: node_call_def Let_def)

text \<open>The cordon steps talk to the Node only.\<close>

lemma cordon_frame:
  "modifications (st_log (cordon_node rz env st)) = modifications (st_log st)"
  "scripts (st_log (cordon_node rz env st)) = scripts (st_log st)" "st_obs (cordon_node rz env st) = st_obs st"
  by (auto simp: cordon_node_def Let_def case_prod_unfold split: option.splits)

lemma uncordon_frame:
  "modifications (st_log (uncordon_node rz env st)) = modifications (st_log st)"
  "scripts (st_log (uncordon_node rz env st)) = scripts (st_log st)" "st_obs (uncordon_node rz env st) = st_obs st"
  by (auto simp: uncordon_node_def Let_def case_prod_unfold split: option.splits)

lemma sync_frame:
  "modifications (st_log (sync_protective_condition rz env u eff st)) = modifications (st_log st)"
  "scripts (st_log (sync_protective_condition rz env u eff st)) = scripts (st_log st)"
  "st_obs (sync_protective_condition rz env u eff st) = st_obs st"
  by (auto simp: sync_protective_condition_def Let_def case_prod_unfold split: option.splits)

lemma protective_frame [simp]:
  "modifications (st_log (apply_protective_cordon rz env u eff st)) = modifications (st_log st)"
  "scripts (st_log (apply_protective_cordon rz env u eff st)) = scripts (st_log st)"
  "st_obs (apply_protective_cordon rz env u eff st) = st_obs st"
  "modifications (st_log (release_protective_cordon rz env u eff st)) = modifications (st_log st)"
  "scripts (st_log (release_protective_cordon rz env u eff st)) = scripts (st_log st)"
  "st_obs (release_protective_cordon rz env u eff st) = st_obs st"
  by (simp_all add: apply_protective_cordon_def release_protective_cordon_def cordon_frame uncordon_frame sync_frame)

lemma script_sel [simp]:
  "snd (run_script env i s st) = log_effect (Script i s (went_ok (fst (run_script env i s st)))) st"
  by (simp add: run_script_def Let_def)

lemma measure_sel [simp]:
  "snd (measure_usage env i st) = log_effect (Script i MEASURE_ROOT_FS (went_ok (fst (run_script env i MEASURE_ROOT_FS st)))) st"
  by (simp add: measure_usage_def case_prod_unfold Let_def)

lemma modify_sel [simp]:
  "snd (modify_volume env v sp st) = log_effect (ModifyVolume v sp (went_ok (fst (modify_volume env v sp st)))) st"
  by (simp add: modify_volume_def Let_def)

lemma report_failure_sel [simp]: "st_log (report_failure stage c m st) = st_log st @ [Report (ReportFailure stage c m)]"
  by (simp add: report_failure_def)

definition combined_spec :: "int \<Rightarrow> Entry \<Rightarrow> ModifySpec" where
  "combined_spec target x = \<lparr>ms_size_gib = target, ms_throughput_mibps = re_throughput_mibps x, ms_iops = re_iops x\<rparr>"

text \<open>
  The requests of one pass, each with whether AWS accepted it. Without a throughput change: one for
  the size alone. With one: the combined request, and only if that is refused one for the size alone.
\<close>

definition attempts_ok :: "string \<Rightarrow> int \<Rightarrow> Entry option \<Rightarrow> (string \<times> ModifySpec \<times> bool) list \<Rightarrow> bool" where
  "attempts_ok vol target entry ms \<longleftrightarrow> (case entry of
     None \<Rightarrow> \<exists>ok. ms = [(vol, size_only target, ok)]
   | Some x \<Rightarrow> ms = [(vol, combined_spec target x, True)] \<or>
       (\<exists>ok. ms = [(vol, combined_spec target x, False), (vol, size_only target, ok)]))"

lemma request_frame:
  "\<exists>ms. modifications (st_log (snd (request_modification env vol target entry m st))) = modifications (st_log st) @ ms \<and>
     attempts_ok vol target entry ms \<and>
     (went_ok (fst (request_modification env vol target entry m st)) \<longrightarrow> (\<exists>sp. (vol, sp, True) \<in> set ms))"
  "scripts (st_log (snd (request_modification env vol target entry m st))) = scripts (st_log st)"
proof -
  show "\<exists>ms. modifications (st_log (snd (request_modification env vol target entry m st))) = modifications (st_log st) @ ms \<and>
     attempts_ok vol target entry ms \<and>
     (went_ok (fst (request_modification env vol target entry m st)) \<longrightarrow> (\<exists>sp. (vol, sp, True) \<in> set ms))"
  proof (cases entry)
    case None
    then show ?thesis
      by (intro exI [of _ "[(vol, size_only target, went_ok (fst (modify_volume env vol (size_only target) st)))]"])
        (auto simp: request_modification_def attempts_ok_def case_prod_unfold went_ok_def split: sum.splits)
  next
    case (Some x)
    let ?c = "combined_spec target x"
    have c: "(size_only target)\<lparr>ms_throughput_mibps := re_throughput_mibps x, ms_iops := re_iops x\<rparr> = ?c"
      by (simp add: size_only_def combined_spec_def)
    let ?st1 = "snd (modify_volume env vol ?c st)"
    show ?thesis
    proof (cases "fst (modify_volume env vol ?c st)")
      case (Inr u)
      then show ?thesis using Some
        by (intro exI [of _ "[(vol, ?c, True)]"])
          (auto simp: request_modification_def attempts_ok_def c case_prod_unfold went_ok_def)
    next
      case (Inl e)
      then show ?thesis using Some
        by (intro exI [of _ "[(vol, ?c, False), (vol, size_only target, went_ok (fst (modify_volume env vol (size_only target) ?st1)))]"])
          (auto simp: request_modification_def attempts_ok_def c case_prod_unfold went_ok_def split: sum.splits)
    qed
  qed
  show "scripts (st_log (snd (request_modification env vol target entry m st))) = scripts (st_log st)"
    by (auto simp: request_modification_def case_prod_unfold split: option.splits sum.splits)
qed

lemma finish_frame:
  "modifications (st_log (snd (finish_resize rz env inst eff u t s m st))) = modifications (st_log st)"
  "set (scripts (st_log (snd (finish_resize rz env inst eff u t s m st)))) \<subseteq>
     set (scripts (st_log st)) \<union> {MEASURE_ROOT_FS, RESIZE_ROOT_FS}"
  by (auto simp: finish_resize_def case_prod_unfold Let_def split: sum.splits)

lemma task_log [simp]: "st_log (instance_task rz env inst eff node) = st_log (snd (reconcile_instance rz env inst eff (start_state inst node)))"
  by (simp add: instance_task_def case_prod_unfold split: option.splits)

text \<open>The branches of a pass, as far as they matter for what is sent.\<close>

lemma grow_cases:
  obtains (dry) "rz_dry_run rz" "st_log (snd (grow_volume rz env inst eff usage target st)) = st_log st"
  | (request) entry m st1 where "\<not> rz_dry_run rz"
      "entry = throughput_piggyback rz (rz_clock env (st_log st)) (in_root_volume_id inst)" "modifications (st_log st1) = modifications (st_log st)"
      "scripts (st_log st1) = scripts (st_log st)" "\<not> went_ok (fst (request_modification env (in_root_volume_id inst) target entry m st1))"
      "snd (grow_volume rz env inst eff usage target st) = snd (request_modification env (in_root_volume_id inst) target entry m st1)"
  | (finish) entry m st1 s m2 where "\<not> rz_dry_run rz"
      "entry = throughput_piggyback rz (rz_clock env (st_log st)) (in_root_volume_id inst)" "modifications (st_log st1) = modifications (st_log st)"
      "scripts (st_log st1) = scripts (st_log st)" "went_ok (fst (request_modification env (in_root_volume_id inst) target entry m st1))"
      "grow_volume rz env inst eff usage target st = finish_resize rz env inst eff usage target s m2
         (snd (request_modification env (in_root_volume_id inst) target entry m st1))"
proof (cases "rz_dry_run rz")
  case True
  then show thesis by (intro dry) (simp_all add: grow_volume_def Let_def)
next
  case False
  let ?vol = "in_root_volume_id inst" and ?s = "rz_clock env (st_log st)"
  let ?entry = "throughput_piggyback rz ?s ?vol"
  let ?m = "new_mod_summary rz ?vol (in_root_volume_size_gib inst) target ?entry"
  let ?st1 = "log_effect (Report (ReportStarted (in_root_volume_size_gib inst) target usage)) st"
  show thesis
  proof (cases "fst (request_modification env ?vol target ?entry ?m ?st1)")
    case (Inl e)
    then show thesis
      using False by (intro request [of ?entry ?st1 ?m]) (simp_all add: grow_volume_def Let_def case_prod_unfold went_ok_def)
  next
    case (Inr m2)
    then show thesis
      using False by (intro finish [of ?entry ?st1 ?m ?s m2]) (simp_all add: grow_volume_def Let_def case_prod_unfold went_ok_def)
  qed
qed

definition measured :: "rz_env \<Rightarrow> Instance \<Rightarrow> CordonNode option \<Rightarrow> string + int" where
  "measured env inst node = fst (measure_usage env (in_id inst) (start_state inst node))"

definition wants_growth :: "rz_env \<Rightarrow> Instance \<Rightarrow> Effective \<Rightarrow> CordonNode option \<Rightarrow> bool" where
  "wants_growth env inst eff node \<longleftrightarrow> in_root_volume_id inst \<noteq> [] \<and> \<not> ef_paused eff \<and>
     (case measured env inst node of Inl e \<Rightarrow> False | Inr usage \<Rightarrow> ef_usage_threshold_percent eff \<le> usage) \<and>
     target_size (in_root_volume_size_gib inst) eff \<le> ef_max_volume_size_gib eff"

lemma task_cases:
  obtains (no_growth) "modifications (st_log (instance_task rz env inst eff node)) = []"
      "set (scripts (st_log (instance_task rz env inst eff node))) \<subseteq> {MEASURE_ROOT_FS}"
  | (growth) usage st where "wants_growth env inst eff node"
      "cooldown_block env (in_root_volume_id inst) (ef_cooldown eff) st = Inr None"
      "modifications (st_log st) = []" "set (scripts (st_log st)) \<subseteq> {MEASURE_ROOT_FS}"
      "st_log (instance_task rz env inst eff node) =
         st_log (snd (grow_volume rz env inst eff usage (target_size (in_root_volume_size_gib inst) eff) st))"
proof -
  let ?st0 = "start_state inst node"
  have log0: "st_log ?st0 = []" by (simp add: start_state_def)
  show thesis
  proof (cases "in_root_volume_id inst = [] \<or> ef_paused eff")
    case True
    then show thesis by (intro no_growth) (auto simp: reconcile_instance_def log0)
  next
    case idle: False
    show thesis
    proof (cases "measured env inst node")
      case (Inl e)
      then show thesis using idle
        by (intro no_growth) (simp_all add: reconcile_instance_def measured_def case_prod_unfold log0)
    next
      case (Inr usage)
      let ?st1 = "snd (measure_usage env (in_id inst) ?st0)"
      let ?st2 = "?st1\<lparr>st_obs := (st_obs ?st1)\<lparr>ob_usage := Some usage\<rparr>\<rparr>"
      let ?t = "target_size (in_root_volume_size_gib inst) eff"
      define st3 where "st3 = (let s = apply_protective_cordon rz env usage eff ?st2
        in s\<lparr>st_obs := (st_obs s)\<lparr>ob_desired_gib := Some ?t\<rparr>\<rparr>)"
      have st3: "modifications (st_log st3) = []" "set (scripts (st_log st3)) \<subseteq> {MEASURE_ROOT_FS}"
        by (simp_all add: st3_def Let_def log0)
      have rec: "reconcile_instance rz env inst eff ?st0 =
          (if usage < ef_usage_threshold_percent eff
           then (None, release_protective_cordon rz env usage eff
             (set_obs ''BelowTarget'' (''usage '' @ show_int usage @ ''% is below the '' @
                show_int (ef_usage_threshold_percent eff) @ ''% target'') ?st2))
           else above_threshold rz env inst eff usage ?st2)"
        using idle Inr by (simp add: reconcile_instance_def measured_def case_prod_unfold Let_def)
      show thesis
      proof (cases "usage < ef_usage_threshold_percent eff \<or> ?t > ef_max_volume_size_gib eff \<or>
          cooldown_block env (in_root_volume_id inst) (ef_cooldown eff) st3 \<noteq> Inr None")
        case True
        have *: "modifications (st_log (snd (reconcile_instance rz env inst eff ?st0))) = [] \<and>
            set (scripts (st_log (snd (reconcile_instance rz env inst eff ?st0)))) \<subseteq> {MEASURE_ROOT_FS}"
        proof (cases "usage < ef_usage_threshold_percent eff")
          case True
          then show ?thesis by (simp add: rec log0)
        next
          case False
          then show ?thesis
            using st3 \<open>usage < _ \<or> _\<close>
            by (cases "?t > ef_max_volume_size_gib eff")
              (auto simp: rec above_threshold_def st3_def Let_def split: sum.splits option.splits)
        qed
        show thesis by (rule no_growth) (use * in simp_all)
      next
        case False
        then have "st_log (instance_task rz env inst eff node) = st_log (snd (grow_volume rz env inst eff usage ?t st3))"
          by (simp add: rec above_threshold_def st3_def Let_def)
        then show thesis
          using False idle Inr st3 by (intro growth [of st3 usage]) (simp_all add: wants_growth_def)
      qed
    qed
  qed
qed

subsection \<open>Growth\<close>

text \<open>
  The throughput change that a growth may carry: the store holds a recommendation for the volume, the
  resizer is configured to apply it, it is at most two intervals old, and it raises the throughput.
\<close>

definition due_increase :: "Resizer \<Rightarrow> int \<Rightarrow> string \<Rightarrow> Entry \<Rightarrow> bool" where
  "due_increase rz now vol x \<longleftrightarrow> rz_apply_on_resize rz \<and> Option.bind (rz_recs rz) (\<lambda>recs. recs vol) = Some x \<and>
     (\<exists>t. re_observed_at x = Some t \<and> now \<le> t + 2 * rz_interval rz) \<and>
     re_action x = ''increase'' \<and> re_current_mibps x < re_throughput_mibps x"

lemma piggyback_iff: "throughput_piggyback rz now vol = Some x \<longleftrightarrow> due_increase rz now vol x"
  by (auto simp: throughput_piggyback_def due_increase_def store_lookup_def bind_eq_Some_conv split: option.splits if_splits)

definition cooled_down :: "rz_env \<Rightarrow> string \<Rightarrow> nat \<Rightarrow> bool" where
  "cooled_down env vol cooldown \<longleftrightarrow> (\<exists>tr. modifications tr = [] \<and> (case rz_last_modification env tr vol of
     Inl e \<Rightarrow> False
   | Inr None \<Rightarrow> True
   | Inr (Some m) \<Rightarrow> vm_state m \<noteq> ''modifying'' \<and> vm_state m \<noteq> ''optimizing'' \<and>
       (case vm_start_time m of None \<Rightarrow> True | Some start \<Rightarrow> start + cooldown_delta cooldown \<le> rz_clock env tr)))"

lemma cooldown_block_free: "cooldown_block env vol c st = Inr None \<Longrightarrow> modifications (st_log st) = [] \<Longrightarrow> cooled_down env vol c"
  unfolding cooled_down_def
  by (rule exI [of _ "st_log st"])
    (auto simp: cooldown_block_def Let_def not_less split: sum.splits option.splits if_splits)

lemma request_attempts:
  fixes env vol target entry m st
  assumes "modifications (st_log st) = []"
  defines "ms \<equiv> modifications (st_log (snd (request_modification env vol target entry m st)))"
  shows "attempts_ok vol target entry ms"
    and "went_ok (fst (request_modification env vol target entry m st)) \<Longrightarrow> \<exists>sp. (vol, sp, True) \<in> set ms"
  using request_frame(1) [of env vol target entry m st] assms(1) unfolding ms_def by auto

lemma grow_modifications:
  assumes "modifications (st_log st) = []"
    and "modifications (st_log (snd (grow_volume rz env inst eff usage target st))) \<noteq> []"
  shows "attempts_ok (in_root_volume_id inst) target
      (throughput_piggyback rz (rz_clock env (st_log st)) (in_root_volume_id inst))
      (modifications (st_log (snd (grow_volume rz env inst eff usage target st)))) \<and> \<not> rz_dry_run rz"
proof (cases rule: grow_cases [of rz env inst eff usage target st])
  case dry
  then show ?thesis using assms by simp
next
  case (request entry m st1)
  then show ?thesis using request_attempts(1) [of st1] assms(1) by simp
next
  case (finish entry m st1 s m2)
  then show ?thesis using request_attempts(1) [of st1] assms(1) by (simp add: finish_frame)
qed

lemma warranted_modification:
  assumes "modifications (st_log (instance_task rz env inst eff node)) \<noteq> []"
  shows "wants_growth env inst eff node \<and> cooled_down env (in_root_volume_id inst) (ef_cooldown eff) \<and> \<not> rz_dry_run rz \<and>
    (\<exists>tr entry. modifications tr = [] \<and> (\<forall>x. entry = Some x \<longleftrightarrow> due_increase rz (rz_clock env tr) (in_root_volume_id inst) x) \<and>
       attempts_ok (in_root_volume_id inst) (target_size (in_root_volume_size_gib inst) eff) entry
         (modifications (st_log (instance_task rz env inst eff node))))"
proof (cases rule: task_cases [of rz env inst eff node])
  case no_growth
  then show ?thesis using assms by simp
next
  case (growth usage st)
  note g = grow_modifications [OF growth(3) assms [unfolded growth(5)]]
  have "\<exists>tr entry. modifications tr = [] \<and> (\<forall>x. entry = Some x \<longleftrightarrow> due_increase rz (rz_clock env tr) (in_root_volume_id inst) x) \<and>
       attempts_ok (in_root_volume_id inst) (target_size (in_root_volume_size_gib inst) eff) entry
         (modifications (st_log (instance_task rz env inst eff node)))"
    using conjunct1 [OF g] growth(3) unfolding growth(5)
    by (intro exI [of _ "st_log st"] exI [of _ "throughput_piggyback rz (rz_clock env (st_log st)) (in_root_volume_id inst)"])
      (simp only: piggyback_iff simp_thms)
  with growth(1) cooldown_block_free [OF growth(2,3)] conjunct2 [OF g] show ?thesis by (intro conjI)
qed

text \<open>
  C12. A volume is modified only when that is warranted: the instance has a root volume, its autoscaler is
  not disabled, the measured usage has reached the threshold, the next size is within the configured
  maximum, AWS reports no modification in progress and none within the cooldown, and the run is no dry
  run. The pass then asks for exactly the next size. Its first request carries a throughput and IOPS change
  exactly when there is one to apply (\<open>due_increase\<close>, at the time the pass has reached before it modifies
  anything), with the recommended values; only if such a combined request is refused does the pass ask once more,
  for the size alone; and a request without a throughput change is not repeated.
\<close>

theorem modification_is_warranted:
  assumes "modifications (st_log (instance_task rz env inst eff node)) \<noteq> []"
  shows "wants_growth env inst eff node \<and> cooled_down env (in_root_volume_id inst) (ef_cooldown eff) \<and> \<not> rz_dry_run rz \<and>
    (\<exists>tr entry. modifications tr = [] \<and> (\<forall>x. entry = Some x \<longleftrightarrow> due_increase rz (rz_clock env tr) (in_root_volume_id inst) x) \<and>
       attempts_ok (in_root_volume_id inst) (target_size (in_root_volume_size_gib inst) eff) entry
         (modifications (st_log (instance_task rz env inst eff node))))"
  using assms by (rule warranted_modification)

lemma grow_scripts:
  assumes "set (scripts (st_log st)) \<subseteq> {MEASURE_ROOT_FS}" "modifications (st_log st) = []"
    and "RESIZE_ROOT_FS \<in> set (scripts (st_log (snd (grow_volume rz env inst eff usage target st))))"
  shows "\<exists>sp. (in_root_volume_id inst, sp, True) \<in> set (modifications (st_log (snd (grow_volume rz env inst eff usage target st))))"
proof (cases rule: grow_cases [of rz env inst eff usage target st])
  case (finish entry m st1 s m2)
  then show ?thesis using request_attempts(2) [of st1] assms(2) by (simp add: finish_frame)
next
  case (request entry m st1)
  then show ?thesis using assms request_frame(2) [of env "in_root_volume_id inst" target entry m st1] by auto
qed (use assms in auto)

text \<open>
  C37. The file system is extended only in a pass whose own modification of the volume was accepted. So when
  the script fails after the volume has grown, the extension is not repeated by itself: it waits for the
  next accepted growth of the volume.
\<close>

theorem filesystem_extended_only_with_the_volume:
  assumes "RESIZE_ROOT_FS \<in> set (scripts (st_log (instance_task rz env inst eff node)))"
  shows "\<exists>sp. (in_root_volume_id inst, sp, True) \<in> set (modifications (st_log (instance_task rz env inst eff node)))"
proof (cases rule: task_cases [of rz env inst eff node])
  case no_growth
  then show ?thesis using assms by auto
next
  case (growth usage st)
  show ?thesis using grow_scripts [OF growth(4,3)] growth(5) assms by simp
qed

subsection \<open>The EBS modification limit\<close>

text \<open>
  The modifications of one volume over many passes, by their start times. A pass is an environment, what
  discovery reports of the instance, its settings, its Node, and the time at which EBS starts the
  modification if one is accepted.
\<close>

record rz_pass =
  ps_env :: rz_env
  ps_inst :: Instance
  ps_eff :: Effective
  ps_node :: "CordonNode option"
  ps_start :: int

definition accepted :: "Resizer \<Rightarrow> rz_pass \<Rightarrow> bool" where
  "accepted rz p \<longleftrightarrow>
     list_ex (\<lambda>(v, sp, ok). ok) (modifications (st_log (instance_task rz (ps_env p) (ps_inst p) (ps_eff p) (ps_node p))))"

fun ebs_history :: "Resizer \<Rightarrow> rz_pass list \<Rightarrow> int list \<Rightarrow> int list" where
  "ebs_history rz [] hist = hist"
| "ebs_history rz (p # ps) hist = ebs_history rz ps (if accepted rz p then hist @ [ps_start p] else hist)"

text \<open>What EC2 documents: before the pass itself modifies the volume, it answers with the latest modification and
  its start, or fails, and a modification does not start before it was requested.\<close>

definition truthful :: "int list \<Rightarrow> rz_pass \<Rightarrow> bool" where
  "truthful hist p \<longleftrightarrow> (\<forall>tr. modifications tr = [] \<longrightarrow> rz_clock (ps_env p) tr \<le> ps_start p \<and>
     (case rz_last_modification (ps_env p) tr (in_root_volume_id (ps_inst p)) of
        Inl e \<Rightarrow> True
      | Inr None \<Rightarrow> hist = []
      | Inr (Some m) \<Rightarrow> hist \<noteq> [] \<and> vm_start_time m = Some (last hist)))"

fun truthful_run :: "Resizer \<Rightarrow> rz_pass list \<Rightarrow> int list \<Rightarrow> bool" where
  "truthful_run rz [] hist \<longleftrightarrow> True"
| "truthful_run rz (p # ps) hist \<longleftrightarrow> truthful hist p \<and> truthful_run rz ps (if accepted rz p then hist @ [ps_start p] else hist)"

definition hours_apart :: "nat \<Rightarrow> int \<Rightarrow> int \<Rightarrow> bool" where
  "hours_apart h a b \<longleftrightarrow> a + int h * 3600 * second_nanos \<le> b"

lemma accepted_cooled_down:
  assumes "accepted rz p"
  shows "cooled_down (ps_env p) (in_root_volume_id (ps_inst p)) (ef_cooldown (ps_eff p))"
  by (cases rule: task_cases [of rz "ps_env p" "ps_inst p" "ps_eff p" "ps_node p"])
    (use assms in \<open>simp_all add: accepted_def cooldown_block_free\<close>)

lemma accepted_spaced:
  assumes "accepted rz p" "truthful hist p" "hist \<noteq> []" "MIN_COOLDOWN \<le> ef_cooldown (ps_eff p)"
    "int (ef_cooldown (ps_eff p)) \<le> i64_max div 1000"
  shows "hours_apart 6 (last hist) (ps_start p)"
proof -
  let ?v = "in_root_volume_id (ps_inst p)" and ?d = "cooldown_delta (ef_cooldown (ps_eff p))"
  obtain tr where m: "modifications tr = []" and tr: "case rz_last_modification (ps_env p) tr ?v of Inl e \<Rightarrow> False | Inr None \<Rightarrow> True
      | Inr (Some m) \<Rightarrow> vm_state m \<noteq> ''modifying'' \<and> vm_state m \<noteq> ''optimizing'' \<and>
          (case vm_start_time m of None \<Rightarrow> True | Some start \<Rightarrow> start + ?d \<le> rz_clock (ps_env p) tr)"
    using accepted_cooled_down [OF assms(1)] unfolding cooled_down_def by blast
  have t: "rz_clock (ps_env p) tr \<le> ps_start p" "case rz_last_modification (ps_env p) tr ?v of Inl e \<Rightarrow> True | Inr None \<Rightarrow> hist = []
      | Inr (Some m) \<Rightarrow> hist \<noteq> [] \<and> vm_start_time m = Some (last hist)"
    using assms(2) m unfolding truthful_def by blast+
  have "last hist + ?d \<le> ps_start p"
    using tr t assms(3) by (auto split: sum.splits option.splits)
  moreover have "int (6 * 3600) * second_nanos \<le> ?d"
    using assms(4,5) by (simp add: cooldown_delta_def MIN_COOLDOWN_def second_nanos_def)
  ultimately show ?thesis by (simp add: hours_apart_def)
qed

lemma hours_apart_trans: "transp (hours_apart h)"
  unfolding transp_def hours_apart_def
proof (intro allI impI)
  fix x y z :: int
  assume a: "x + int h * 3600 * second_nanos \<le> y" "y + int h * 3600 * second_nanos \<le> z"
  have "0 \<le> int h * 3600 * second_nanos" by (simp add: second_nanos_def)
  then show "x + int h * 3600 * second_nanos \<le> z" using a by linarith
qed

lemma ebs_history_spaced:
  assumes "truthful_run rz ps hist" "sorted_wrt (hours_apart 6) hist"
    "list_all (\<lambda>p. MIN_COOLDOWN \<le> ef_cooldown (ps_eff p) \<and> int (ef_cooldown (ps_eff p)) \<le> i64_max div 1000) ps"
  shows "sorted_wrt (hours_apart 6) (ebs_history rz ps hist)"
  using assms
proof (induction ps arbitrary: hist)
  case (Cons p ps)
  have "sorted_wrt (hours_apart 6) (hist @ [ps_start p])" if a: "accepted rz p"
  proof (cases "hist = []")
    case False
    then have l: "hours_apart 6 (last hist) (ps_start p)" using accepted_spaced [OF a] Cons.prems by simp
    have "hours_apart 6 x (ps_start p)" if "x \<in> set hist" for x
    proof (cases "x = last hist")
      case False
      obtain hs where hs: "hist = hs @ [last hist]" using \<open>hist \<noteq> []\<close> by (metis append_butlast_last_id)
      then have "x \<in> set hs" using that False by (metis UnE empty_iff list.set(1) set_ConsD set_append)
      moreover have "sorted_wrt (hours_apart 6) (hs @ [last hist])" using Cons.prems(2) hs by simp
      ultimately have "hours_apart 6 x (last hist)" by (simp add: sorted_wrt_append)
      then show ?thesis using l hours_apart_trans [of 6] by (metis transpD)
    qed (use l in simp)
    then show ?thesis using Cons.prems(2) by (simp add: sorted_wrt_append)
  qed simp
  then show ?case using Cons by (cases "accepted rz p") simp_all
qed simp

lemma window_bound:
  assumes "sorted_wrt (hours_apart 6) xs"
  shows "length (filter (\<lambda>t. w \<le> t \<and> t < w + 24 * 3600 * second_nanos) xs) \<le> 4"
proof (rule ccontr)
  let ?f = "filter (\<lambda>t. w \<le> t \<and> t < w + 24 * 3600 * second_nanos) xs"
  assume "\<not> length ?f \<le> 4"
  then obtain a b c d e fs where f: "?f = a # b # c # d # e # fs"
    by (auto simp: not_le Suc_le_length_iff less_eq_Suc_le numeral_eq_Suc)
  have "sorted_wrt (hours_apart 6) ?f" using assms by (rule sorted_wrt_filter)
  then have "hours_apart 6 a b" "hours_apart 6 b c" "hours_apart 6 c d" "hours_apart 6 d e" unfolding f by simp_all
  moreover have "a \<in> set ?f" "e \<in> set ?f" unfolding f by simp_all
  ultimately show False by (simp add: hours_apart_def)
qed

text \<open>
  C13. A volume is never modified more than four times in a day. If EC2 reports the latest modification of
  the volume, as it documents, then over any number of passes, with failing requests and changing settings,
  any 24 hours contain the start of at most four accepted modifications. The cooldowns are those that pass
  validation and fit the duration type.
\<close>

theorem at_most_four_modifications_a_day:
  assumes "truthful_run rz ps []"
    "list_all (\<lambda>p. MIN_COOLDOWN \<le> ef_cooldown (ps_eff p) \<and> int (ef_cooldown (ps_eff p)) \<le> i64_max div 1000) ps"
  shows "length (filter (\<lambda>t. w \<le> t \<and> t < w + 24 * 3600 * second_nanos) (ebs_history rz ps [])) \<le> 4"
  by (rule window_bound [OF ebs_history_spaced [OF assms(1) _ assms(2)]]) simp

subsection \<open>Cordons\<close>

text \<open>What is known of the Node while a pass runs: every cordon lifted so far was, when the pass began or
  later in it, the addon's own.\<close>

definition foreign_cordon :: "CordonNode \<Rightarrow> bool" where
  "foreign_cordon n \<longleftrightarrow> cn_unschedulable n \<and> \<not> cn_protective n"

definition may_lift :: "CordonNode \<Rightarrow> (cordon_call \<times> bool) list \<Rightarrow> bool" where
  "may_lift n calls \<longleftrightarrow> cn_protective n \<and> cn_unschedulable n \<or> (Cordon (cn_name n), True) \<in> set calls"

fun justified_call :: "CordonNode \<Rightarrow> (cordon_call \<times> bool) list \<Rightarrow> cordon_call \<Rightarrow> bool" where
  "justified_call n calls (Uncordon x) \<longleftrightarrow> x = cn_name n \<and> \<not> foreign_cordon n \<and> may_lift n calls"
| "justified_call n calls (Cordon x) \<longleftrightarrow> x = cn_name n \<and> \<not> foreign_cordon n"
| "justified_call n calls (Forget x) \<longleftrightarrow> x = cn_name n \<and> \<not> foreign_cordon n"
| "justified_call n calls (SetCondition x want reason) \<longleftrightarrow> x = cn_name n"

definition owned :: "CordonNode \<Rightarrow> CordonNode \<Rightarrow> (cordon_call \<times> bool) list \<Rightarrow> bool" where
  "owned n n' calls \<longleftrightarrow> cn_name n' = cn_name n \<and> (foreign_cordon n \<longrightarrow> foreign_cordon n') \<and>
     (cn_protective n' \<and> cn_unschedulable n' \<longrightarrow> may_lift n calls) \<and> list_all (\<lambda>(c, ok). justified_call n calls c) calls"

definition cordon_inv :: "CordonNode option \<Rightarrow> rz_state \<Rightarrow> bool" where
  "cordon_inv node st \<longleftrightarrow> (case node of
     None \<Rightarrow> st_node st = None \<and> node_calls (st_log st) = []
   | Some n \<Rightarrow> \<exists>n'. st_node st = Some n' \<and> owned n n' (node_calls (st_log st)))"

lemma cordon_inv_log [simp]:
  "cordon_inv node (log_effect (Script i s ok) st) = cordon_inv node st"
  "cordon_inv node (log_effect (ModifyVolume v sp ok) st) = cordon_inv node st"
  "cordon_inv node (log_effect (Report rep) st) = cordon_inv node st"
  "cordon_inv node (st\<lparr>st_obs := ob\<rparr>) = cordon_inv node st" "cordon_inv node (set_obs r msg st) = cordon_inv node st"
  "cordon_inv node (report_failure stage c m st) = cordon_inv node st"
  by (simp_all add: cordon_inv_def report_failure_def set_obs_def split: option.splits)

lemma justified_mono: "justified_call n calls c \<Longrightarrow> justified_call n (calls @ later) c"
  by (cases c) (auto simp: may_lift_def)

lemma owned_call:
  assumes "owned n n' calls" "justified_call n (calls @ [(c, ok)]) c" "cn_name n'' = cn_name n"
    and "foreign_cordon n \<Longrightarrow> foreign_cordon n''"
    and "cn_protective n'' \<Longrightarrow> cn_unschedulable n'' \<Longrightarrow> may_lift n (calls @ [(c, ok)])"
  shows "owned n n'' (calls @ [(c, ok)])"
  using assms justified_mono by (fastforce simp: owned_def list_all_iff)

lemma cordon_inv_SomeI: "st_node st = Some n' \<Longrightarrow> owned n n' (node_calls (st_log st)) \<Longrightarrow> cordon_inv (Some n) st"
  by (simp add: cordon_inv_def)

lemma cordon_inv_cases:
  assumes "cordon_inv node st"
  obtains (none) "node = None" "st_node st = None" "node_calls (st_log st) = []"
  | (some) n n' where "node = Some n" "st_node st = Some n'" "owned n n' (node_calls (st_log st))"
  using assms by (cases node) (auto simp: cordon_inv_def)

text \<open>A call on the Node and what it changes of the Node when it succeeds.\<close>

definition call_and_update :: "rz_env \<Rightarrow> cordon_call \<Rightarrow> rz_effect list \<Rightarrow> CordonNode \<Rightarrow> rz_state \<Rightarrow> rz_state" where
  "call_and_update env c events n'' st =
     (let ok = fst (node_call env c st); st1 = log_effect (NodeCall c ok) st
      in if ok then st1\<lparr>st_log := st_log st1 @ events, st_node := Some n''\<rparr> else st1)"

lemma call_and_update_keeps:
  assumes "owned n n' (node_calls (st_log st))" "st_node st = Some n'" "node_calls events = []"
    and "owned n n' (node_calls (st_log st) @ [(c, False)])" "owned n n'' (node_calls (st_log st) @ [(c, True)])"
  shows "cordon_inv (Some n) (call_and_update env c events n'' st)"
  using assms by (cases "fst (node_call env c st)") (simp_all add: call_and_update_def cordon_inv_def)

lemma cordon_node_call:
  assumes "st_node st = Some n'"
  shows "cordon_node rz env st =
    (if \<not> rz_cordon rz \<or> cn_protective n' \<or> cn_unschedulable n' \<or> rz_dry_run rz then st
     else call_and_update env (Cordon (cn_name n')) [NodeEvent (cn_name n') ''ProtectiveCordonApplied'']
       (n'\<lparr>cn_unschedulable := True, cn_protective := True\<rparr>) st)"
  using assms by (simp add: cordon_node_def call_and_update_def case_prod_unfold Let_def log_effect_def)

lemma uncordon_node_call:
  assumes "st_node st = Some n'"
  shows "uncordon_node rz env st =
    (if \<not> rz_cordon rz \<or> \<not> cn_protective n' \<or> rz_dry_run rz then st
     else if cn_unschedulable n'
     then call_and_update env (Uncordon (cn_name n')) [NodeEvent (cn_name n') ''ProtectiveCordonReleased'']
       (n'\<lparr>cn_unschedulable := False, cn_protective := False\<rparr>) st
     else call_and_update env (Forget (cn_name n')) [] (n'\<lparr>cn_protective := False\<rparr>) st)"
  using assms by (simp add: uncordon_node_def call_and_update_def case_prod_unfold Let_def log_effect_def)

lemma cordon_keeps: "cordon_inv node st \<Longrightarrow> cordon_inv node (cordon_node rz env st)"
proof (erule cordon_inv_cases)
  fix n n'
  assume a: "node = Some n" "st_node st = Some n'" "owned n n' (node_calls (st_log st))"
  show ?thesis
  proof (cases "\<not> rz_cordon rz \<or> cn_protective n' \<or> cn_unschedulable n' \<or> rz_dry_run rz")
    case True
    then show ?thesis using a by (simp add: cordon_node_call [OF a(2)] cordon_inv_def)
  next
    case False
    have j: "justified_call n (node_calls (st_log st) @ [(Cordon (cn_name n'), ok)]) (Cordon (cn_name n'))" for ok
      using a(3) False by (auto simp: owned_def may_lift_def foreign_cordon_def)
    have "cordon_inv (Some n) (call_and_update env (Cordon (cn_name n')) [NodeEvent (cn_name n') ''ProtectiveCordonApplied'']
        (n'\<lparr>cn_unschedulable := True, cn_protective := True\<rparr>) st)"
      by (rule call_and_update_keeps [OF a(3,2)], simp)
        (rule owned_call [OF a(3) j]; use a(3) False in \<open>auto simp: owned_def may_lift_def foreign_cordon_def\<close>)+
    then show ?thesis using False a(1) by (simp add: cordon_node_call [OF a(2)])
  qed
qed (simp add: cordon_node_def cordon_inv_def)

lemma uncordon_keeps: "cordon_inv node st \<Longrightarrow> cordon_inv node (uncordon_node rz env st)"
proof (erule cordon_inv_cases)
  fix n n'
  assume a: "node = Some n" "st_node st = Some n'" "owned n n' (node_calls (st_log st))"
  have j: "justified_call n (node_calls (st_log st) @ [(Forget (cn_name n'), ok)]) (Forget (cn_name n'))" if "cn_protective n'" for ok
    using a(3) that by (auto simp: owned_def foreign_cordon_def)
  have f: "cordon_inv (Some n) (call_and_update env (Forget (cn_name n')) [] (n'\<lparr>cn_protective := False\<rparr>) st)"
    if "cn_protective n'"
    by (rule call_and_update_keeps [OF a(3,2)], simp)
      (rule owned_call [OF a(3) j [OF that]]; use a(3) that in \<open>auto simp: owned_def may_lift_def foreign_cordon_def\<close>)+
  have l: "cordon_inv (Some n) (call_and_update env (Uncordon (cn_name n')) [NodeEvent (cn_name n') ''ProtectiveCordonReleased'']
      (n'\<lparr>cn_unschedulable := False, cn_protective := False\<rparr>) st)" if "cn_protective n'" "cn_unschedulable n'"
  proof -
    have ml: "may_lift n (node_calls (st_log st) @ later)" for later using a(3) that by (auto simp: owned_def may_lift_def foreign_cordon_def)
    have j: "justified_call n (node_calls (st_log st) @ [(Uncordon (cn_name n'), ok)]) (Uncordon (cn_name n'))" for ok
      using a(3) ml that by (auto simp: owned_def foreign_cordon_def)
    show ?thesis
      by (rule call_and_update_keeps [OF a(3,2)], simp)
        (rule owned_call [OF a(3) j]; use a(3) ml that in \<open>auto simp: owned_def foreign_cordon_def\<close>)+
  qed
  show ?thesis using f l a by (auto simp: uncordon_node_call [OF a(2)] cordon_inv_def)
qed (simp add: uncordon_node_def cordon_inv_def)

lemma sync_call:
  assumes "st_node st = Some n'"
  shows "sync_protective_condition rz env u eff st = st \<or> (\<exists>r. sync_protective_condition rz env u eff st =
    call_and_update env (SetCondition (cn_name n') (cn_protective n') r) [] (n'\<lparr>cn_condition := Some (cn_protective n')\<rparr>) st)"
proof -
  have call: "(let (ok, st1) = node_call env c st in if ok then st1\<lparr>st_node := Some n''\<rparr> else st1) = call_and_update env c [] n'' st" for c n''
    by (simp add: call_and_update_def case_prod_unfold Let_def log_effect_def)
  show ?thesis using assms by (auto simp: sync_protective_condition_def call Let_def [of "cn_protective n'"] Let_def [of "u < _"]
      simp del: split_paired_Ex)
qed

lemma sync_keeps: "cordon_inv node st \<Longrightarrow> cordon_inv node (sync_protective_condition rz env u eff st)"
proof (erule cordon_inv_cases)
  fix n n'
  assume a: "node = Some n" "st_node st = Some n'" "owned n n' (node_calls (st_log st))"
  let ?upd = "n'\<lparr>cn_condition := Some (cn_protective n')\<rparr>"
  have j: "justified_call n (node_calls (st_log st) @ [(SetCondition (cn_name n') w r, ok)]) (SetCondition (cn_name n') w r)" for w r ok
    using a(3) by (simp add: owned_def)
  have "cordon_inv (Some n) (call_and_update env (SetCondition (cn_name n') w r) [] ?upd st)" for w r
    by (rule call_and_update_keeps [OF a(3,2)], simp)
      (rule owned_call [OF a(3) j]; use a(3) in \<open>auto simp: owned_def may_lift_def foreign_cordon_def\<close>)+
  moreover have "cordon_inv (Some n) st" using a by (simp add: cordon_inv_def)
  ultimately show ?thesis using sync_call [OF a(2), of rz env u eff] a(1) by auto
qed (simp add: sync_protective_condition_def cordon_inv_def)

lemma protective_keeps:
  "cordon_inv node st \<Longrightarrow> cordon_inv node (apply_protective_cordon rz env u eff st)"
  "cordon_inv node st \<Longrightarrow> cordon_inv node (release_protective_cordon rz env u eff st)"
  by (simp_all add: apply_protective_cordon_def release_protective_cordon_def cordon_keeps uncordon_keeps sync_keeps)

lemma request_keeps: "cordon_inv node st \<Longrightarrow> cordon_inv node (snd (request_modification env vol t entry m st))"
  by (auto simp: request_modification_def case_prod_unfold split: option.splits sum.splits)

lemma finish_keeps: "cordon_inv node st \<Longrightarrow> cordon_inv node (snd (finish_resize rz env inst eff u t s m st))"
  by (auto simp: finish_resize_def case_prod_unfold Let_def protective_keeps split: sum.splits)

lemma grow_keeps: "cordon_inv node st \<Longrightarrow> cordon_inv node (snd (grow_volume rz env inst eff u t st))"
proof -
  assume a: "cordon_inv node st"
  let ?s = "rz_clock env (st_log st)" and ?vol = "in_root_volume_id inst" and ?cur = "in_root_volume_size_gib inst"
  let ?e = "throughput_piggyback rz ?s ?vol"
  let ?q = "request_modification env ?vol t ?e (new_mod_summary rz ?vol ?cur t ?e) (log_effect (Report (ReportStarted ?cur t u)) st)"
  have "cordon_inv node (snd ?q)" using a by (simp add: request_keeps)
  then show ?thesis using a
    by (auto simp: grow_volume_def Let_def case_prod_unfold finish_keeps split: sum.splits)
qed

lemma above_keeps: "cordon_inv node st \<Longrightarrow> cordon_inv node (snd (above_threshold rz env inst eff u st))"
  by (auto simp: above_threshold_def Let_def protective_keeps grow_keeps split: sum.splits option.splits)

lemma reconcile_keeps: "cordon_inv node st \<Longrightarrow> cordon_inv node (snd (reconcile_instance rz env inst eff st))"
  by (auto simp: reconcile_instance_def Let_def case_prod_unfold protective_keeps above_keeps split: sum.splits)

lemma task_keeps: "cordon_inv node (instance_task rz env inst eff node)"
proof -
  have "cordon_inv node (start_state inst node)"
    by (simp add: cordon_inv_def start_state_def owned_def may_lift_def split: option.splits)
  then have "cordon_inv node (snd (reconcile_instance rz env inst eff (start_state inst node)))" by (rule reconcile_keeps)
  then show ?thesis by (simp add: instance_task_def case_prod_unfold split: option.splits)
qed

text \<open>
  C14. A pass lifts only its own cordons. Every call it makes is on the Node of the instance; a cordon is
  lifted only if the Node carried the mark and was cordoned before the pass, or was cordoned by this pass;
  and a Node that someone else has cordoned stays cordoned and unmarked, no call but the report of the
  condition being made on it. This holds for every outcome of every call.
\<close>

theorem foreign_cordons_are_left_alone:
  fixes rz env inst eff n
  defines "st \<equiv> instance_task rz env inst eff (Some n)"
  shows "\<exists>n'. st_node st = Some n' \<and> cn_name n' = cn_name n \<and> (foreign_cordon n \<longrightarrow> foreign_cordon n') \<and>
    list_all (\<lambda>(c, ok). justified_call n (node_calls (st_log st)) c) (node_calls (st_log st))"
  using task_keeps [of "Some n" rz env inst eff] by (auto simp: st_def cordon_inv_def owned_def)

lemma marked_node_not_cordoned:
  assumes "st_node st = Some n" "cn_protective n"
  shows "\<exists>n'. st_node (apply_protective_cordon rz env u eff st) = Some n' \<and> cn_name n' = cn_name n \<and>
    cn_protective n' \<and> cn_unschedulable n' = cn_unschedulable n"
  using sync_call [OF assms(1), of rz env u eff] assms
  by (auto simp: apply_protective_cordon_def cordon_node_call [OF assms(1)] call_and_update_def Let_def)

lemma marked_cordon_lifted:
  assumes "st_node st = Some n" "cn_protective n" "cn_unschedulable n" "rz_cordon rz" "\<not> rz_dry_run rz"
    and "rz_node_api env (st_log st) (Uncordon (cn_name n)) = Inr ()"
  shows "(Uncordon (cn_name n), True) \<in> set (node_calls (st_log (release_protective_cordon rz env u eff st)))"
proof -
  let ?st = "uncordon_node rz env st"
  have u: "(Uncordon (cn_name n), True) \<in> set (node_calls (st_log ?st))" "\<exists>n'. st_node ?st = Some n'"
    using assms by (simp_all add: uncordon_node_call [OF assms(1)] call_and_update_def Let_def node_call_def went_ok_def)
  then obtain n' where n': "st_node ?st = Some n'" by blast
  show ?thesis using sync_call [OF n', of rz env u eff] u(1)
    by (auto simp: release_protective_cordon_def call_and_update_def Let_def)
qed

text \<open>
  C38. The mark can outlive the cordon it stands for. When someone uncordons a marked Node by hand, a pass that
  finds it above the threshold and its volume at the maximum neither cordons it again nor takes the mark
  away. If an operator later cordons that Node for a reason of their own, the first pass that finds the usage
  below the threshold lifts the operator's cordon.
\<close>

theorem mark_outlives_the_cordon:
  assumes "rz_cordon rz" "\<not> rz_dry_run rz" "cn_protective n" "\<not> cn_unschedulable n"
    and "in_root_volume_id inst \<noteq> []" "\<not> ef_paused eff"
    and "measured env inst (Some n) = Inr u" "ef_usage_threshold_percent eff \<le> u"
    and "ef_max_volume_size_gib eff < target_size (in_root_volume_size_gib inst) eff"
    and later: "\<And>m. measured env2 inst m = Inr u2" "u2 < ef_usage_threshold_percent eff"
      "\<And>tr. rz_node_api env2 tr (Uncordon (cn_name n)) = Inr ()"
  shows "\<exists>n'. st_node (instance_task rz env inst eff (Some n)) = Some n' \<and> cn_protective n' \<and> \<not> cn_unschedulable n' \<and>
    (Uncordon (cn_name n), True) \<in>
      set (node_calls (st_log (instance_task rz env2 inst eff (Some (n'\<lparr>cn_unschedulable := True\<rparr>)))))"
proof -
  let ?st = "(snd (measure_usage env (in_id inst) (start_state inst (Some n))))\<lparr>st_obs :=
    (st_obs (snd (measure_usage env (in_id inst) (start_state inst (Some n)))))\<lparr>ob_usage := Some u\<rparr>\<rparr>"
  have "st_node ?st = Some n" by (simp add: start_state_def)
  from marked_node_not_cordoned [OF this assms(3), of rz env u eff] obtain n'
    where n': "st_node (apply_protective_cordon rz env u eff ?st) = Some n'" "cn_name n' = cn_name n" "cn_protective n'"
      "\<not> cn_unschedulable n'"
    using assms(4) by auto
  have kept: "st_node (instance_task rz env inst eff (Some n)) = Some n'"
    using assms(5-9) n'(1) by (simp add: instance_task_def reconcile_instance_def measured_def case_prod_unfold Let_def
        above_threshold_def split: option.splits)
  have lift: "(Uncordon (cn_name n), True) \<in> set (node_calls (st_log (release_protective_cordon rz env2 u2 eff st)))"
    if "st_node st = Some (n'\<lparr>cn_unschedulable := True\<rparr>)" for st
    using marked_cordon_lifted [OF that, of rz env2 u2 eff] assms(1,2) later(3) n'(2,3) by simp
  have "(Uncordon (cn_name n), True) \<in>
      set (node_calls (st_log (instance_task rz env2 inst eff (Some (n'\<lparr>cn_unschedulable := True\<rparr>)))))"
    using assms(5,6) later(1) [of "Some (n'\<lparr>cn_unschedulable := True\<rparr>)"] later(2)
    by (simp add: reconcile_instance_def measured_def case_prod_unfold Let_def start_state_def lift)
  then show ?thesis using kept n' by blast
qed

subsection \<open>Example runs\<close>

text \<open>An instance whose root file system is nearly full, with every call succeeding.\<close>

definition demo_resizer :: Resizer where
  "demo_resizer = \<lparr>rz_dry_run = False, rz_cordon = True, rz_recs = None, rz_apply_on_resize = False, rz_interval = 60 * second_nanos,
     rz_format = show_int\<rparr>"

definition demo_inst :: Instance where
  "demo_inst = \<lparr>in_id = ''i-1'', in_name = ''db'', in_tags = [(''Role'', ''db'')], in_root_device_name = ''/dev/xvda'', in_root_volume_id = ''vol-1'',
     in_root_volume_size_gib = 20\<rparr>"

definition demo_eff :: "int \<Rightarrow> Effective" where
  "demo_eff cap = \<lparr>ef_policy = ''p'', ef_uid = ''u'', ef_generation = None, ef_paused = False, ef_alert_enabled = False,
     ef_usage_threshold_percent = 80, ef_select_min = False, ef_steps = [StepGiB 10], ef_max_volume_size_gib = cap, ef_cooldown = 21600\<rparr>"

definition demo_rz_env :: "string \<Rightarrow> int \<Rightarrow> VolumeModification option \<Rightarrow> rz_env" where
  "demo_rz_env out now_t last_mod = \<lparr>rz_run_script = (\<lambda>tr i s. Inr out), rz_modify_volume = (\<lambda>tr v sp. Inr ()),
     rz_last_modification = (\<lambda>tr v. Inr last_mod), rz_wait = (\<lambda>tr v. Inr ()), rz_node_api = (\<lambda>tr c. Inr ()), rz_clock = (\<lambda>tr. now_t)\<rparr>"

definition demo_cordon_node :: "bool \<Rightarrow> bool \<Rightarrow> CordonNode" where
  "demo_cordon_node unschedulable protective =
     \<lparr>cn_name = ''n1'', cn_uid = ''u1'', cn_unschedulable = unschedulable, cn_protective = protective, cn_condition = None\<rparr>"

lemma demo_usage: "parse_usage_percent ''91%'' = Inr 91" "parse_usage_percent ''40%'' = Inr 40"
proof -
  have a: "trim (strip_percent (trim ''91%'')) = ''91''" "list_all is_ascii_digit ''91''" "digits_value 0 ''91'' = 91" by code_simp+
  have b: "trim (strip_percent (trim ''40%'')) = ''40''" "list_all is_ascii_digit ''40''" "digits_value 0 ''40'' = 40" by code_simp+
  show "parse_usage_percent ''91%'' = Inr 91" using a(2,3) by (simp add: parse_usage_percent_def a(1) parse_i32_def)
  show "parse_usage_percent ''40%'' = Inr 40" using b(2,3) by (simp add: parse_usage_percent_def b(1) parse_i32_def)
qed

definition demo_done :: "int \<Rightarrow> VolumeModification" where
  "demo_done t = \<lparr>vm_state = ''completed'', vm_start_time = Some t, vm_target_gib = 30\<rparr>"

lemma demo_pass:
  assumes "lm = None \<or> lm = Some (demo_done t) \<and> t + 21600 * second_nanos \<le> now_t"
  defines "st \<equiv> instance_task demo_resizer (demo_rz_env ''91%'' now_t lm) demo_inst (demo_eff 100) None"
  shows "modifications (st_log st) = [(''vol-1'', size_only 30, True)]"
    "scripts (st_log st) = [MEASURE_ROOT_FS, RESIZE_ROOT_FS, MEASURE_ROOT_FS]"
proof -
  have t: "target_size 20 (demo_eff 100) = 30" by (simp add: target_size_def step_up_def i32_max_def demo_eff_def)
  have e: "ef_paused (demo_eff 100) = False" "ef_usage_threshold_percent (demo_eff 100) = 80"
    "ef_max_volume_size_gib (demo_eff 100) = 100" "cooldown_delta (ef_cooldown (demo_eff 100)) = 21600 * second_nanos"
    by (simp_all add: demo_eff_def cooldown_delta_def i64_max_def)
  have c: "cooldown_block (demo_rz_env ''91%'' now_t lm) ''vol-1'' (ef_cooldown (demo_eff 100)) s = Inr None" for s
    using assms(1) by (auto simp: cooldown_block_def demo_rz_env_def demo_done_def e)
  note defs = instance_task_def reconcile_instance_def start_state_def measure_usage_def run_script_def above_threshold_def
    apply_protective_cordon_def cordon_node_def sync_protective_condition_def grow_volume_def
    request_modification_def modify_volume_def finish_resize_def throughput_piggyback_def went_ok_def demo_resizer_def
    demo_inst_def report_failure_def Let_def
  have r: "rz_run_script (demo_rz_env x now_t lm) tr i s = Inr x" "rz_modify_volume (demo_rz_env x now_t lm) tr v sp = Inr ()"
    "rz_wait (demo_rz_env x now_t lm) tr v = Inr ()" for x tr i s v sp
    by (simp_all add: demo_rz_env_def)
  show "modifications (st_log st) = [(''vol-1'', size_only 30, True)]"
    unfolding st_def by (simp add: defs demo_usage t e c r del: task_log)
  show "scripts (st_log st) = [MEASURE_ROOT_FS, RESIZE_ROOT_FS, MEASURE_ROOT_FS]"
    unfolding st_def by (simp add: defs demo_usage t e c r del: task_log)
qed

theorem modification_is_warranted_witness:
  "cooled_down (demo_rz_env ''91%'' 0 None) ''vol-1'' 21600 \<and> wants_growth (demo_rz_env ''91%'' 0 None) demo_inst (demo_eff 100) None"
proof -
  have "in_root_volume_id demo_inst = ''vol-1''" "ef_cooldown (demo_eff 100) = 21600" by (simp_all add: demo_inst_def demo_eff_def)
  then show ?thesis
    using modification_is_warranted [of demo_resizer "demo_rz_env ''91%'' 0 None" demo_inst "demo_eff 100" None]
    by (simp add: demo_pass del: task_log)
qed

theorem filesystem_extended_only_with_the_volume_witness:
  "\<exists>sp. (in_root_volume_id demo_inst, sp, True) \<in>
     set (modifications (st_log (instance_task demo_resizer (demo_rz_env ''91%'' 0 None) demo_inst (demo_eff 100) None)))"
  by (rule filesystem_extended_only_with_the_volume) (simp add: demo_pass del: task_log)

definition demo_rz_pass :: "int \<Rightarrow> VolumeModification option \<Rightarrow> rz_pass" where
  "demo_rz_pass t lm = \<lparr>ps_env = demo_rz_env ''91%'' t lm, ps_inst = demo_inst, ps_eff = demo_eff 100, ps_node = None, ps_start = t\<rparr>"

theorem at_most_four_modifications_a_day_witness:
  "length (filter (\<lambda>t. 0 \<le> t \<and> t < 0 + 24 * 3600 * second_nanos) (ebs_history demo_resizer
     [demo_rz_pass 0 None, demo_rz_pass (21600 * second_nanos) (Some (demo_done 0))] [])) \<le> 4 \<and>
   ebs_history demo_resizer [demo_rz_pass 0 None, demo_rz_pass (21600 * second_nanos) (Some (demo_done 0))] [] =
     [0, 21600 * second_nanos]"
proof
  have a: "accepted demo_resizer (demo_rz_pass 0 None)" "accepted demo_resizer (demo_rz_pass (21600 * second_nanos) (Some (demo_done 0)))"
    by (simp_all add: accepted_def demo_rz_pass_def demo_pass [where t = 0] del: task_log)
  show "length (filter (\<lambda>t. 0 \<le> t \<and> t < 0 + 24 * 3600 * second_nanos) (ebs_history demo_resizer
     [demo_rz_pass 0 None, demo_rz_pass (21600 * second_nanos) (Some (demo_done 0))] [])) \<le> 4"
    by (rule at_most_four_modifications_a_day)
      (use a in \<open>simp_all add: truthful_def demo_rz_pass_def demo_rz_env_def demo_done_def demo_eff_def MIN_COOLDOWN_def i64_max_def\<close>)
  show "ebs_history demo_resizer [demo_rz_pass 0 None, demo_rz_pass (21600 * second_nanos) (Some (demo_done 0))] [] =
     [0, 21600 * second_nanos]"
    using a by (simp add: demo_rz_pass_def)
qed

theorem foreign_cordons_are_left_alone_witness:
  "\<exists>n'. st_node (instance_task demo_resizer (demo_rz_env ''40%'' 0 None) demo_inst (demo_eff 100) (Some (demo_cordon_node True False))) = Some n' \<and>
     cn_unschedulable n' \<and> \<not> cn_protective n'"
  using foreign_cordons_are_left_alone [of demo_resizer "demo_rz_env ''40%'' 0 None" demo_inst "demo_eff 100" "demo_cordon_node True False"]
  by (auto simp: foreign_cordon_def demo_cordon_node_def)

theorem mark_outlives_the_cordon_witness:
  "\<exists>n'. (Uncordon ''n1'', True) \<in> set (node_calls (st_log (instance_task demo_resizer (demo_rz_env ''40%'' 0 None) demo_inst (demo_eff 25)
     (Some (n'\<lparr>cn_unschedulable := True\<rparr>)))))"
proof -
  have m: "measured (demo_rz_env ''91%'' 0 None) demo_inst n = Inr 91" "measured (demo_rz_env ''40%'' 0 None) demo_inst n = Inr 40" for n
    by (simp_all add: measured_def measure_usage_def run_script_def demo_rz_env_def demo_usage Let_def)
  have name: "cn_name (demo_cordon_node False True) = ''n1''" by (simp add: demo_cordon_node_def)
  have "\<exists>n'. st_node (instance_task demo_resizer (demo_rz_env ''91%'' 0 None) demo_inst (demo_eff 25) (Some (demo_cordon_node False True))) = Some n' \<and>
      cn_protective n' \<and> \<not> cn_unschedulable n' \<and>
      (Uncordon (cn_name (demo_cordon_node False True)), True) \<in> set (node_calls (st_log (instance_task demo_resizer
        (demo_rz_env ''40%'' 0 None) demo_inst (demo_eff 25) (Some (n'\<lparr>cn_unschedulable := True\<rparr>)))))"
    by (rule mark_outlives_the_cordon [OF _ _ _ _ _ _ m(1) _ _ m(2)])
      (simp_all add: demo_resizer_def demo_cordon_node_def demo_inst_def demo_eff_def target_size_def step_up_def i32_max_def
        demo_rz_env_def)
  then show ?thesis unfolding name by blast
qed

end
