(* ===== verification/Vas_Status.thy ===== *)
theory Vas_Status
  imports Vas_Resizer
begin

section \<open>volume-autoscaler: passes and the status of an autoscaler (resizer.rs, resizer/status.rs, api.rs, crd.rs)\<close>

text \<open>
  A whole pass over the discovered instances, the status it writes for every autoscaler, and the validator
  that looks at a spec as soon as it changes. The tasks of a pass run concurrently; each has an environment
  of its own, so any interleaving of their calls is one choice of the environments, and the order in which
  they end is a parameter. The API server applies a status as a JSON merge patch. Stored times count
  milliseconds.
\<close>

subsection \<open>Conditions\<close>

definition k8s_time :: "int \<Rightarrow> int" where
  "k8s_time t = t div 1000000"

record iva_condition =
  ic_type :: string
  ic_status :: string
  ic_reason :: string
  ic_message :: string
  ic_observed_generation :: "int option"
  ic_last_transition_time :: int

definition find_condition :: "iva_condition list \<Rightarrow> string \<Rightarrow> iva_condition option" where
  "find_condition cs ty = List.find (\<lambda>c. ic_type c = ty) cs"

fun remove_condition :: "string \<Rightarrow> iva_condition list \<Rightarrow> iva_condition list" where
  "remove_condition ty [] = []"
| "remove_condition ty (c # cs) = (if ic_type c = ty then cs else c # remove_condition ty cs)"

definition set_iva_condition ::
    "string \<Rightarrow> string \<Rightarrow> string \<Rightarrow> string \<Rightarrow> int option \<Rightarrow> int \<Rightarrow> iva_condition list \<Rightarrow> iva_condition list" where
  "set_iva_condition ty status reason message gen now cs =
     (let last_time = (case find_condition cs ty of
            None \<Rightarrow> k8s_time now
          | Some c \<Rightarrow> if ic_status c = status then ic_last_transition_time c else k8s_time now)
      in sort_key ic_type (remove_condition ty cs @
           [\<lparr>ic_type = ty, ic_status = status, ic_reason = reason, ic_message = message, ic_observed_generation = gen,
             ic_last_transition_time = last_time\<rparr>]))"

definition unless_healthy :: "iva_condition list \<Rightarrow> string \<Rightarrow> string \<Rightarrow> string option" where
  "unless_healthy cs ty healthy =
     (case find_condition cs ty of None \<Rightarrow> None | Some c \<Rightarrow> if ic_status c \<noteq> healthy then Some (ic_reason c) else None)"

definition summary_reason :: "iva_condition list \<Rightarrow> string" where
  "summary_reason cs =
     (if cs = [] then []
      else case unless_healthy cs ''ScalingActive'' ''True'' of
             Some r \<Rightarrow> r
           | None \<Rightarrow>
               (case unless_healthy cs ''AbleToScale'' ''True'' of
                  Some r \<Rightarrow> r
                | None \<Rightarrow> (case unless_healthy cs ''ScalingLimited'' ''False'' of Some r \<Rightarrow> r | None \<Rightarrow> ''Ready'')))"

definition latest :: "int option \<Rightarrow> int option \<Rightarrow> int option" where
  "latest a b = (case (a, b) of (Some x, Some y) \<Rightarrow> if y > x then Some y else Some x | (None, _) \<Rightarrow> b | (_, None) \<Rightarrow> a)"

definition MAX_MESSAGE_CHARS :: nat where "MAX_MESSAGE_CHARS = 256"

definition brief :: "string \<Rightarrow> string" where
  "brief s = (if chars_count s \<le> MAX_MESSAGE_CHARS then s else take_chars MAX_MESSAGE_CHARS s @ ''...'')"

subsection \<open>Status\<close>

record InstanceStatus =
  is_instance :: string
  is_name :: string
  is_volume_id :: string
  is_current_capacity :: "string option"
  is_desired_capacity :: "string option"
  is_current_utilization :: "int option"
  is_last_scale_time :: "int option"
  is_cooldown_until :: "int option"
  is_reason :: string
  is_message :: string

record InstanceVolumeAutoscalerStatus =
  vs_target :: string
  vs_utilization :: string
  vs_reason :: string
  vs_cooldown_duration :: string
  vs_observed_generation :: "int option"
  vs_last_scale_time :: "int option"
  vs_current_volumes :: int
  vs_instances :: "InstanceStatus list"
  vs_conditions :: "iva_condition list"

definition default_iva_status :: InstanceVolumeAutoscalerStatus where
  "default_iva_status = \<lparr>vs_target = [], vs_utilization = [], vs_reason = [], vs_cooldown_duration = [], vs_observed_generation = None,
     vs_last_scale_time = None, vs_current_volumes = 0, vs_instances = [], vs_conditions = []\<rparr>"

definition gib_quantity :: "int \<Rightarrow> string" where
  "gib_quantity gib = show_int gib @ ''Gi''"

definition observation_entry :: "Observation \<Rightarrow> Instance \<Rightarrow> InstanceStatus" where
  "observation_entry ob inst =
     \<lparr>is_instance = in_id inst, is_name = in_name inst, is_volume_id = in_root_volume_id inst,
      is_current_capacity = (if ob_capacity_gib ob > 0 then Some (gib_quantity (ob_capacity_gib ob)) else None),
      is_desired_capacity = map_option gib_quantity (ob_desired_gib ob), is_current_utilization = ob_usage ob,
      is_last_scale_time = map_option k8s_time (ob_scaled_at ob), is_cooldown_until = map_option k8s_time (ob_cooldown_until ob),
      is_reason = ob_reason ob, is_message = brief (ob_message ob)\<rparr>"

record Inactive =
  ia_reason :: string
  ia_message :: string

definition has_reason :: "InstanceStatus list \<Rightarrow> string \<Rightarrow> nat" where
  "has_reason entries reason = length (filter (\<lambda>e. is_reason e = reason) entries)"

text \<open>Status, reason and message of the three conditions.\<close>

definition active_condition :: "Inactive option \<Rightarrow> InstanceStatus list \<Rightarrow> string \<times> string \<times> string" where
  "active_condition inactive entries =
     (case inactive of
        Some i \<Rightarrow> (''False'', ia_reason i, brief (ia_message i))
      | None \<Rightarrow>
          if entries = [] then (''False'', ''NoMatchingInstances'', ''no discovered instance matches scaleTargetRef'')
          else if has_reason entries ''FailedGetResourceMetric'' = length entries
          then (''False'', ''FailedGetResourceMetric'', ''root filesystem usage could not be measured on any target instance'')
          else (''True'', ''ValidMetricFound'', ''measuring root filesystem usage of '' @ show_nat (length entries) @ '' '' @
                  (if length entries = 1 then ''instance'' else ''instances'')))"

definition able_condition :: "InstanceStatus list \<Rightarrow> string \<times> string \<times> string" where
  "able_condition entries =
     (if has_reason entries ''FailedRescale'' > 0
      then (''False'', ''FailedRescale'', show_nat (has_reason entries ''FailedRescale'') @ '' target volume(s) failed to grow'')
      else if has_reason entries ''Cooldown'' > 0
      then (''False'', ''Cooldown'', show_nat (has_reason entries ''Cooldown'') @ '' target volume(s) wait for the modification cooldown'')
      else if has_reason entries ''SucceededRescale'' > 0
      then (''True'', ''SucceededRescale'', show_nat (has_reason entries ''SucceededRescale'') @ '' target volume(s) grown this pass'')
      else (''True'', ''ReadyForNewScale'', ''the controller can grow any target volume''))"

definition limited_condition :: "InstanceStatus list \<Rightarrow> string \<times> string \<times> string" where
  "limited_condition entries =
     (if has_reason entries ''MaxCapacityReached'' > 0
      then (''True'', ''MaxCapacityReached'', show_nat (has_reason entries ''MaxCapacityReached'') @ '' target volume(s) would exceed maxCapacity'')
      else (''False'', ''DesiredWithinRange'', ''every desired capacity is within maxCapacity''))"

text \<open>The time of the last growth of an instance survives passes that do not grow it.\<close>

definition prev_times :: "InstanceVolumeAutoscalerStatus option \<Rightarrow> string \<Rightarrow> int option" where
  "prev_times prev =
     (case prev of
        None \<Rightarrow> (\<lambda>i. None)
      | Some p \<Rightarrow> map_of (rev (filter_map (\<lambda>x. map_option (Pair (is_instance x)) (is_last_scale_time x)) (vs_instances p))))"

definition carry_time :: "(string \<Rightarrow> int option) \<Rightarrow> InstanceStatus \<Rightarrow> InstanceStatus" where
  "carry_time before e = (if is_last_scale_time e = None then e\<lparr>is_last_scale_time := before (is_instance e)\<rparr> else e)"

definition build_status ::
    "InstanceVolumeAutoscalerStatus option \<Rightarrow> int option \<Rightarrow> InstanceStatus list \<Rightarrow> Inactive option \<Rightarrow> int \<Rightarrow> InstanceVolumeAutoscalerStatus" where
  "build_status prev gen raw_entries inactive now =
     (let entries = map (carry_time (prev_times prev)) (sort_key is_instance raw_entries);
          last_time = fold (\<lambda>e t. latest t (is_last_scale_time e)) entries (Option.bind prev vs_last_scale_time);
          (s1, r1, m1) = active_condition inactive entries;
          (s2, r2, m2) = able_condition entries;
          (s3, r3, m3) = limited_condition entries;
          conditions = set_iva_condition ''ScalingLimited'' s3 r3 m3 gen now
            (set_iva_condition ''AbleToScale'' s2 r2 m2 gen now
              (set_iva_condition ''ScalingActive'' s1 r1 m1 gen now (case prev of None \<Rightarrow> [] | Some p \<Rightarrow> vs_conditions p)))
      in default_iva_status\<lparr>vs_observed_generation := gen, vs_last_scale_time := last_time,
           vs_current_volumes := min i32_max (int (length (filter (\<lambda>e. is_volume_id e \<noteq> []) entries))),
           vs_instances := entries, vs_conditions := conditions\<rparr>)"

definition SUMMARY_TAGS :: nat where "SUMMARY_TAGS = 3"

definition target_summary :: "ScaleTargetRef \<Rightarrow> string" where
  "target_summary r =
     (case tr_kind r of
        InstanceKind \<Rightarrow> (case tr_name r of Some n \<Rightarrow> n | None \<Rightarrow> [])
      | TagSelectorKind \<Rightarrow>
          let tags = map (\<lambda>(k, v). k @ ''='' @ v) (case tr_tags r of Some t \<Rightarrow> t | None \<Rightarrow> [])
          in if length tags > SUMMARY_TAGS
             then join '','' (take SUMMARY_TAGS tags) @ '',+'' @ show_nat (length tags - SUMMARY_TAGS) @ '' more''
             else join '','' tags)"

definition target_utilization :: "InstanceVolumeAutoscaler \<Rightarrow> int" where
  "target_utilization iva = (case iva_metrics iva of [] \<Rightarrow> DEFAULT_UTILIZATION_PERCENT | m # ms \<Rightarrow> m)"

definition refresh_summary :: "InstanceVolumeAutoscaler \<Rightarrow> InstanceVolumeAutoscalerStatus \<Rightarrow> InstanceVolumeAutoscalerStatus" where
  "refresh_summary iva s =
     (let goal = show_int (target_utilization iva);
          raw = Option.bind (Option.bind (iva_behavior iva) bh_scale_up) sr_cooldown_duration
      in s\<lparr>vs_target := target_summary (iva_scale_target_ref iva),
           vs_utilization := (case filter_map is_current_utilization (vs_instances s) of
               [] \<Rightarrow> ''<unknown>/'' @ goal @ ''%''
             | u # us \<Rightarrow> show_int (fold max us u) @ ''%/'' @ goal @ ''%''),
           vs_reason := summary_reason (vs_conditions s),
           vs_cooldown_duration := (case raw of
               None \<Rightarrow> format_cooldown MIN_COOLDOWN
             | Some r \<Rightarrow> (case parse_cooldown r of Inl e \<Rightarrow> r | Inr d \<Rightarrow> format_cooldown d))\<rparr>)"

text \<open>What the API server stores: the fields that are left out when empty keep their old value.\<close>

definition merge_iva_status ::
    "InstanceVolumeAutoscalerStatus option \<Rightarrow> InstanceVolumeAutoscalerStatus \<Rightarrow> InstanceVolumeAutoscalerStatus" where
  "merge_iva_status stored s =
     (case stored of
        None \<Rightarrow> s
      | Some old \<Rightarrow>
          \<lparr>vs_target = keep_empty (vs_target old) (vs_target s), vs_utilization = keep_empty (vs_utilization old) (vs_utilization s),
           vs_reason = keep_empty (vs_reason old) (vs_reason s),
           vs_cooldown_duration = keep_empty (vs_cooldown_duration old) (vs_cooldown_duration s),
           vs_observed_generation = keep_none (vs_observed_generation old) (vs_observed_generation s),
           vs_last_scale_time = keep_none (vs_last_scale_time old) (vs_last_scale_time s),
           vs_current_volumes = vs_current_volumes s, vs_instances = keep_empty (vs_instances old) (vs_instances s),
           vs_conditions = keep_empty (vs_conditions old) (vs_conditions s)\<rparr>)"

subsection \<open>Writing the statuses of a pass\<close>

type_synonym stored_iva = "InstanceVolumeAutoscaler \<times> InstanceVolumeAutoscalerStatus option"

datatype iva_effect =
    IvaEvent string string string
  | PatchStatus string InstanceVolumeAutoscalerStatus

abbreviation name_of :: "InstanceVolumeAutoscaler \<Rightarrow> string" where
  "name_of iva \<equiv> (case iva_name iva of Some n \<Rightarrow> n | None \<Rightarrow> [])"

text \<open>Why an autoscaler as a whole does not scale, the first reason that applies.\<close>

definition inactive_of :: "Resolver \<Rightarrow> (string \<Rightarrow> string set option) \<Rightarrow> string option \<Rightarrow> string \<Rightarrow> Inactive option" where
  "inactive_of r conflicts discovery_error name =
     (case List.find (\<lambda>(n, e). n = name) (rs_invalid r) of
        Some (n, e) \<Rightarrow> Some \<lparr>ia_reason = ''InvalidSpec'', ia_message = e\<rparr>
      | None \<Rightarrow>
          if (case resolver_get r name of Some c \<Rightarrow> ef_paused (cp_effective c) | None \<Rightarrow> False)
          then Some \<lparr>ia_reason = ''ScalingDisabled'', ia_message = ''behavior.scaleUp.selectPolicy is Disabled''\<rparr>
          else case discovery_error of
                 Some e \<Rightarrow> Some \<lparr>ia_reason = ''FailedGetScale'', ia_message = e\<rparr>
               | None \<Rightarrow>
                   (case conflicts name of
                      Some others \<Rightarrow> Some \<lparr>ia_reason = ''AmbiguousSelector'', ia_message =
                        ''shares instances with InstanceVolumeAutoscaler '' @ join '', '' (sorted_list_of_set others)\<rparr>
                    | None \<Rightarrow> None))"

fun write_statuses ::
    "bool \<Rightarrow> Resolver \<Rightarrow> (string \<Rightarrow> string set option) \<Rightarrow> string option \<Rightarrow> int \<Rightarrow> stored_iva list \<Rightarrow>
     (string \<Rightarrow> InstanceStatus list) \<Rightarrow> iva_effect list" where
  "write_statuses events r conflicts discovery_error now [] entries = []"
| "write_statuses events r conflicts discovery_error now ((iva, prev) # ivas) entries =
     (let name = name_of iva;
          entries1 = (case (discovery_error, prev) of (Some e, Some p) \<Rightarrow> entries(name := vs_instances p) | _ \<Rightarrow> entries);
          inactive = inactive_of r conflicts discovery_error name;
          event = (case inactive of
              Some i \<Rightarrow> if events \<and> ia_reason i = ''AmbiguousSelector'' then [IvaEvent name (ia_reason i) (ia_message i)] else []
            | None \<Rightarrow> []);
          status = refresh_summary iva (build_status prev (iva_generation iva) (entries1 name) inactive now)
      in event @ PatchStatus name status #
           write_statuses events r conflicts discovery_error now ivas (entries1(name := [])))"

subsection \<open>A pass\<close>

record pass_env =
  pe_autoscalers :: "string + stored_iva list"
  pe_instances :: "string + Instance list"
  pe_nodes :: "string + (string \<Rightarrow> CordonNode option)"
  pe_task :: "nat \<Rightarrow> rz_env"
  pe_joined :: "(string \<times> InstanceStatus) list \<Rightarrow> (string \<times> InstanceStatus) list"
  pe_now :: int

record pass_result =
  pr_answer :: "string + nat"
  pr_tasks :: "(nat \<times> rz_effect list) list"
  pr_writes :: "iva_effect list"

definition protective_cordon_nodes :: "Resizer \<Rightarrow> string + (string \<Rightarrow> CordonNode option) \<Rightarrow> string \<Rightarrow> CordonNode option" where
  "protective_cordon_nodes rz listed = (if \<not> rz_cordon rz then (\<lambda>i. None) else case listed of Inr nodes \<Rightarrow> nodes | Inl e \<Rightarrow> (\<lambda>i. None))"

definition refused_entries :: "Instance list \<Rightarrow> nat \<times> string list \<Rightarrow> (string \<times> InstanceStatus) list" where
  "refused_entries instances x =
     (let inst = instances ! fst x;
          ob = observation_set ''AmbiguousSelector''
            (''targeted by more than one InstanceVolumeAutoscaler: '' @ join '', '' (snd x)) (observation_new (in_root_volume_size_gib inst))
      in map (\<lambda>name. (name, observation_entry ob inst)) (snd x))"

text \<open>The tasks in the order they are started; each takes the Node of its instance out of the listing.\<close>

fun run_tasks ::
    "Resizer \<Rightarrow> (nat \<Rightarrow> rz_env) \<Rightarrow> Instance list \<Rightarrow> (nat \<times> Effective) list \<Rightarrow> (string \<Rightarrow> CordonNode option) \<Rightarrow>
     (nat \<times> Effective \<times> rz_state) list" where
  "run_tasks rz envs instances [] nodes = []"
| "run_tasks rz envs instances ((i, eff) # ms) nodes =
     (let inst = instances ! i
      in (i, eff, instance_task rz (envs i) inst eff (nodes (in_id inst))) #
         run_tasks rz envs instances ms (nodes(in_id inst := None)))"

definition collect_entries :: "(string \<times> InstanceStatus) list \<Rightarrow> string \<Rightarrow> InstanceStatus list" where
  "collect_entries xs name = map snd (filter (\<lambda>(n, e). n = name) xs)"

definition rz_reconcile :: "quantity_reader \<Rightarrow> Resizer \<Rightarrow> bool \<Rightarrow> pass_env \<Rightarrow> pass_result" where
  "rz_reconcile qr rz events pe =
     (case pe_autoscalers pe of
        Inl err \<Rightarrow> \<lparr>pr_answer = Inl (''list InstanceVolumeAutoscalers: '' @ err), pr_tasks = [], pr_writes = []\<rparr>
      | Inr ivas \<Rightarrow>
          (let r = resolver_new qr (map fst ivas)
           in case pe_instances pe of
                Inl err \<Rightarrow>
                  (let msg = ''discover instances: '' @ err
                   in \<lparr>pr_answer = Inl msg, pr_tasks = [],
                       pr_writes = write_statuses events r (\<lambda>n. None) (Some msg) (pe_now pe) ivas (\<lambda>n. [])\<rparr>)
              | Inr instances \<Rightarrow>
                  (let plan = plan_instances r instances;
                       tasks = run_tasks rz (pe_task pe) instances (pn_managed plan) (protective_cordon_nodes rz (pe_nodes pe));
                       refused = concat (map (refused_entries instances) (pn_refused plan));
                       done = pe_joined pe (map (\<lambda>(i, eff, st). (ef_policy eff, observation_entry (st_obs st) (instances ! i))) tasks)
                   in \<lparr>pr_answer = Inr (length instances), pr_tasks = map (\<lambda>(i, eff, st). (i, st_log st)) tasks,
                       pr_writes = write_statuses events r (pn_conflicts plan) None (pe_now pe) ivas (collect_entries (refused @ done))\<rparr>)))"

subsection \<open>The validator\<close>

definition validated_conditions :: "quantity_reader \<Rightarrow> InstanceVolumeAutoscaler \<Rightarrow> int \<Rightarrow> iva_condition list \<Rightarrow> iva_condition list" where
  "validated_conditions qr iva now cs =
     (case compile_autoscaler qr iva of
        Inl err \<Rightarrow> set_iva_condition ''ScalingActive'' ''False'' ''InvalidSpec'' err (iva_generation iva) now cs
      | Inr c \<Rightarrow>
          if (case find_condition cs ''ScalingActive'' of None \<Rightarrow> True | Some a \<Rightarrow> ic_reason a = ''InvalidSpec'')
          then set_iva_condition ''ScalingActive'' ''Unknown'' ''AwaitingReconcile'' ''the spec is valid and waits for the next resize pass''
                 (iva_generation iva) now cs
          else cs)"

definition validation_status :: "quantity_reader \<Rightarrow> int \<Rightarrow> stored_iva \<Rightarrow> InstanceVolumeAutoscalerStatus option" where
  "validation_status qr now x =
     (let iva = fst x; current = (case snd x of Some s \<Rightarrow> s | None \<Rightarrow> default_iva_status);
          conditions = validated_conditions qr iva now (vs_conditions current);
          status = refresh_summary iva (current\<lparr>vs_conditions := conditions\<rparr>)
      in if status = current then None
         else Some (if conditions \<noteq> vs_conditions current then status\<lparr>vs_observed_generation := iva_generation iva\<rparr> else status))"

definition validator_reconcile :: "quantity_reader \<Rightarrow> int \<Rightarrow> stored_iva \<Rightarrow> iva_effect list" where
  "validator_reconcile qr now x = (case validation_status qr now x of Some s \<Rightarrow> [PatchStatus (name_of (fst x)) s] | None \<Rightarrow> [])"

subsection \<open>What a pass touches\<close>

lemma run_tasks_origin:
  assumes "(i, eff, st) \<in> set (run_tasks rz envs instances ms nodes)"
  shows "(i, eff) \<in> set ms \<and> (\<exists>node. st = instance_task rz (envs i) (instances ! i) eff node)"
  using assms by (induction rz envs instances ms nodes rule: run_tasks.induct) (auto simp: Let_def)

lemma pass_task_origin:
  assumes "(i, lg) \<in> set (pr_tasks (rz_reconcile qr rz events pe))"
  obtains ivas instances eff node where "pe_autoscalers pe = Inr ivas" "pe_instances pe = Inr instances" "i < length instances"
    "sole_owner (resolver_new qr (map fst ivas)) instances (instances ! i) = Some eff"
    "lg = st_log (instance_task rz (pe_task pe i) (instances ! i) eff node)"
proof -
  obtain ivas instances where a: "pe_autoscalers pe = Inr ivas" "pe_instances pe = Inr instances"
    using assms by (auto simp: rz_reconcile_def Let_def split: sum.splits)
  let ?r = "resolver_new qr (map fst ivas)"
  obtain eff st where t: "(i, eff, st) \<in> set (run_tasks rz (pe_task pe) instances (pn_managed (plan_instances ?r instances))
      (protective_cordon_nodes rz (pe_nodes pe)))" "lg = st_log st"
    using assms a by (auto simp: rz_reconcile_def Let_def simp del: task_log)
  from run_tasks_origin [OF t(1)] obtain node
    where "(i, eff) \<in> set (pn_managed (plan_instances ?r instances))" "st = instance_task rz (pe_task pe i) (instances ! i) eff node"
    by blast
  then show thesis using that a t(2) managed_sole_owner by blast
qed

text \<open>
  C11. A pass grows only what it was told to grow. Whatever the autoscalers, the discovered instances, the
  interleaving of the tasks and the outcome of every call: each modification of a pass is for the root volume
  of a discovered instance that exactly one valid autoscaler targets, one that shares no instance with
  another; it asks for the next size under that autoscaler's rules, within its maximum; and the measured usage
  had reached that autoscaler's threshold.
\<close>

theorem pass_grows_only_assigned_volumes:
  assumes "(i, lg) \<in> set (pr_tasks (rz_reconcile qr rz events pe))" "(vol, spec, ok) \<in> set (modifications lg)"
  shows "\<exists>ivas instances eff node. pe_autoscalers pe = Inr ivas \<and> pe_instances pe = Inr instances \<and> i < length instances \<and>
    sole_owner (resolver_new qr (map fst ivas)) instances (instances ! i) = Some eff \<and>
    wants_growth (pe_task pe i) (instances ! i) eff node \<and> \<not> rz_dry_run rz \<and> vol = in_root_volume_id (instances ! i) \<and>
    ms_size_gib spec = target_size (in_root_volume_size_gib (instances ! i)) eff \<and> ms_size_gib spec \<le> ef_max_volume_size_gib eff"
proof -
  from assms(1) obtain ivas instances eff node where o: "pe_autoscalers pe = Inr ivas" "pe_instances pe = Inr instances"
    "i < length instances" "sole_owner (resolver_new qr (map fst ivas)) instances (instances ! i) = Some eff"
    "lg = st_log (instance_task rz (pe_task pe i) (instances ! i) eff node)"
    by (rule pass_task_origin)
  have "modifications (st_log (instance_task rz (pe_task pe i) (instances ! i) eff node)) \<noteq> []"
    using assms(2) o(5) by auto
  note w = warranted_modification [OF this]
  have "vol = in_root_volume_id (instances ! i) \<and> ms_size_gib spec = target_size (in_root_volume_size_gib (instances ! i)) eff"
    using w assms(2) unfolding o(5) [symmetric] by (auto simp: attempts_ok_def size_only_def combined_spec_def split: option.splits)
  then show ?thesis using w o by (auto simp: wants_growth_def)
qed

subsection \<open>Conditions by type\<close>

text \<open>A store of records with one record for each key, as the code uses its list of conditions.\<close>

locale keyed_records =
  fixes get :: "'s \<Rightarrow> 'k \<Rightarrow> 'v option" and put :: "'k \<Rightarrow> 'a \<Rightarrow> 's \<Rightarrow> 's" and made :: "'k \<Rightarrow> 'a \<Rightarrow> 'v option \<Rightarrow> 'v"
    and ok :: "'s \<Rightarrow> bool"
  assumes ok_put: "ok s \<Longrightarrow> ok (put k a s)"
    and get_put_same: "ok s \<Longrightarrow> get (put k a s) k = Some (made k a (get s k))"
    and get_put_other: "ok s \<Longrightarrow> k' \<noteq> k \<Longrightarrow> get (put k a s) k' = get s k'"
begin

lemma get_three:
  assumes "ok s" "distinct [k1, k2, k3]"
  shows "get (put k3 a3 (put k2 a2 (put k1 a1 s))) k1 = Some (made k1 a1 (get s k1))"
    "get (put k3 a3 (put k2 a2 (put k1 a1 s))) k2 = Some (made k2 a2 (get s k2))"
    "get (put k3 a3 (put k2 a2 (put k1 a1 s))) k3 = Some (made k3 a3 (get s k3))"
    "ok (put k3 a3 (put k2 a2 (put k1 a1 s)))"
  using assms by (auto simp: ok_put get_put_same get_put_other)

end

definition conditions_ok :: "iva_condition list \<Rightarrow> bool" where
  "conditions_ok cs \<longleftrightarrow> distinct (map ic_type cs)"

text \<open>The condition that an update makes, given the one it replaces.\<close>

definition made_condition :: "string \<Rightarrow> string \<times> string \<times> string \<times> int option \<times> int \<Rightarrow> iva_condition option \<Rightarrow> iva_condition" where
  "made_condition ty x old = (case x of (status, reason, message, gen, now) \<Rightarrow>
     \<lparr>ic_type = ty, ic_status = status, ic_reason = reason, ic_message = message, ic_observed_generation = gen,
      ic_last_transition_time = (case old of
          None \<Rightarrow> k8s_time now
        | Some c \<Rightarrow> if ic_status c = status then ic_last_transition_time c else k8s_time now)\<rparr>)"

definition put_condition :: "string \<Rightarrow> string \<times> string \<times> string \<times> int option \<times> int \<Rightarrow> iva_condition list \<Rightarrow> iva_condition list" where
  "put_condition ty x cs = (case x of (status, reason, message, gen, now) \<Rightarrow> set_iva_condition ty status reason message gen now cs)"

lemma find_condition_iff: "conditions_ok cs \<Longrightarrow> find_condition cs ty = Some c \<longleftrightarrow> c \<in> set cs \<and> ic_type c = ty"
  by (induction cs) (auto simp: find_condition_def conditions_ok_def)

lemma remove_condition_filter: "conditions_ok cs \<Longrightarrow> remove_condition ty cs = filter (\<lambda>c. ic_type c \<noteq> ty) cs"
proof (induction cs)
  case (Cons c cs)
  have "filter (\<lambda>x. ic_type x \<noteq> ty) cs = cs" if "ic_type c = ty"
  proof (rule filter_True)
    have "ty \<notin> ic_type ` set cs" using Cons.prems that by (simp add: conditions_ok_def)
    then show "\<forall>x\<in>set cs. ic_type x \<noteq> ty" by blast
  qed
  then show ?case using Cons by (auto simp: conditions_ok_def)
qed simp

lemma put_condition_sort:
  "put_condition ty x cs = sort_key ic_type (remove_condition ty cs @ [made_condition ty x (find_condition cs ty)])"
  by (cases x) (simp add: put_condition_def set_iva_condition_def made_condition_def Let_def)

lemma made_condition_type [simp]: "ic_type (made_condition ty x old) = ty"
  by (cases x) (simp add: made_condition_def)

lemma set_put_condition:
  "conditions_ok cs \<Longrightarrow> set (put_condition ty x cs) = {c \<in> set cs. ic_type c \<noteq> ty} \<union> {made_condition ty x (find_condition cs ty)}"
  by (auto simp: put_condition_sort remove_condition_filter)

lemma distinct_map_sort_key: "distinct (map f (sort_key f xs)) = distinct (map f xs)"
  by (rule mset_eq_imp_distinct_iff) simp

lemma conditions_ok_put: "conditions_ok cs \<Longrightarrow> conditions_ok (put_condition ty x cs)"
proof -
  assume a: "conditions_ok cs"
  have "distinct (map ic_type (filter (\<lambda>c. ic_type c \<noteq> ty) cs))" using a by (simp add: conditions_ok_def distinct_map_filter)
  then have "distinct (map ic_type (remove_condition ty cs @ [made_condition ty x (find_condition cs ty)]))"
    using a by (auto simp: remove_condition_filter)
  then show ?thesis
    by (simp add: conditions_ok_def put_condition_sort distinct_map_sort_key)
qed

interpretation ic: keyed_records find_condition put_condition made_condition conditions_ok
proof
  fix s k a k'
  assume s: "conditions_ok s"
  show "conditions_ok (put_condition k a s)" using s by (rule conditions_ok_put)
  note p = find_condition_iff [OF conditions_ok_put [OF s, of k a]] set_put_condition [OF s, of k a]
  show "find_condition (put_condition k a s) k = Some (made_condition k a (find_condition s k))" using p by simp
  show "find_condition (put_condition k a s) k' = find_condition s k'" if "k' \<noteq> k"
  proof (cases "find_condition s k'")
    case None
    have "find_condition (put_condition k a s) k' \<noteq> Some c" for c
      using None find_condition_iff [OF s, of k' c] p that by auto
    then show ?thesis using None by auto
  next
    case (Some c)
    then show ?thesis using find_condition_iff [OF s, of k' c] p that by auto
  qed
qed

subsection \<open>The status of a pass\<close>

definition prev_conditions :: "InstanceVolumeAutoscalerStatus option \<Rightarrow> iva_condition list" where
  "prev_conditions prev = (case prev of None \<Rightarrow> [] | Some p \<Rightarrow> vs_conditions p)"

definition built_entries :: "InstanceVolumeAutoscalerStatus option \<Rightarrow> InstanceStatus list \<Rightarrow> InstanceStatus list" where
  "built_entries prev raw = map (carry_time (prev_times prev)) (sort_key is_instance raw)"

lemma build_conditions:
  "vs_conditions (build_status prev gen raw inactive now) =
     (let es = built_entries prev raw; mk = (\<lambda>(s, r, m). (s, r, m, gen, now))
      in put_condition ''ScalingLimited'' (mk (limited_condition es))
           (put_condition ''AbleToScale'' (mk (able_condition es))
             (put_condition ''ScalingActive'' (mk (active_condition inactive es)) (prev_conditions prev))))"
  by (simp add: build_status_def put_condition_def built_entries_def prev_conditions_def Let_def case_prod_unfold)

lemma build_fields [simp]:
  "vs_instances (build_status prev gen raw inactive now) = built_entries prev raw"
  "vs_observed_generation (build_status prev gen raw inactive now) = gen"
  "vs_last_scale_time (build_status prev gen raw inactive now) =
     fold (\<lambda>e t. latest t (is_last_scale_time e)) (built_entries prev raw) (Option.bind prev vs_last_scale_time)"
  "vs_current_volumes (build_status prev gen raw inactive now) =
     min i32_max (int (length (filter (\<lambda>e. is_volume_id e \<noteq> []) (built_entries prev raw))))"
  by (simp_all add: build_status_def built_entries_def Let_def case_prod_unfold default_iva_status_def)

lemma carry_time_reason [simp]: "is_reason (carry_time t e) = is_reason e"
  by (simp add: carry_time_def)

lemma built_reasons: "mset (map is_reason (built_entries prev raw)) = mset (map is_reason raw)"
  by (simp add: built_entries_def comp_def image_mset.compositionality)

lemma has_reason_count: "has_reason es r = count_list (map is_reason es) r"
  by (induction es) (auto simp: has_reason_def)

lemma built_has_reason: "has_reason (built_entries prev raw) r = has_reason raw r"
  unfolding has_reason_count count_mset [symmetric] built_reasons ..

lemma built_length [simp]: "length (built_entries prev raw) = length raw" "built_entries prev raw = [] \<longleftrightarrow> raw = []"
  by (simp_all add: built_entries_def) (metis length_0_conv length_sort)

lemma condition_functions_cong:
  assumes "\<And>r. has_reason es r = has_reason es' r" "length es = length es'"
  shows "active_condition inactive es = active_condition inactive es'" "able_condition es = able_condition es'"
    "limited_condition es = limited_condition es'"
  using assms by (auto simp: active_condition_def able_condition_def limited_condition_def split: option.splits)

definition stored_condition ::
    "InstanceVolumeAutoscalerStatus option \<Rightarrow> string \<Rightarrow> string \<times> string \<times> string \<Rightarrow> int option \<Rightarrow> int \<Rightarrow> iva_condition" where
  "stored_condition prev ty x gen now =
     made_condition ty (case x of (s, r, m) \<Rightarrow> (s, r, m, gen, now)) (find_condition (prev_conditions prev) ty)"

lemma build_find:
  assumes "conditions_ok (prev_conditions prev)"
  shows "find_condition (vs_conditions (build_status prev gen raw inactive now)) ''ScalingActive'' =
      Some (stored_condition prev ''ScalingActive'' (active_condition inactive raw) gen now)"
    "find_condition (vs_conditions (build_status prev gen raw inactive now)) ''AbleToScale'' =
      Some (stored_condition prev ''AbleToScale'' (able_condition raw) gen now)"
    "find_condition (vs_conditions (build_status prev gen raw inactive now)) ''ScalingLimited'' =
      Some (stored_condition prev ''ScalingLimited'' (limited_condition raw) gen now)"
    "conditions_ok (vs_conditions (build_status prev gen raw inactive now))"
proof -
  have d: "distinct [''ScalingActive'', ''AbleToScale'', ''ScalingLimited'']" by simp
  note c = condition_functions_cong [of "built_entries prev raw" raw, OF built_has_reason built_length(1)]
  note g = ic.get_three [OF assms d]
  show "find_condition (vs_conditions (build_status prev gen raw inactive now)) ''ScalingActive'' =
      Some (stored_condition prev ''ScalingActive'' (active_condition inactive raw) gen now)"
    "find_condition (vs_conditions (build_status prev gen raw inactive now)) ''AbleToScale'' =
      Some (stored_condition prev ''AbleToScale'' (able_condition raw) gen now)"
    "find_condition (vs_conditions (build_status prev gen raw inactive now)) ''ScalingLimited'' =
      Some (stored_condition prev ''ScalingLimited'' (limited_condition raw) gen now)"
    "conditions_ok (vs_conditions (build_status prev gen raw inactive now))"
    unfolding build_conditions c stored_condition_def Let_def by (rule g)+
qed

lemma stored_condition_sel [simp]:
  "ic_status (stored_condition prev ty (s, r, m) gen now) = s" "ic_reason (stored_condition prev ty (s, r, m) gen now) = r"
  by (simp_all add: stored_condition_def made_condition_def)

lemma active_healthy:
  "fst (active_condition inactive raw) = ''True'' \<longleftrightarrow> inactive = None \<and> raw \<noteq> [] \<and> list_ex (\<lambda>e. is_reason e \<noteq> ''FailedGetResourceMetric'') raw"
proof -
  have "has_reason raw r = length raw \<longleftrightarrow> list_all (\<lambda>e. is_reason e = r) raw" for r
    unfolding has_reason_def list_all_iff
    by (metis (mono_tags, lifting) filter_True length_filter_less less_irrefl)
  then show ?thesis by (auto simp: active_condition_def list_ex_iff list_all_iff split: option.splits)
qed

lemma has_reason_pos: "0 < has_reason raw r \<longleftrightarrow> list_ex (\<lambda>e. is_reason e = r) raw"
  by (induction raw) (auto simp: has_reason_def)

lemma able_healthy:
  "fst (able_condition raw) = ''True'' \<longleftrightarrow> \<not> list_ex (\<lambda>e. is_reason e = ''FailedRescale'' \<or> is_reason e = ''Cooldown'') raw"
  by (auto simp: able_condition_def has_reason_pos list_ex_iff)

lemma limited_healthy: "fst (limited_condition raw) = ''False'' \<longleftrightarrow> \<not> list_ex (\<lambda>e. is_reason e = ''MaxCapacityReached'') raw"
  by (auto simp: limited_condition_def has_reason_pos list_ex_iff)

lemma condition_reasons_not_ready:
  "fst (snd (able_condition raw)) \<noteq> ''Ready''" "fst (snd (limited_condition raw)) \<noteq> ''Ready''"
  "(\<And>i. inactive = Some i \<Longrightarrow> ia_reason i \<noteq> ''Ready'') \<Longrightarrow> fst (snd (active_condition inactive raw)) \<noteq> ''Ready''"
  by (auto simp: able_condition_def limited_condition_def active_condition_def split: option.splits)

lemma build_summary:
  assumes "conditions_ok (prev_conditions prev)"
  shows "summary_reason (vs_conditions (build_status prev gen raw inactive now)) =
    (if fst (active_condition inactive raw) \<noteq> ''True'' then fst (snd (active_condition inactive raw))
     else if fst (able_condition raw) \<noteq> ''True'' then fst (snd (able_condition raw))
     else if fst (limited_condition raw) \<noteq> ''False'' then fst (snd (limited_condition raw)) else ''Ready'')"
proof -
  have "vs_conditions (build_status prev gen raw inactive now) \<noteq> []"
    using build_find(1) [OF assms, of gen raw inactive now] by (auto simp: find_condition_def)
  then show ?thesis
    by (cases "active_condition inactive raw"; cases "able_condition raw"; cases "limited_condition raw")
      (simp add: summary_reason_def unless_healthy_def build_find [OF assms])
qed

text \<open>
  C27. The summary that is printed for an autoscaler reads Ready exactly when all is well: the autoscaler is
  active, it targets instances, not every measurement failed, no volume failed to grow, waits for its cooldown
  or has reached the maximum. This holds whatever conditions the previous status had, one for each type.
\<close>

theorem ready_exactly_when_healthy:
  assumes "conditions_ok (prev_conditions prev)" "\<And>i. inactive = Some i \<Longrightarrow> ia_reason i \<noteq> ''Ready''"
  shows "vs_reason (refresh_summary iva (build_status prev gen raw inactive now)) = ''Ready'' \<longleftrightarrow>
    inactive = None \<and> raw \<noteq> [] \<and> list_ex (\<lambda>e. is_reason e \<noteq> ''FailedGetResourceMetric'') raw \<and>
    \<not> list_ex (\<lambda>e. is_reason e \<in> {''FailedRescale'', ''Cooldown'', ''MaxCapacityReached''}) raw"
  using condition_reasons_not_ready(1,2) [of raw] condition_reasons_not_ready(3) [OF assms(2)]
    active_healthy [of inactive raw] able_healthy [of raw] limited_healthy [of raw]
  by (auto simp: refresh_summary_def Let_def build_summary [OF assms(1)] list_ex_iff)

lemma latest_le:
  "a = Some t \<Longrightarrow> \<exists>t'. latest a b = Some t' \<and> t \<le> t'" "b = Some t \<Longrightarrow> \<exists>t'. latest a b = Some t' \<and> t \<le> t'"
  by (cases a; cases b; auto simp: latest_def)+

lemma fold_latest_keep: "a = Some t \<Longrightarrow> \<exists>t'. fold (\<lambda>e t. latest t (is_last_scale_time e)) es a = Some t' \<and> t \<le> t'"
proof (induction es arbitrary: a t)
  case (Cons e es)
  obtain t1 where "latest a (is_last_scale_time e) = Some t1" "t \<le> t1" using latest_le(1) [OF Cons.prems] by blast
  then show ?case using Cons.IH [of "latest a (is_last_scale_time e)" t1] by auto
qed simp

lemma fold_latest_member:
  "e \<in> set es \<Longrightarrow> is_last_scale_time e = Some t \<Longrightarrow> \<exists>t'. fold (\<lambda>e t. latest t (is_last_scale_time e)) es a = Some t' \<and> t \<le> t'"
proof (induction es arbitrary: a)
  case (Cons x es)
  show ?case
  proof (cases "e = x")
    case True
    obtain t1 where "latest a (is_last_scale_time x) = Some t1" "t \<le> t1" using latest_le(2) Cons.prems True by blast
    then show ?thesis using fold_latest_keep [of "latest a (is_last_scale_time x)" t1 es] by auto
  next
    case False
    then show ?thesis using Cons by simp
  qed
qed simp

lemma prev_times_of:
  assumes "distinct (map is_instance (vs_instances p))" "x \<in> set (vs_instances p)"
  shows "prev_times (Some p) (is_instance x) = is_last_scale_time x"
proof -
  let ?f = "\<lambda>x. map_option (Pair (is_instance x)) (is_last_scale_time x)"
  have keys: "map fst (filter_map ?f xs) = map is_instance (filter (\<lambda>x. is_last_scale_time x \<noteq> None) xs)" for xs
    by (induction xs) auto
  have mem: "(i, t) \<in> set (filter_map ?f xs) \<longleftrightarrow> (\<exists>x\<in>set xs. is_instance x = i \<and> is_last_scale_time x = Some t)" for i t xs
    by (induction xs) (auto split: option.splits)
  have "distinct (map fst (rev (filter_map ?f (vs_instances p))))"
    using assms(1) by (simp add: rev_map [symmetric] keys distinct_map_filter)
  then have iff: "prev_times (Some p) (is_instance x) = Some t \<longleftrightarrow>
      (\<exists>y\<in>set (vs_instances p). is_instance y = is_instance x \<and> is_last_scale_time y = Some t)" for t
    by (simp add: prev_times_def map_of_eq_Some_iff mem)
  have "y = x" if "y \<in> set (vs_instances p)" "is_instance y = is_instance x" for y
    using assms that by (auto simp: distinct_map inj_on_def)
  then have "prev_times (Some p) (is_instance x) = Some t \<longleftrightarrow> is_last_scale_time x = Some t" for t
    using iff assms(2) by blast
  then show ?thesis by (metis not_Some_eq)
qed

text \<open>
  C28. Growth times are never lost. From one pass to the next the time of the last growth of an autoscaler does
  not go back, and it is at least that of every instance it lists. An instance that this pass grew is listed as
  the pass reported it, with its own new time. An instance that this pass did not grow is listed with the time
  that the previous status had for it, and otherwise as reported, provided the previous status lists no
  instance twice.
\<close>

theorem growth_times_are_kept:
  fixes prev gen raw inactive now
  defines "s \<equiv> build_status (Some prev) gen raw inactive now"
  shows "(\<forall>t. vs_last_scale_time prev = Some t \<longrightarrow> (\<exists>t'. vs_last_scale_time s = Some t' \<and> t \<le> t')) \<and>
    (\<forall>e\<in>set (vs_instances s). \<forall>t. is_last_scale_time e = Some t \<longrightarrow> (\<exists>t'. vs_last_scale_time s = Some t' \<and> t \<le> t')) \<and>
    (\<forall>e\<in>set raw. is_last_scale_time e \<noteq> None \<longrightarrow> e \<in> set (vs_instances s)) \<and>
    (distinct (map is_instance (vs_instances prev)) \<longrightarrow>
      (\<forall>e\<in>set raw. \<forall>x\<in>set (vs_instances prev). is_last_scale_time e = None \<and> is_instance x = is_instance e \<longrightarrow>
         e\<lparr>is_last_scale_time := is_last_scale_time x\<rparr> \<in> set (vs_instances s)))"
proof (intro conjI ballI allI impI)
  show "\<exists>t'. vs_last_scale_time s = Some t' \<and> t \<le> t'" if "vs_last_scale_time prev = Some t" for t
    using fold_latest_keep that by (simp add: s_def)
  show "\<exists>t'. vs_last_scale_time s = Some t' \<and> t \<le> t'" if "e \<in> set (vs_instances s)" "is_last_scale_time e = Some t" for e t
    using fold_latest_member [OF _ that(2)] that(1) by (simp add: s_def)
  show "e \<in> set (vs_instances s)" if "e \<in> set raw" "is_last_scale_time e \<noteq> None" for e
    using that by (auto simp: s_def built_entries_def carry_time_def image_iff intro!: bexI [of _ e])
  show "e\<lparr>is_last_scale_time := is_last_scale_time x\<rparr> \<in> set (vs_instances s)"
    if "distinct (map is_instance (vs_instances prev))" "e \<in> set raw" "x \<in> set (vs_instances prev)"
      "is_last_scale_time e = None \<and> is_instance x = is_instance e" for e x
    using prev_times_of [OF that(1,3)] that(2,4)
    by (auto simp: s_def built_entries_def carry_time_def image_iff intro!: bexI [of _ e])
qed

subsection \<open>The validator settles\<close>

lemma mset_remove_condition: "find_condition cs ty = Some c \<Longrightarrow> add_mset c (mset (remove_condition ty cs)) = mset cs"
  by (induction cs) (auto simp: find_condition_def split: if_splits)

lemma put_again:
  assumes "conditions_ok cs" "sorted (map ic_type cs)" "find_condition cs ty = Some c" "made_condition ty x (Some c) = c"
  shows "put_condition ty x cs = cs"
proof -
  let ?xs = "remove_condition ty cs @ [c]"
  have m: "mset ?xs = mset cs" using mset_remove_condition [OF assms(3)] by simp
  then have "set ?xs = set cs" by (rule mset_eq_setD)
  moreover have "inj_on ic_type (set cs)" using assms(1) by (simp add: conditions_ok_def distinct_map)
  ultimately have "sort_key ic_type ?xs = cs" using sort_key_inj_key_eq [OF m _ assms(2)] by simp
  then show ?thesis by (simp add: put_condition_sort assms(3,4))
qed

lemma put_twice:
  assumes "conditions_ok cs"
  shows "put_condition ty (st, r, m, g, later) (put_condition ty (st, r, m, g, now) cs) = put_condition ty (st, r, m, g, now) cs"
proof (rule put_again)
  show "find_condition (put_condition ty (st, r, m, g, now) cs) ty = Some (made_condition ty (st, r, m, g, now) (find_condition cs ty))"
    using assms by (rule ic.get_put_same)
  show "sorted (map ic_type (put_condition ty (st, r, m, g, now) cs))" by (simp add: put_condition_sort)
qed (simp_all add: assms conditions_ok_put made_condition_def)

lemma validated_twice:
  assumes "conditions_ok cs"
  shows "validated_conditions qr iva later (validated_conditions qr iva now cs) = validated_conditions qr iva now cs"
proof -
  have set_put: "set_iva_condition ty st r m g t = put_condition ty (st, r, m, g, t)" for ty st r m g t
    by (simp add: put_condition_def fun_eq_iff)
  have "(case find_condition (put_condition ''ScalingActive'' (st, ''AwaitingReconcile'', m, g, now) cs) ''ScalingActive'' of
      None \<Rightarrow> True | Some a \<Rightarrow> ic_reason a = ''InvalidSpec'') = False" for st m g
    using ic.get_put_same [OF assms, of "''ScalingActive''" "(st, ''AwaitingReconcile'', m, g, now)"] by (simp add: made_condition_def)
  then show ?thesis
    using assms by (auto simp: validated_conditions_def set_put put_twice split: sum.splits)
qed

lemma refresh_fixed:
  assumes "vs_target s = vs_target (refresh_summary iva s)" "vs_utilization s = vs_utilization (refresh_summary iva s)"
    "vs_reason s = vs_reason (refresh_summary iva s)" "vs_cooldown_duration s = vs_cooldown_duration (refresh_summary iva s)"
  shows "refresh_summary iva s = s"
proof (rule InstanceVolumeAutoscalerStatus.equality)
qed (use assms in \<open>simp_all add: refresh_summary_def Let_def\<close>)

text \<open>The printed fields depend on the instances and the conditions only.\<close>

lemma refresh_cong:
  assumes "vs_instances s = vs_instances s'" "vs_conditions s = vs_conditions s'"
  shows "vs_target (refresh_summary iva s) = vs_target (refresh_summary iva s')"
    "vs_utilization (refresh_summary iva s) = vs_utilization (refresh_summary iva s')"
    "vs_reason (refresh_summary iva s) = vs_reason (refresh_summary iva s')"
    "vs_cooldown_duration (refresh_summary iva s) = vs_cooldown_duration (refresh_summary iva s')"
  using assms by (simp_all add: refresh_summary_def Let_def)

lemma refresh_frame [simp]:
  "vs_instances (refresh_summary iva s) = vs_instances s" "vs_conditions (refresh_summary iva s) = vs_conditions s"
  "vs_current_volumes (refresh_summary iva s) = vs_current_volumes s"
  "vs_last_scale_time (refresh_summary iva s) = vs_last_scale_time s" "vs_utilization (refresh_summary iva s) \<noteq> []"
  by (auto simp: refresh_summary_def Let_def split: list.splits)

definition current_of :: "InstanceVolumeAutoscalerStatus option \<Rightarrow> InstanceVolumeAutoscalerStatus" where
  "current_of stored = (case stored of Some s \<Rightarrow> s | None \<Rightarrow> default_iva_status)"

lemma merge_same_lists:
  assumes "vs_instances s = vs_instances (current_of stored)" "vs_conditions s \<noteq> []"
  shows "vs_instances (merge_iva_status stored s) = vs_instances s" "vs_conditions (merge_iva_status stored s) = vs_conditions s"
  using assms by (auto simp: merge_iva_status_def keep_empty_def current_of_def split: option.splits)

lemma merge_printed:
  assumes "vs_target s \<noteq> []" "vs_utilization s \<noteq> []" "vs_reason s \<noteq> []" "vs_cooldown_duration s \<noteq> []"
  shows "vs_target (merge_iva_status stored s) = vs_target s" "vs_utilization (merge_iva_status stored s) = vs_utilization s"
    "vs_reason (merge_iva_status stored s) = vs_reason s" "vs_cooldown_duration (merge_iva_status stored s) = vs_cooldown_duration s"
  using assms by (auto simp: merge_iva_status_def keep_empty_def split: option.splits)

lemma validation_status_Some:
  assumes "validation_status qr now (iva, stored) = Some s"
  shows "vs_instances s = vs_instances (current_of stored)"
    "vs_conditions s = validated_conditions qr iva now (vs_conditions (current_of stored))"
    "vs_target s = vs_target (refresh_summary iva s)" "vs_utilization s = vs_utilization (refresh_summary iva s)"
    "vs_reason s = vs_reason (refresh_summary iva s)" "vs_cooldown_duration s = vs_cooldown_duration (refresh_summary iva s)"
proof -
  let ?r = "refresh_summary iva ((current_of stored)\<lparr>vs_conditions := validated_conditions qr iva now (vs_conditions (current_of stored))\<rparr>)"
  have s: "s = ?r \<or> s = ?r\<lparr>vs_observed_generation := iva_generation iva\<rparr>"
    using assms by (auto simp: validation_status_def Let_def current_of_def split: if_splits)
  then show "vs_instances s = vs_instances (current_of stored)"
    "vs_conditions s = validated_conditions qr iva now (vs_conditions (current_of stored))" by auto
  show "vs_target s = vs_target (refresh_summary iva s)" "vs_utilization s = vs_utilization (refresh_summary iva s)"
    "vs_reason s = vs_reason (refresh_summary iva s)" "vs_cooldown_duration s = vs_cooldown_duration (refresh_summary iva s)"
    using s by (auto simp: refresh_summary_def Let_def)
qed

text \<open>
  C29. The validator settles. When it writes a status, the status that the API server then stores needs no
  further write, at any later time, as long as the spec stays and no pass intervenes. So its own writes, which
  wake it up again, do not keep it busy. The printed fields it writes must not be empty, because a merge patch
  cannot clear a field.
\<close>

theorem validator_settles:
  assumes "validation_status qr now (iva, stored) = Some s" "conditions_ok (vs_conditions (current_of stored))"
    and "vs_target s \<noteq> []" "vs_reason s \<noteq> []" "vs_cooldown_duration s \<noteq> []"
  shows "validation_status qr later (iva, Some (merge_iva_status stored s)) = None"
proof -
  let ?m = "merge_iva_status stored s"
  note v = validation_status_Some [OF assms(1)]
  have "vs_conditions s \<noteq> []" using assms(4) v(5) by (auto simp: refresh_summary_def Let_def summary_reason_def)
  note l = merge_same_lists [OF v(1) this]
  have "vs_utilization s \<noteq> []" using v(4) by simp
  note p = merge_printed [OF assms(3) this assms(4,5), of stored]
  have c: "validated_conditions qr iva later (vs_conditions ?m) = vs_conditions ?m"
    unfolding l(2) v(2) by (rule validated_twice [OF assms(2)])
  have "refresh_summary iva ?m = ?m"
    by (rule refresh_fixed) (use v p refresh_cong [OF l, of iva] in simp_all)
  then show ?thesis using c by (simp add: validation_status_def Let_def)
qed

subsection \<open>Instances that are gone\<close>

lemma show_int_not_unknown: "show_int u @ x \<noteq> CHR ''<'' # y"
proof
  assume a: "show_int u @ x = CHR ''<'' # y"
  have ne: "show_nat n \<noteq> []" for n by (rule show_nat_not_Nil)
  have d: "hd (show_nat n) \<noteq> CHR ''<''" for n
  proof
    assume "hd (show_nat n) = CHR ''<''"
    then have "is_ascii_digit (CHR ''<'')" using show_nat_hd_last(1) [of n] by simp
    moreover have "\<not> is_ascii_digit (CHR ''<'')" by code_simp
    ultimately show False by contradiction
  qed
  have "hd (show_int u @ x) \<noteq> CHR ''<''" using d ne by (cases "u < 0") (simp_all add: show_int_def)
  then show False unfolding a by simp
qed

text \<open>What is stored after a pass that finds no instance for an active autoscaler.\<close>

definition idle_pass_stored :: "InstanceVolumeAutoscaler \<Rightarrow> InstanceVolumeAutoscalerStatus \<Rightarrow> int \<Rightarrow> InstanceVolumeAutoscalerStatus" where
  "idle_pass_stored iva prev t =
     merge_iva_status (Some prev) (refresh_summary iva (build_status (Some prev) (iva_generation iva) [] None t))"

text \<open>
  C39. Instances that are gone stay in the stored status. When an active autoscaler matches no instance any more,
  the pass writes an empty list, which the merge patch leaves out: whatever instances were stored stay stored, next
  to a volume count of zero and an unknown utilization (\<open><unknown>/goal%\<close>). If a utilization was measured for at
  least one of those instances, the validator then writes the largest of these old utilizations
  (\<open>max%/goal%\<close>), the API server stores it with the same instances, and the next such pass stores the unknown one
  again over them; so the two overwrite each other in turn.
\<close>

theorem vanished_instances_stay_stored:
  fixes iva p
  defines "goal \<equiv> show_int (target_utilization iva) @ ''%''"
  shows "vs_instances (idle_pass_stored iva p t) = vs_instances p \<and> vs_current_volumes (idle_pass_stored iva p t) = 0 \<and>
    vs_utilization (idle_pass_stored iva p t) = ''<unknown>/'' @ goal \<and>
    (filter_map is_current_utilization (vs_instances p) = u # us \<longrightarrow>
      (\<exists>s. validation_status qr t2 (iva, Some (idle_pass_stored iva p t)) = Some s \<and>
        vs_utilization s = show_int (Max (set (u # us))) @ ''%/'' @ goal \<and>
        (let stored = merge_iva_status (Some (idle_pass_stored iva p t)) s
         in vs_instances stored = vs_instances p \<and> vs_utilization stored = vs_utilization s \<and>
           vs_instances (idle_pass_stored iva stored t3) = vs_instances p \<and>
           vs_utilization (idle_pass_stored iva stored t3) = ''<unknown>/'' @ goal)))"
proof -
  have w: "vs_instances (idle_pass_stored iva q t) = vs_instances q" "vs_current_volumes (idle_pass_stored iva q t) = 0"
    "vs_utilization (idle_pass_stored iva q t) = ''<unknown>/'' @ goal" for q t
    by (simp_all add: idle_pass_stored_def merge_iva_status_def keep_empty_def i32_max_def)
      (simp_all add: refresh_summary_def Let_def built_entries_def goal_def)
  let ?i = "idle_pass_stored iva p t"
  let ?c = "?i\<lparr>vs_conditions := validated_conditions qr iva t2 (vs_conditions ?i)\<rparr>"
  have "\<exists>s. validation_status qr t2 (iva, Some ?i) = Some s \<and> vs_utilization s = show_int (Max (set (u # us))) @ ''%/'' @ goal \<and>
      vs_instances (merge_iva_status (Some ?i) s) = vs_instances p \<and> vs_utilization (merge_iva_status (Some ?i) s) = vs_utilization s"
    if u: "filter_map is_current_utilization (vs_instances p) = u # us"
  proof -
    have ru: "vs_utilization (refresh_summary iva ?c) = show_int (Max (set (u # us))) @ ''%/'' @ goal"
      unfolding Max.set_eq_fold by (simp add: refresh_summary_def Let_def w(1) u goal_def)
    then have "refresh_summary iva ?c \<noteq> ?i" using w(3) [of p t] show_int_not_unknown by (metis append_Cons)
    then obtain s where s: "validation_status qr t2 (iva, Some ?i) = Some s"
        "vs_utilization s = vs_utilization (refresh_summary iva ?c)" "vs_instances s = vs_instances (refresh_summary iva ?c)"
      by (auto simp: validation_status_def Let_def)
    have "vs_instances s = vs_instances p" using s(3) by (simp add: w(1) refresh_summary_def Let_def)
    moreover have "vs_utilization s = show_int (Max (set (u # us))) @ ''%/'' @ goal" using s(2) ru by (rule trans)
    ultimately show ?thesis using s(1) by (simp add: merge_iva_status_def keep_empty_def w(1))
  qed
  then show ?thesis by (auto simp: w Let_def)
qed

subsection \<open>Example statuses\<close>

definition demo_autoscaler :: InstanceVolumeAutoscaler where
  "demo_autoscaler = \<lparr>iva_name = Some ''p'', iva_uid = Some ''u'', iva_generation = None,
     iva_scale_target_ref = \<lparr>tr_kind = TagSelectorKind, tr_name = None, tr_tags = Some [(''Role'', ''db'')]\<rparr>, iva_max_capacity = ''100Gi'',
     iva_metrics = [], iva_behavior = Some \<lparr>bh_scale_up = Some \<lparr>sr_select_policy = SelectMax,
       sr_policies = [\<lparr>sp_type = GiBType, sp_value = 10\<rparr>], sr_cooldown_duration = None\<rparr>\<rparr>, iva_alert_enabled = False\<rparr>"

definition demo_reader :: quantity_reader where
  "demo_reader = \<lparr>qr_gib = (\<lambda>s. Inr 100), qr_at_least_1gib = (\<lambda>s. True)\<rparr>"

definition demo_pass_env :: pass_env where
  "demo_pass_env = \<lparr>pe_autoscalers = Inr [(demo_autoscaler, None)], pe_instances = Inr [demo_inst], pe_nodes = Inl ''down'',
     pe_task = (\<lambda>i. demo_rz_env ''91%'' 0 None), pe_joined = (\<lambda>xs. xs), pe_now = 0\<rparr>"

lemma demo_compiled: "compile_autoscaler demo_reader demo_autoscaler = Inr \<lparr>cp_target = TargetTags [(''Role'', ''db'')], cp_effective = demo_eff 100\<rparr>"
  by (simp add: compile_autoscaler_def demo_autoscaler_def demo_reader_def compile_target_def Let_def compile_steps_def cooldown_of_def
      DEFAULT_UTILIZATION_PERCENT_def demo_eff_def MIN_COOLDOWN_def)

lemma demo_tasks:
  "pr_tasks (rz_reconcile demo_reader demo_resizer False demo_pass_env) =
     [(0, st_log (instance_task demo_resizer (demo_rz_env ''91%'' 0 None) demo_inst (demo_eff 100) None))]"
proof -
  have r: "resolver_new demo_reader [demo_autoscaler] =
      \<lparr>rs_autoscalers = [\<lparr>cp_target = TargetTags [(''Role'', ''db'')], cp_effective = demo_eff 100\<rparr>], rs_invalid = []\<rparr>"
    by (simp add: resolver_new_def demo_compiled)
  have "pn_managed (plan_instances (resolver_new demo_reader [demo_autoscaler]) [demo_inst]) = [(0, demo_eff 100)]"
    by (simp add: r plan_instances_def matching_def demo_inst_def assign_def add_conflicts_def)
  then show ?thesis
    by (simp add: rz_reconcile_def demo_pass_env_def Let_def protective_cordon_nodes_def del: task_log)
qed

theorem pass_grows_only_assigned_volumes_witness:
  "\<exists>eff. sole_owner (resolver_new demo_reader [demo_autoscaler]) [demo_inst] demo_inst = Some eff \<and> 30 \<le> ef_max_volume_size_gib eff"
proof -
  let ?lg = "st_log (instance_task demo_resizer (demo_rz_env ''91%'' 0 None) demo_inst (demo_eff 100) None)"
  have "(0, ?lg) \<in> set (pr_tasks (rz_reconcile demo_reader demo_resizer False demo_pass_env))"
    by (simp add: demo_tasks del: task_log)
  moreover have "(''vol-1'', size_only 30, True) \<in> set (modifications ?lg)" by (simp add: demo_pass del: task_log)
  ultimately show ?thesis
    using pass_grows_only_assigned_volumes [of 0 ?lg demo_reader demo_resizer False demo_pass_env "''vol-1''" "size_only 30" True]
    by (auto simp: size_only_def demo_pass_env_def simp del: task_log)
qed

definition demo_entry :: "int option \<Rightarrow> int option \<Rightarrow> InstanceStatus" where
  "demo_entry usage scaled = (observation_entry (observation_set ''BelowTarget'' [] (observation_new 20)) demo_inst)
     \<lparr>is_current_utilization := usage, is_last_scale_time := scaled\<rparr>"

theorem ready_exactly_when_healthy_witness:
  "vs_reason (refresh_summary demo_autoscaler (build_status None None [demo_entry (Some 40) None] None 0)) = ''Ready''"
  using ready_exactly_when_healthy [of None None demo_autoscaler None "[demo_entry (Some 40) None]" 0]
  by (simp add: prev_conditions_def conditions_ok_def demo_entry_def observation_entry_def observation_set_def)

definition demo_status :: InstanceVolumeAutoscalerStatus where
  "demo_status = default_iva_status\<lparr>vs_last_scale_time := Some 5, vs_instances := [demo_entry (Some 40) (Some 5)]\<rparr>"

theorem growth_times_are_kept_witness:
  "\<exists>e t. vs_instances (build_status (Some demo_status) None [demo_entry None None] None 9) = [e] \<and> is_last_scale_time e = Some 5 \<and>
     vs_last_scale_time (build_status (Some demo_status) None [demo_entry None None] None 9) = Some t \<and> 5 \<le> t"
  using growth_times_are_kept [of demo_status None "[demo_entry None None]" None 9]
  by (auto simp: demo_status_def default_iva_status_def demo_entry_def built_entries_def carry_time_def prev_times_def)

theorem validator_settles_witness:
  "\<exists>s. validation_status demo_reader 0 (demo_autoscaler, None) = Some s \<and>
     validation_status demo_reader 7 (demo_autoscaler, Some (merge_iva_status None s)) = None"
proof -
  let ?v = "validation_status demo_reader 0 (demo_autoscaler, None)"
  have t: "vs_target (refresh_summary demo_autoscaler x) = ''Role=db''" "vs_cooldown_duration (refresh_summary demo_autoscaler x) \<noteq> []" for x
    by (simp_all add: refresh_summary_def Let_def target_summary_def SUMMARY_TAGS_def demo_autoscaler_def format_cooldown_def MIN_COOLDOWN_def)
  have "refresh_summary demo_autoscaler x \<noteq> default_iva_status" for x
    using t(1) [of x] by (auto simp: default_iva_status_def)
  then have "?v \<noteq> None" by (auto simp: validation_status_def Let_def)
  then obtain s where s: "?v = Some s" by blast
  note v = validation_status_Some [OF s]
  have "vs_conditions s = [\<lparr>ic_type = ''ScalingActive'', ic_status = ''Unknown'', ic_reason = ''AwaitingReconcile'',
      ic_message = ''the spec is valid and waits for the next resize pass'', ic_observed_generation = None, ic_last_transition_time = 0\<rparr>]"
    unfolding v(2) by (simp add: validated_conditions_def demo_compiled current_of_def default_iva_status_def find_condition_def
        set_iva_condition_def k8s_time_def, simp add: demo_autoscaler_def)
  then have "vs_reason s \<noteq> []"
    unfolding v(5) by (simp add: refresh_summary_def Let_def summary_reason_def unless_healthy_def find_condition_def)
  then have "validation_status demo_reader 7 (demo_autoscaler, Some (merge_iva_status None s)) = None"
    by (intro validator_settles [OF s]) (use v(3,6) t in \<open>simp_all add: current_of_def default_iva_status_def conditions_ok_def\<close>)
  then show ?thesis using s by blast
qed

theorem vanished_instances_stay_stored_witness:
  "\<exists>s. validation_status demo_reader 1 (demo_autoscaler, Some (idle_pass_stored demo_autoscaler demo_status 0)) = Some s \<and>
     vs_utilization s = show_int 40 @ ''%/'' @ show_int (target_utilization demo_autoscaler) @ ''%'' \<and>
     vs_instances (idle_pass_stored demo_autoscaler demo_status 0) = [demo_entry (Some 40) (Some 5)]"
proof -
  have "filter_map is_current_utilization (vs_instances demo_status) = [40]"
    "vs_instances demo_status = [demo_entry (Some 40) (Some 5)]"
    by (simp_all add: demo_status_def default_iva_status_def demo_entry_def)
  then show ?thesis
    using vanished_instances_stay_stored [of demo_autoscaler demo_status 0 40 "[]" demo_reader 1 2] by (auto simp: Let_def)
qed

end
