(* ===== verification/Spec2Isabelle.thy ===== *)
theory Spec2Isabelle
  imports Kuo_Runs Fsc_Cleaner Gate_Admission Hen_Poller Vas_Status
begin

text \<open>
  Verification development of five programs of the repository, all under \<^verbatim>\<open>src/box/addons/\<close>:
  \<^verbatim>\<open>kubernetes-upgrade-operator\<close> (theories \<open>Kuo_*\<close>), \<^verbatim>\<open>filesystem-cleaner\<close> (\<open>Fsc_*\<close>),
  \<^verbatim>\<open>argocd-canary-gate\<close> (\<open>Gate_*\<close>), \<^verbatim>\<open>aws-health-event-notifier\<close> (\<open>Hen_*\<close>) and
  \<^verbatim>\<open>volume-autoscaler\<close> (\<open>Vas_*\<close>). They share no code; the theories share the vocabulary of
  \<open>Kuo_Prelude\<close> (results, effects, strings, integers) and \<open>Rust_Text\<close> (debug and hexadecimal
  formatting, cutting by characters).

  \<^bold>\<open>The upgrade operator.\<close> A controller reconciles an EKSUpgrade resource: each reconcile reads the
  stored status, runs the handler of the current phase once and patches the status. A run goes
  through planning, preflight checks and then the work phases: control plane, add-ons, node groups
  and Karpenter node pools, or the first three in reverse for a rollback.

  \<^item> \<open>Kuo_Error\<close>, \<open>Kuo_Types\<close>: error.rs and crd/, field for field.
  \<^item> \<open>Kuo_Version\<close>, \<open>Kuo_Addon\<close>, \<open>Kuo_Nodegroup\<close>, \<open>Kuo_Aws\<close>, \<open>Kuo_Kube\<close>: eks/ and k8s/. AWS and the
    API servers are the records \<open>eks_sdk\<close> and \<open>kube_api\<close> of answers; requests that change something
    are collected as effects. Shown: the forward path climbs one minor at a time, the chosen add-on
    version is the newest compatible one, a rollback plan never upgrades an add-on that is not
    pinned, and round trips of the parsers.
  \<^item> \<open>Kuo_Status\<close>, \<open>Kuo_World\<close>, \<open>Kuo_Interfaces\<close>: status.rs, phases/transition.rs, and the contracts
    \<open>work_queue\<close>, \<open>work_phase\<close> and \<open>comparator_on\<close>, which the handlers' theories interpret.
  \<^item> \<open>Kuo_ControlPlane\<close>, \<open>Kuo_Components\<close>, \<open>Kuo_Karpenter\<close>, \<open>Kuo_Preflight\<close>, \<open>Kuo_Planning\<close>: phases/,
    one definition per handler. Shown: what each asks for, that it works on one component at a time,
    that it finishes when AWS cooperates, and exactly when preflight blocks.
  \<^item> \<open>Kuo_Notify\<close>, \<open>Kuo_Controller\<close>: notify.rs and controller.rs, with the status patch as the JSON
    merge patch the API server applies. Shown: a control plane step that AWS keeps rejecting is sent
    again in every reconcile.
  \<^item> \<open>Kuo_Progress\<close>, \<open>Kuo_Runs\<close>: sequences of reconciles of a resource whose spec does not change, each
    in an arbitrary environment, as the relation \<open>reaches\<close>. By rule induction over one invariant: a
    completed run has sent exactly the planned requests, in the order of the phases; a dry run sends
    none; and no reconcile of such a run aborts the process or deletes a NodeClaim. The latter holds
    because the Karpenter phase is never executed once it is entered (\<open>karpenter_phase_stalls\<close>).

  \<^bold>\<open>The filesystem cleaner.\<close> For every target path above a usage threshold it deletes the files that
  match its patterns, once or at an interval.

  \<^item> \<open>Fsc_Config\<close>: config.rs. Flags, then environment, then defaults.
  \<^item> \<open>Fsc_Scanner\<close>: matcher.rs, scanner.rs, bytesize.rs. The traversal of a directory tree is shown
    equal to a declarative set of eligible files.
  \<^item> \<open>Fsc_Cleaner\<close>: cleaner.rs, cleaner/report.rs, schedule.rs, main.rs. The disk, the file system, the
    remover and the shutdown token may answer anything, depending on everything done before. Shown:
    every removal of the whole program is justified, and the counters account for the removals. What
    every cycle keeps is the contract \<open>kept_by_cycle\<close> of the schedule.

  \<^bold>\<open>The canary gate.\<close> An admission webhook that refuses an Argo CD sync while a Rollout of the
  Application is mid-update, and a preview of the same verdict.

  \<^item> \<open>Gate_Types\<close>: config.rs, gate/types.rs, k8s/. JSON documents and their reduction.
  \<^item> \<open>Gate_Evaluate\<close>: gate/evaluate.rs, engine.rs. The verdict and what it carries.
  \<^item> \<open>Gate_Admission\<close>: admission/, events.rs, extension.rs. Shown: exactly which reviews are denied, that
    the preview agrees with the webhook, that a dry run writes no event, and that an event message
    fits its limit without splitting a character.

  \<^bold>\<open>The health event notifier.\<close> It polls AWS Health for events updated since the last poll and sends each
  one that passes its filters to Slack, with reminders before scheduled events begin.

  \<^item> \<open>Hen_Filter\<close>: health.rs, filter.rs. Shown: exactly which events pass, and that validation of the
    configured lists loses nothing.
  \<^item> \<open>Hen_Poller\<close>: dedup.rs, poller.rs. AWS and Slack answer anything, depending on everything sent
    before. What every cycle keeps is the contract \<open>poller_invariant\<close>, interpreted five times. Shown: no
    version of an event is announced twice, every message is warranted, a reminder goes through once while
    its event is upcoming, a cold start is silent, and a window that failed is not queried again.

  \<^bold>\<open>The volume autoscaler.\<close> It grows the root volumes of EC2 instances that fill up, under the rules of an
  InstanceVolumeAutoscaler, and marks persistent volumes that nothing uses.

  \<^item> \<open>Vas_Policy\<close>: autoscaler.rs, autoscaler/instance_volume/policy.rs and crd.rs. Shown: the step is the one
    the rules select, compiled settings are in range, cooldowns round-trip, and an instance is managed
    exactly when one autoscaler without conflicts selects it.
  \<^item> \<open>Vas_Scan\<close>: pvscan/. Verdicts, and the clock of an unused object kept in its own annotations. Shown over
    successive passes: the clock runs from the first mark, and an object in use carries none.
  \<^item> \<open>Vas_Resizer\<close>: recstore.rs, autoscaler/instance_volume/resizer/. One task per instance and pass, where
    AWS, SSM and the Node API may fail at any call. Shown: a modification is warranted, carries a due
    throughput change and is sent at most once more without it, a volume is modified at most four times a day over any
    sequence of passes, and only the program's own cordons are lifted.
  \<^item> \<open>Vas_Status\<close>: the pass of autoscaler/instance\_volume/resizer.rs, resizer/status.rs, api.rs. The list of
    conditions satisfies the contract \<open>keyed_records\<close>. Shown: a pass grows only volumes of instances assigned
    to one autoscaler, the summary reads Ready exactly when all is well, growth times are kept, and the
    validator settles. Shown as well: a merge patch cannot empty the list of instances.

  \<^bold>\<open>Bounds and termination.\<close> No definition uses fuel. Loops are recursive functions with a termination
  proof: the directory traversal by the size of the tree, the unit loop of the size formatter by its
  quotient, the search for a character boundary by the index. Endless loops are modelled by their
  steps: a run of the operator is a relation over single reconciles, and the interval loop of the
  cleaner consumes a list of wake-ups, the stretch of its schedule that is observed. Machine integers
  are numbers with their width written out where it can be reached: 32-bit step counters and 64-bit
  durations of the operator, 64-bit byte totals of the cleaner and of the volume scan, 32-bit replica
  ordinals, which wrap in the release profile.
  The properties of runs assume a target minor below \<open>u32_max\<close> (\<open>small_target\<close>), so that the number
  of steps fits its counter.

  \<^bold>\<open>Idealisations.\<close> White space and letter case are those of ASCII. Disk usage is a rational number
  where the code has a floating point one. One clock reading stands for those of one reconcile; the
  resizer and the poller read the clock at each use. Instants are integers in nanoseconds, so the
  panic on a date beyond the year 262,000 is left out; the resizer reaches it only with a cooldown of
  that length. File names are valid UTF-8, so \<^verbatim>\<open>to_string_lossy\<close> keeps them.

  \<^bold>\<open>Not modelled.\<close> Third-party code is a parameter: AWS and Kubernetes clients, globset, decoding by
  serde and clap. Log lines and metrics are written and never read back. Of the operator, the MCP
  server, Grafana annotations, credentials and start-up; of the cleaner, the statvfs and unlink
  wrappers and the decimal rendering of sizes; of the gate, certificates, UI files, the task that
  writes queued events and start-up; of the notifier, the Slack blocks, the catalogue download and
  start-up; of the volume autoscaler, the throughput advice (arithmetic on floating-point series from
  Prometheus; its result reaches the resizer through the modelled store), the autoscaler of claims, the
  semaphore around the tasks, the wording of reports, and start-up. The other programs
  of the repository are not covered: forklift, trivy-collector and kagent-gateway are servers around
  databases, object storage and chat services, aurora-database-insights-exporter renders floating-point
  metrics, and the command line tools are interactive. Neither are charts and scripts.
\<close>

end
